(* ===== verification/Prelude.thy ===== *)
theory Prelude
  imports Main "HOL-Library.Word" "HOL-Library.State_Monad" "HOL-Library.Sublist"
begin

text \<open>
  What the components share: programs that talk to the operating system, the two loop
  shapes of the daemon (stop at the first error, or visit every element), and machines
  driven by events.

  A program is a state monad over the list of calls made so far, oldest first. The
  environment \<open>env h c\<close> is the answer the outside world gives to call \<open>c\<close> after the calls
  \<open>h\<close>; because it sees the whole history it can be any kernel, any peer and any failure.
  \<open>outcome p h\<close> is what \<open>p\<close> returns when it starts after \<open>h\<close>, and \<open>calls p h\<close> the calls it makes.
\<close>

named_theorems extends_rules "programs only add calls at the end of the history"
named_theorems run_simps "the outcome and the calls of a program, by its shape"
named_theorems silent_rules "programs whose calls do not matter to a part of the world"

subsection \<open>Programs and their calls\<close>

type_synonym ('c, 'a) prog = "('c list, 'a) state"

abbreviation return :: "'a \<Rightarrow> ('c, 'a) prog" where
  "return \<equiv> State_Monad.return"

definition perform :: "('c list \<Rightarrow> 'c \<Rightarrow> 'r) \<Rightarrow> 'c \<Rightarrow> ('c, 'r) prog" where
  "perform env c = State (\<lambda>h. (env h c, h @ [c]))"

definition outcome :: "('c, 'a) prog \<Rightarrow> 'c list \<Rightarrow> 'a" where
  "outcome p h = fst (run_state p h)"

definition calls :: "('c, 'a) prog \<Rightarrow> 'c list \<Rightarrow> 'c list" where
  "calls p h = drop (length h) (snd (run_state p h))"

definition extends :: "('c, 'a) prog \<Rightarrow> bool" where
  "extends p \<longleftrightarrow> (\<forall>h. \<exists>t. snd (run_state p h) = h @ t)"

lemma run_perform [simp]: "run_state (perform env c) h = (env h c, h @ [c])"
  by (simp add: perform_def)

lemma run_as_calls: "extends p \<Longrightarrow> run_state p h = (outcome p h, h @ calls p h)"
proof -
  assume "extends p"
  then obtain t where "snd (run_state p h) = h @ t"
    by (auto simp: extends_def)
  then show ?thesis
    by (simp add: outcome_def calls_def prod_eq_iff)
qed

lemma extends_return [extends_rules, simp]: "extends (return x)"
  by (simp add: extends_def)

lemma extends_perform [extends_rules, simp]: "extends (perform env c)"
  by (simp add: extends_def)

lemma extends_bind [extends_rules]:
  assumes "extends p" and "\<And>a. extends (f a)"
  shows "extends (State_Monad.bind p f)"
  unfolding extends_def
proof
  fix h
  obtain t where "snd (run_state p h) = h @ t"
    using assms(1) by (auto simp: extends_def)
  then obtain a where p: "run_state p h = (a, h @ t)"
    by (metis prod.collapse)
  obtain u where "snd (run_state (f a) (h @ t)) = (h @ t) @ u"
    using assms(2) unfolding extends_def by blast
  with p show "\<exists>t. snd (run_state (State_Monad.bind p f) h) = h @ t"
    by simp
qed

lemma extends_if [extends_rules]: "extends p \<Longrightarrow> extends q \<Longrightarrow> extends (if b then p else q)"
  by simp

lemma extends_sum [extends_rules]:
  "(\<And>e. extends (f e)) \<Longrightarrow> (\<And>a. extends (g a)) \<Longrightarrow>
     extends (case r of Inl e \<Rightarrow> f e | Inr a \<Rightarrow> g a)"
  by (cases r) simp_all

lemma extends_option [extends_rules]:
  "extends p \<Longrightarrow> (\<And>a. extends (g a)) \<Longrightarrow> extends (case r of None \<Rightarrow> p | Some a \<Rightarrow> g a)"
  by (cases r) simp_all

lemma extends_prod [extends_rules]:
  "(\<And>a b. extends (f a b)) \<Longrightarrow> extends (case r of (a, b) \<Rightarrow> f a b)"
  by (cases r) simp

lemma outcome_return [run_simps, simp]: "outcome (return x) h = x"
  by (simp add: outcome_def)

lemma calls_return [run_simps, simp]: "calls (return x) h = []"
  by (simp add: calls_def)

lemma outcome_perform [run_simps, simp]: "outcome (perform env c) h = env h c"
  by (simp add: outcome_def)

lemma calls_perform [run_simps, simp]: "calls (perform env c) h = [c]"
  by (simp add: calls_def)

lemma outcome_bind [run_simps]:
  "extends p \<Longrightarrow>
     outcome (State_Monad.bind p f) h = outcome (f (outcome p h)) (h @ calls p h)"
  unfolding outcome_def [of "State_Monad.bind p f"] outcome_def [of "f (outcome p h)"]
  by (simp add: run_as_calls)

lemma calls_bind [run_simps]:
  assumes "extends p" and "\<And>a. extends (f a)"
  shows "calls (State_Monad.bind p f) h =
           calls p h @ calls (f (outcome p h)) (h @ calls p h)"
  unfolding calls_def [of "State_Monad.bind p f"]
  by (simp add: run_as_calls [OF assms(1)] run_as_calls [OF assms(2)])

lemma outcome_if [run_simps]:
  "outcome (if b then p else q) h = (if b then outcome p h else outcome q h)"
  by simp

lemma calls_if [run_simps]:
  "calls (if b then p else q) h = (if b then calls p h else calls q h)"
  by simp

text \<open>The calls of a program with the answers they got.\<close>

fun exchanges :: "('c list \<Rightarrow> 'c \<Rightarrow> 'r) \<Rightarrow> 'c list \<Rightarrow> 'c list \<Rightarrow> ('c \<times> 'r) list" where
  "exchanges env h [] = []"
| "exchanges env h (c # cs) = (c, env h c) # exchanges env (h @ [c]) cs"

lemma exchanges_append:
  "exchanges env h (cs @ ds) = exchanges env h cs @ exchanges env (h @ cs) ds"
  by (induction cs arbitrary: h) simp_all

lemma map_fst_exchanges [simp]: "map fst (exchanges env h cs) = cs"
  by (induction cs arbitrary: h) simp_all

text \<open>A destructor that makes one call when a scope is left, on every path out of it.\<close>

definition finally_call :: "('c list \<Rightarrow> 'c \<Rightarrow> 'r) \<Rightarrow> 'c \<Rightarrow> ('c, 'a) prog \<Rightarrow> ('c, 'a) prog" where
  "finally_call env c p = do { r \<leftarrow> p; _ \<leftarrow> perform env c; return r }"

lemma extends_finally_call [extends_rules]: "extends p \<Longrightarrow> extends (finally_call env c p)"
  unfolding finally_call_def by (intro extends_rules)

lemma outcome_finally_call [run_simps]:
  "extends p \<Longrightarrow> outcome (finally_call env c p) h = outcome p h"
  by (simp add: finally_call_def run_simps extends_rules)

lemma calls_finally_call [run_simps]:
  "extends p \<Longrightarrow> calls (finally_call env c p) h = calls p h @ [c]"
  by (simp add: finally_call_def run_simps extends_rules)


subsection \<open>Loops\<close>

text \<open>
  The daemon's two kinds of loop over a collection. \<open>for_each\<close> is the loop whose body may
  \<^verbatim>\<open>return std::unexpected(..)\<close>: it stops at the first error. \<open>for_do\<close> visits every element.
\<close>

type_synonym 'e status = "'e + unit"

abbreviation ok :: "'e status" where
  "ok \<equiv> Inr ()"

fun for_each :: "('a \<Rightarrow> ('c, 'e status) prog) \<Rightarrow> 'a list \<Rightarrow> ('c, 'e status) prog" where
  "for_each f [] = return ok"
| "for_each f (x # xs) =
     do { r \<leftarrow> f x; (case r of Inl e \<Rightarrow> return (Inl e) | Inr _ \<Rightarrow> for_each f xs) }"

fun for_do :: "('a \<Rightarrow> ('c, unit) prog) \<Rightarrow> 'a list \<Rightarrow> ('c, unit) prog" where
  "for_do f [] = return ()"
| "for_do f (x # xs) = do { _ \<leftarrow> f x; for_do f xs }"

lemma extends_for_each [extends_rules]: "(\<And>x. extends (f x)) \<Longrightarrow> extends (for_each f xs)"
  by (induction xs) (auto intro!: extends_rules)

lemma extends_for_do [extends_rules]: "(\<And>x. extends (f x)) \<Longrightarrow> extends (for_do f xs)"
  by (induction xs) (auto intro!: extends_rules)

lemma for_each_Cons_outcome:
  assumes "\<And>x. extends (f x)"
  shows "outcome (for_each f (x # xs)) h =
           (case outcome (f x) h of Inl e \<Rightarrow> Inl e
            | Inr _ \<Rightarrow> outcome (for_each f xs) (h @ calls (f x) h))"
  by (simp add: run_simps assms extends_rules split: sum.split)

lemma for_each_Cons_calls:
  assumes "\<And>x. extends (f x)"
  shows "calls (for_each f (x # xs)) h =
           calls (f x) h @
           (case outcome (f x) h of Inl e \<Rightarrow> []
            | Inr _ \<Rightarrow> calls (for_each f xs) (h @ calls (f x) h))"
  by (simp add: run_simps assms extends_rules split: sum.split)

lemma for_each_append_ok:
  assumes "\<And>x. extends (f x)" and "outcome (for_each f xs) h = ok"
  shows "outcome (for_each f (xs @ ys)) h = outcome (for_each f ys) (h @ calls (for_each f xs) h)"
    and "calls (for_each f (xs @ ys)) h =
      calls (for_each f xs) h @ calls (for_each f ys) (h @ calls (for_each f xs) h)"
  using assms(2)
  by (induction xs arbitrary: h)
    (auto simp: for_each_Cons_outcome for_each_Cons_calls assms(1) simp del: for_each.simps(2)
      split: sum.splits)

lemma for_do_Cons_calls:
  assumes "\<And>x. extends (f x)"
  shows "calls (for_do f (x # xs)) h =
           calls (f x) h @ calls (for_do f xs) (h @ calls (f x) h)"
  by (simp add: run_simps assms extends_rules)

text \<open>The early return: go on only after success.\<close>

definition on_ok :: "('c, 'e status) prog \<Rightarrow> ('c, 'e status) prog \<Rightarrow> ('c, 'e status) prog" where
  "on_ok p q = do { r \<leftarrow> p; (case r of Inl e \<Rightarrow> return (Inl e) | Inr _ \<Rightarrow> q) }"

lemma extends_on_ok [extends_rules]: "extends p \<Longrightarrow> extends q \<Longrightarrow> extends (on_ok p q)"
  unfolding on_ok_def by (intro extends_rules)

lemma outcome_on_ok [run_simps]:
  "extends p \<Longrightarrow> outcome (on_ok p q) h =
     (case outcome p h of Inl e \<Rightarrow> Inl e | Inr _ \<Rightarrow> outcome q (h @ calls p h))"
  by (simp add: on_ok_def run_simps split: sum.split)

lemma calls_on_ok [run_simps]:
  "extends p \<Longrightarrow> extends q \<Longrightarrow> calls (on_ok p q) h =
     calls p h @ (case outcome p h of Inl e \<Rightarrow> [] | Inr _ \<Rightarrow> calls q (h @ calls p h))"
  by (simp add: on_ok_def run_simps extends_rules split: sum.split)

text \<open>
  The contract of a loop body: seen through \<open>obs\<close>, which picks out some calls and what
  matters of them, a body that succeeds shows exactly \<open>out x\<close>, and one that fails an initial
  part of it. The loop then shows, on success, the concatenation, and an initial part of it
  otherwise.
\<close>

definition view :: "('c \<Rightarrow> 'o option) \<Rightarrow> 'c list \<Rightarrow> 'o list" where
  "view obs cs = List.map_filter obs cs"

lemma view_simps [simp]:
  "view obs [] = []"
  "view obs (c # cs) = (case obs c of None \<Rightarrow> view obs cs | Some x \<Rightarrow> x # view obs cs)"
  "view obs (cs @ ds) = view obs cs @ view obs ds"
  by (simp_all add: view_def List.map_filter_def split: option.split)

locale observed_body =
  fixes body :: "'a \<Rightarrow> ('c, 'e status) prog"
    and obs :: "'c \<Rightarrow> 'o option"
    and out :: "'a \<Rightarrow> 'o list"
  assumes body_extends: "extends (body x)"
    and body_ok: "outcome (body x) h = ok \<Longrightarrow> view obs (calls (body x) h) = out x"
    and body_prefix: "prefix (view obs (calls (body x) h)) (out x)"
begin

lemma loop_ok:
  "outcome (for_each body xs) h = ok \<Longrightarrow>
     view obs (calls (for_each body xs) h) = concat (map out xs)"
proof (induction xs arbitrary: h)
  case Nil
  then show ?case by simp
next
  case (Cons x xs)
  then have x: "outcome (body x) h = ok"
    by (auto simp add: for_each_Cons_outcome body_extends simp del: for_each.simps
        split: sum.splits)
  with Cons show ?case
    by (simp add: for_each_Cons_outcome for_each_Cons_calls body_extends body_ok
        del: for_each.simps)
qed

lemma loop_prefix:
  "prefix (view obs (calls (for_each body xs) h)) (concat (map out xs))"
proof (induction xs arbitrary: h)
  case Nil
  then show ?case by simp
next
  case (Cons x xs)
  show ?case
  proof (cases "outcome (body x) h")
    case (Inl e)
    then show ?thesis
      using body_prefix[of x h]
      by (simp add: for_each_Cons_calls body_extends prefix_prefix del: for_each.simps)
  next
    case (Inr u)
    then have "outcome (body x) h = ok" by simp
    with Cons show ?thesis
      by (simp add: for_each_Cons_calls body_extends body_ok del: for_each.simps)
  qed
qed

end

text \<open>The same contract for the loop that visits every element, whatever happens.\<close>

locale observed_action =
  fixes action :: "'a \<Rightarrow> ('c, unit) prog"
    and obs :: "'c \<Rightarrow> 'o option"
    and out :: "'a \<Rightarrow> 'o list"
  assumes action_extends: "extends (action x)"
    and action_out: "view obs (calls (action x) h) = out x"
begin

lemma sweep_out: "view obs (calls (for_do action xs) h) = concat (map out xs)"
  by (induction xs arbitrary: h)
    (simp_all add: for_do_Cons_calls action_extends action_out del: for_do.simps(2))

end

text \<open>A discipline that calls keep, such as closing what was opened: one round of a loop keeps it,
  and so do all rounds together, whether the loop stops at an error or not.\<close>

locale call_discipline =
  fixes body :: "'a \<Rightarrow> ('c, 'e status) prog"
    and good :: "'c list \<Rightarrow> 'c list \<Rightarrow> bool"
  assumes body_extends: "extends (body x)"
    and good_Nil: "good h []"
    and good_append: "good h cs \<Longrightarrow> good (h @ cs) ds \<Longrightarrow> good h (cs @ ds)"
    and body_good: "good h (calls (body x) h)"
begin

lemma loop_good: "good h (calls (for_each body xs) h)"
  by (induction xs arbitrary: h)
    (simp_all add: good_Nil good_append body_good body_extends for_each_Cons_calls
      split: sum.split del: for_each.simps(2))

lemma sweep_good: "good h (calls (for_do (\<lambda>x. do { _ \<leftarrow> body x; return () }) xs) h)"
  by (induction xs arbitrary: h)
    (simp_all add: good_Nil good_append body_good body_extends run_simps extends_rules)

end

subsection \<open>Parts of the world\<close>

text \<open>
  A part of the world that calls act on (a table of the kernel, a file) is a state changed by
  \<open>step\<close>. A program is silent for it when its calls leave it alone, whatever they are answered.
\<close>

definition silent :: "('c \<Rightarrow> 's \<Rightarrow> 's) \<Rightarrow> ('c, 'a) prog \<Rightarrow> bool" where
  "silent step p \<longleftrightarrow> extends p \<and> (\<forall>h s. fold step (calls p h) s = s)"

lemma silentD: "silent step p \<Longrightarrow> extends p" "silent step p \<Longrightarrow> fold step (calls p h) s = s"
  by (simp_all add: silent_def)

lemma silent_return [silent_rules]: "silent step (return x)"
  by (simp add: silent_def)

lemma silent_perform [silent_rules]: "(\<And>s. step c s = s) \<Longrightarrow> silent step (perform env c)"
  by (simp add: silent_def)

lemma silent_bind [silent_rules]:
  "silent step p \<Longrightarrow> (\<And>a. silent step (f a)) \<Longrightarrow> silent step (State_Monad.bind p f)"
  by (simp add: silent_def run_simps extends_rules)

lemma silent_if [silent_rules]: "silent step p \<Longrightarrow> silent step q \<Longrightarrow> silent step (if b then p else q)"
  by simp

lemma silent_sum [silent_rules]:
  "(\<And>e. silent step (f e)) \<Longrightarrow> (\<And>a. silent step (g a)) \<Longrightarrow>
     silent step (case r of Inl e \<Rightarrow> f e | Inr a \<Rightarrow> g a)"
  by (cases r) simp_all

lemma silent_option [silent_rules]:
  "silent step p \<Longrightarrow> (\<And>a. silent step (g a)) \<Longrightarrow>
     silent step (case r of None \<Rightarrow> p | Some a \<Rightarrow> g a)"
  by (cases r) simp_all

lemma silent_for_each [silent_rules]: "(\<And>x. silent step (f x)) \<Longrightarrow> silent step (for_each f xs)"
  by (induction xs) (auto intro!: silent_rules)

lemma silent_for_do [silent_rules]: "(\<And>x. silent step (f x)) \<Longrightarrow> silent step (for_do f xs)"
  by (induction xs) (auto intro!: silent_rules)

lemma silent_on_ok [silent_rules]: "silent step p \<Longrightarrow> silent step q \<Longrightarrow> silent step (on_ok p q)"
  unfolding on_ok_def by (intro silent_rules)

lemma silent_finally_call [silent_rules]:
  "silent step p \<Longrightarrow> (\<And>s. step c s = s) \<Longrightarrow> silent step (finally_call env c p)"
  unfolding finally_call_def by (intro silent_rules)

subsection \<open>Machines driven by events\<close>

text \<open>
  A component that reacts to events one at a time. An invariant that every step on a good
  event keeps holds after every run of good events.
\<close>

locale event_machine =
  fixes step :: "'e \<Rightarrow> 's \<Rightarrow> 's"
    and good :: "'e \<Rightarrow> bool"
    and inv :: "'s \<Rightarrow> bool"
  assumes step_inv: "inv s \<Longrightarrow> good e \<Longrightarrow> inv (step e s)"
begin

lemma run_inv: "inv s \<Longrightarrow> list_all good es \<Longrightarrow> inv (fold step es s)"
  by (induction es arbitrary: s) (simp_all add: step_inv)

end

end
