(* ===== verification/Net_Types.thy ===== *)
theory Net_Types
  imports Prelude
begin

text \<open>
  The shared data of the daemon: \<^verbatim>\<open>common/types.hpp\<close> (path states, thresholds, the
  configuration of a path class) and \<^verbatim>\<open>common/error.hpp\<close> (one error enumeration per
  module, with its printable names). Enumerators keep their names; one that two
  enumerations share gets the enumeration's prefix. A C++ \<^verbatim>\<open>int\<close> that is only compared or
  copied is an \<open>int\<close>; \<^verbatim>\<open>uint32_t\<close> and \<^verbatim>\<open>uint64_t\<close> are words.
\<close>

type_synonym u16 = "16 word"
type_synonym u32 = "32 word"
type_synonym u64 = "64 word"

subsection \<open>Path states\<close>

datatype PathState = Idle | Scanning | Connecting | PathUp | PathDegraded | PathDown

fun PathState_toString :: "PathState \<Rightarrow> string" where
  "PathState_toString Idle = ''Idle''"
| "PathState_toString Scanning = ''Scanning''"
| "PathState_toString Connecting = ''Connecting''"
| "PathState_toString PathUp = ''PathUp''"
| "PathState_toString PathDegraded = ''PathDegraded''"
| "PathState_toString PathDown = ''PathDown''"

text \<open>\<^verbatim>\<open>static_cast<uint32_t>\<close> of the enumeration and its reading on the other side.\<close>

fun PathState_code :: "PathState \<Rightarrow> u32" where
  "PathState_code Idle = 0"
| "PathState_code Scanning = 1"
| "PathState_code Connecting = 2"
| "PathState_code PathUp = 3"
| "PathState_code PathDegraded = 4"
| "PathState_code PathDown = 5"

definition PathState_of_code :: "u32 \<Rightarrow> PathState option" where
  "PathState_of_code c =
     (if c = 0 then Some Idle else if c = 1 then Some Scanning
      else if c = 2 then Some Connecting else if c = 3 then Some PathUp
      else if c = 4 then Some PathDegraded else if c = 5 then Some PathDown else None)"

lemma PathState_code_roundtrip [simp]: "PathState_of_code (PathState_code s) = Some s"
  by (cases s) (simp_all add: PathState_of_code_def)

lemma PathState_code_eq [simp]: "PathState_code s = PathState_code t \<longleftrightarrow> s = t"
  using PathState_code_roundtrip[of s] PathState_code_roundtrip[of t]
  by (metis option.inject)

text \<open>The states are ordered by their codes, and there are finitely many of them.\<close>

instantiation PathState :: linorder
begin

definition less_eq_PathState :: "PathState \<Rightarrow> PathState \<Rightarrow> bool" where
  "less_eq_PathState s t \<longleftrightarrow> PathState_code s \<le> PathState_code t"

definition less_PathState :: "PathState \<Rightarrow> PathState \<Rightarrow> bool" where
  "less_PathState s t \<longleftrightarrow> PathState_code s < PathState_code t"

instance
proof
  fix s t u :: PathState
  show "(s < t) = (s \<le> t \<and> \<not> t \<le> s)"
    by (simp add: less_eq_PathState_def less_PathState_def less_le_not_le)
  show "s \<le> s"
    by (simp add: less_eq_PathState_def)
  show "s \<le> u" if "s \<le> t" "t \<le> u"
    using that by (simp add: less_eq_PathState_def)
  show "s = t" if "s \<le> t" "t \<le> s"
    using that by (simp add: less_eq_PathState_def order_antisym flip: PathState_code_eq)
  show "s \<le> t \<or> t \<le> s"
    by (auto simp: less_eq_PathState_def)
qed

end

instantiation PathState :: enum
begin

definition enum_PathState :: "PathState list" where
  "enum_PathState = [Idle, Scanning, Connecting, PathUp, PathDegraded, PathDown]"

definition enum_all_PathState :: "(PathState \<Rightarrow> bool) \<Rightarrow> bool" where
  "enum_all_PathState P \<longleftrightarrow>
     P Idle \<and> P Scanning \<and> P Connecting \<and> P PathUp \<and> P PathDegraded \<and> P PathDown"

definition enum_ex_PathState :: "(PathState \<Rightarrow> bool) \<Rightarrow> bool" where
  "enum_ex_PathState P \<longleftrightarrow>
     P Idle \<or> P Scanning \<or> P Connecting \<or> P PathUp \<or> P PathDegraded \<or> P PathDown"

lemma enum_PathState_mem: "(s :: PathState) \<in> set enum_class.enum"
  by (cases s) (simp_all add: enum_PathState_def)

lemma enum_all_PathState_iff: "enum_class.enum_all P \<longleftrightarrow> (\<forall>s :: PathState. P s)"
proof
  assume P: "enum_class.enum_all P"
  have "P s" for s
    using P by (cases s) (simp_all add: enum_all_PathState_def)
  then show "\<forall>s. P s" ..
qed (simp add: enum_all_PathState_def)

lemma enum_ex_PathState_iff: "enum_class.enum_ex P \<longleftrightarrow> (\<exists>s :: PathState. P s)"
proof
  assume "\<exists>s. P s"
  then obtain s where "P s" ..
  then show "enum_class.enum_ex P"
    by (cases s) (simp_all add: enum_ex_PathState_def)
qed (auto simp: enum_ex_PathState_def)

instance
proof
  show "(UNIV :: PathState set) = set enum_class.enum"
    using enum_PathState_mem by blast
  show "distinct (enum_class.enum :: PathState list)"
    by (simp add: enum_PathState_def)
  show "enum_class.enum_all P \<longleftrightarrow> Ball UNIV P" for P :: "PathState \<Rightarrow> bool"
    by (simp add: enum_all_PathState_iff)
  show "enum_class.enum_ex P \<longleftrightarrow> Bex UNIV P" for P :: "PathState \<Rightarrow> bool"
    by (simp add: enum_ex_PathState_iff)
qed

end

text \<open>What consumers are told of a path, in the header's own types; the wire format carries the
  state instead.\<close>

datatype PathEventKind = EventPathUp | EventPathDegraded | EventPathDown

record PathInfo =
  info_event :: PathEventKind
  info_iface :: string
  info_rssiDbm :: int
  info_estBandwidthKbps :: u32

definition default_info :: PathInfo where
  "default_info =
     \<lparr>info_event = EventPathUp, info_iface = [], info_rssiDbm = 0, info_estBandwidthKbps = 0\<rparr>"

definition kInvalidHandle :: u64 where
  "kInvalidHandle = 0"

subsection \<open>Thresholds and path classes\<close>

record RssiThresholds =
  connectMin :: int
  warn :: int
  drop_at :: int

text \<open>The default member initialisers of the struct.\<close>

definition default_rssi :: RssiThresholds where
  "default_rssi = \<lparr>connectMin = -70, warn = -75, drop_at = -85\<rparr>"

record PathClassConfig =
  cls_id :: string
  classid :: u32
  cgroupPath :: string
  interfaces :: "string list"
  mptcpEnabled :: bool
  routingTable :: u32
  mark :: u32
  strictIsolation :: bool
  rssi_cfg :: RssiThresholds

definition empty_config :: PathClassConfig where
  "empty_config = \<lparr>cls_id = [], classid = 0, cgroupPath = [], interfaces = [],
     mptcpEnabled = False, routingTable = 0, mark = 0, strictIsolation = False,
     rssi_cfg = default_rssi\<rparr>"

subsection \<open>Errors\<close>

datatype ConfigError = FileNotFound | ParseError | InvalidSchema | MissingField | InvalidValue

fun ConfigError_toString :: "ConfigError \<Rightarrow> string" where
  "ConfigError_toString FileNotFound = ''FileNotFound''"
| "ConfigError_toString ParseError = ''ParseError''"
| "ConfigError_toString InvalidSchema = ''InvalidSchema''"
| "ConfigError_toString MissingField = ''MissingField''"
| "ConfigError_toString InvalidValue = ''InvalidValue''"

datatype RoutingError = CgroupCreateFailed | CgroupWriteFailed | IptablesError
  | NetlinkError | AlreadyExists | NotFound

fun RoutingError_toString :: "RoutingError \<Rightarrow> string" where
  "RoutingError_toString CgroupCreateFailed = ''CgroupCreateFailed''"
| "RoutingError_toString CgroupWriteFailed = ''CgroupWriteFailed''"
| "RoutingError_toString IptablesError = ''IptablesError''"
| "RoutingError_toString NetlinkError = ''NetlinkError''"
| "RoutingError_toString AlreadyExists = ''AlreadyExists''"
| "RoutingError_toString NotFound = ''NotFound''"

datatype MptcpError = MptcpNetlinkError | EndpointNotFound | UnsupportedKernel

fun MptcpError_toString :: "MptcpError \<Rightarrow> string" where
  "MptcpError_toString MptcpNetlinkError = ''NetlinkError''"
| "MptcpError_toString EndpointNotFound = ''EndpointNotFound''"
| "MptcpError_toString UnsupportedKernel = ''UnsupportedKernel''"

datatype WpaError = ConnectFailed | AttachFailed | RecvError | Timeout

fun WpaError_toString :: "WpaError \<Rightarrow> string" where
  "WpaError_toString ConnectFailed = ''ConnectFailed''"
| "WpaError_toString AttachFailed = ''AttachFailed''"
| "WpaError_toString RecvError = ''RecvError''"
| "WpaError_toString Timeout = ''Timeout''"

datatype ApiError = SocketError | InvalidMessage | UnknownClassId | RegistrationFailed

fun ApiError_toString :: "ApiError \<Rightarrow> string" where
  "ApiError_toString SocketError = ''SocketError''"
| "ApiError_toString InvalidMessage = ''InvalidMessage''"
| "ApiError_toString UnknownClassId = ''UnknownClassId''"
| "ApiError_toString RegistrationFailed = ''RegistrationFailed''"

fun ApiError_code :: "ApiError \<Rightarrow> u32" where
  "ApiError_code SocketError = 0"
| "ApiError_code InvalidMessage = 1"
| "ApiError_code UnknownClassId = 2"
| "ApiError_code RegistrationFailed = 3"

lemma PathState_toString_inj: "PathState_toString s = PathState_toString t \<longleftrightarrow> s = t"
  by (cases s; cases t) simp_all

lemma ConfigError_toString_inj: "ConfigError_toString c = ConfigError_toString d \<longleftrightarrow> c = d"
  by (cases c; cases d) simp_all

lemma RoutingError_toString_inj: "RoutingError_toString c = RoutingError_toString d \<longleftrightarrow> c = d"
  by (cases c; cases d) simp_all

lemma MptcpError_toString_inj: "MptcpError_toString c = MptcpError_toString d \<longleftrightarrow> c = d"
  by (cases c; cases d) simp_all

lemma WpaError_toString_inj: "WpaError_toString c = WpaError_toString d \<longleftrightarrow> c = d"
  by (cases c; cases d) simp_all

lemma ApiError_toString_inj: "ApiError_toString c = ApiError_toString d \<longleftrightarrow> c = d"
  by (cases c; cases d) simp_all

end
