(* ===== verification/Syscalls.thy ===== *)
theory Syscalls
  imports Net_Types
begin

text \<open>
  The calls the daemon makes to code outside its repository: the kernel through libc,
  libmnl and libiptc, the files behind C++ streams, and what a thread shares with others. Nothing is assumed of them: the
  environment answers each call as it likes, and a component reads of the answer what the
  source reads. An answer carries the return value (\<open>rc\<close>; for a pointer 0 is the null
  pointer, for an \<^verbatim>\<open>std::error_code\<close> 0 is no error, for a stream test 0 is failure), the
  \<^verbatim>\<open>errno\<close> left behind, and the data delivered, if the call delivers any.

  Constants of the kernel headers stay symbolic. Logging is not a call.
\<close>

subsection \<open>Netlink messages\<close>

datatype nl_type = RTM_NEWRULE | RTM_DELRULE | RTM_NEWROUTE | RTM_DELROUTE
  | GENL_ID_CTRL | GenlFamily u16

datatype nl_flag = NLM_F_REQUEST | NLM_F_ACK | NLM_F_CREATE | NLM_F_EXCL | NLM_F_REPLACE

datatype rt_const = AF_INET | RT_TABLE_UNSPEC | RTPROT_BOOT | RTPROT_STATIC
  | RT_SCOPE_UNIVERSE | RTN_UNICAST

record rtmsg =
  rtm_family :: rt_const
  rtm_dst_len :: nat
  rtm_src_len :: nat
  rtm_tos :: nat
  rtm_table :: rt_const
  rtm_protocol :: rt_const
  rtm_scope :: rt_const
  rtm_type :: rt_const
  rtm_flags :: nat

datatype genl_cmd = CTRL_CMD_GETFAMILY | MPTCP_PM_CMD_ADD_ADDR | MPTCP_PM_CMD_DEL_ADDR
  | MPTCP_PM_CMD_FLUSH_ADDRS

datatype nl_header = Rtmsg rtmsg | Genlmsg genl_cmd

datatype nl_attr = FRA_FWMARK u32 | FRA_TABLE u32 | FRA_PRIORITY u32
  | RTA_GATEWAY u32 | RTA_OIF u32 | RTA_TABLE u32
  | CTRL_ATTR_FAMILY_NAME string
  | MPTCP_PM_ATTR_ADDR "nl_attr list"
  | MPTCP_PM_ADDR_ATTR_FAMILY rt_const | MPTCP_PM_ADDR_ATTR_ADDR4 u32
  | MPTCP_PM_ADDR_FLAG_SUBFLOW_ATTR | MPTCP_PM_ADDR_ATTR_IF_IDX u32

record nlmsg =
  nlmsg_type :: nl_type
  nlmsg_flags :: "nl_flag set"
  nlmsg_seq :: u32
  nlmsg_hdr :: nl_header
  nlmsg_attrs :: "nl_attr list"

datatype nl_proto = NETLINK_ROUTE | NETLINK_GENERIC

subsection \<open>Firewall entries\<close>

text \<open>
  The entry buffers of \<^verbatim>\<open>ip_tables.h\<close> and \<^verbatim>\<open>x_tables.h\<close>, field by field as the builders
  fill them; a field that is left zeroed is not listed.
\<close>

datatype match_data =
    CgroupInfoV2 (has_classid: bool) (has_path: bool) (invert_classid: bool)
      (invert_path: bool) (cg_classid: u32)
  | MarkMtinfo1 (mt_mark: u32) (mt_mask: u32) (mt_invert: bool)

datatype target_data = MarkTginfo2 (tg_mark: u32) (tg_mask: u32) | Verdict int

record xt_match =
  match_name :: string
  match_revision :: nat
  match_size :: u16
  match_info :: match_data

record xt_target =
  target_name :: string
  target_revision :: nat
  target_size :: u16
  target_info :: target_data

record ipt_entry =
  outiface :: string
  outiface_mask :: "bool list"
  ent_match :: "xt_match option"
  ent_target :: xt_target
  target_offset :: u16
  next_offset :: u16

subsection \<open>Calls and answers\<close>

datatype epoll_flag = EPOLLIN | EPOLLHUP | EPOLLERR | EPOLLRDHUP

datatype errno = EEXIST | ENOENT | EAGAIN | EWOULDBLOCK | EINTR | EPIPE | EBUSY | EADDRINUSE
  | EOTHER nat

datatype file_call = ReadFile string | OpenTrunc string | OpenAppend string
  | StreamPut string string | CloseStream string | Canonical string
  | CreateDirectories string | PathExists string | RemovePath string
  | Mkdir string | Unlink string | Chmod string

datatype nl_call = NlOpen nl_proto | NlBind | NlPortid | TimeNow | NlSend nlmsg | NlRecv
  | NlCbRun nat u32 u32 | NlClose | IfNameToIndex string | GetIfAddrs

datatype ipt_call = IptcInit string | IptcFree | IptcIsChain string | IptcFlush string
  | IptcCreateChain string | IptcDeleteChain string | IptcTargets string
  | IptcAppend string ipt_entry | IptcDeleteNum string nat | IptcCommit

datatype sock_call = SockSend int string | SockRecv int nat | CloseFd int
  | Accept4 int | EpollAdd int int | EpollDel int int | EpollWait int
  | SocketUnix | BindUnix int string | ListenFd int | EpollCreate | EventFd | WakeFd int
  | RecvTimeout int nat

text \<open>The control client's own calls; the static counter of \<^verbatim>\<open>wpa_ctrl_open2\<close> is here because all
  threads share it without a lock, so another one may change it at any moment.\<close>

datatype ctrl_call = Zalloc | FreeMem | DgramSocket | IncCounter | ReadCounter | GetPid
  | ConnectUnix int string | FcntlGetFl int | FcntlSetFl int int
  | CtlSend int string | CtlRecv int nat | SelectRead int nat | GetTimeOfDay | SleepFor nat
  | PollIn int nat

text \<open>The calls of the control client's other variants: UDP, named pipes, Android.\<close>

datatype sock_host = AnyHost | LoopbackHost | HostAddr string

record sockaddr_in =
  sin_host :: sock_host
  sin_port :: u16
  sin_scope :: u32

datatype alt_call = StrDup string | Malloc nat | InetSocket bool | BindInet int sockaddr_in
  | ConnectInet int sockaddr_in | ScopeOf string | HostByName bool string
  | CreatePipe string | WaitPipe string nat | SetPipeMessages int | ClosePipe int
  | WritePipe int string | ReadPipe int nat | PeekPipe int
  | OpenDir string | NextEntry | CloseDir | ChangeOwner string bool | ReservedConnect int string

text \<open>The calls of the download demonstration beside those for its sockets.\<close>

datatype app_call = MptcpSocket | TcpSocket | ParseIp string | ConnectIp int string u16
  | OpenOut string | WriteFd int string | OpenIn string | ReadFd int nat

text \<open>The atomic stop flag that a thread shares with the one that stops it, and the wait for it.\<close>

datatype flag_call = LoadStop | StoreStop bool | NotifyAll | WaitStop nat

datatype call = File file_call | Nl nl_call | Ipt ipt_call | Sock sock_call
  | Ctl ctrl_call | Flag flag_call | Alt alt_call | App app_call

record answer =
  rc :: int
  err :: errno
  content :: string
  targets :: "string list"
  ready :: "(int \<times> epoll_flag list) list"
  attrs :: "(nat \<times> nat) list list"
  ifaddrs :: "(string \<times> bool \<times> u32) list"
  clock :: "int \<times> int"

type_synonym env = "call list \<Rightarrow> call \<Rightarrow> answer"
type_synonym 'a os = "(call, 'a) prog"

text \<open>The answer with no data, for concrete environments.\<close>

definition reply :: "int \<Rightarrow> errno \<Rightarrow> answer" where
  "reply r e = \<lparr>rc = r, err = e, content = [], targets = [], ready = [], attrs = [],
     ifaddrs = [], clock = (0, 0)\<rparr>"

lemma reply_sel [simp]:
  "rc (reply r e) = r" "err (reply r e) = e" "content (reply r e) = []"
  "targets (reply r e) = []" "ready (reply r e) = []" "attrs (reply r e) = []"
  "ifaddrs (reply r e) = []" "clock (reply r e) = (0, 0)"
  by (simp_all add: reply_def)

end
