(* ===== verification/Number_Text.thy ===== *)
theory Number_Text
  imports Net_Types
begin

text \<open>
  Text to number and back: the standard-library conversions the daemon uses.
  \<^verbatim>\<open>std::stoul(s, nullptr, base)\<close> reads configuration fields (base 0) and gateways (base 16);
  \<^verbatim>\<open>ifs >> std::hex\<close> reads the class id file back; \<^verbatim>\<open>std::format("0x{:08x}", ..)\<close> writes it;
  \<^verbatim>\<open>std::from_chars\<close> reads RSSI fields. The width of \<^verbatim>\<open>unsigned long\<close> is the parameter \<open>ulong_bits\<close>:
  32 on the 32-bit Raspberry Pi image, 64 on a 64-bit host.
\<close>

subsection \<open>Digits\<close>

lemma unat32_bound: "unat (w :: u32) < 2 ^ 32"
  using unsigned_less[of w] by simp

definition is_space :: "char \<Rightarrow> bool" where
  "is_space c \<longleftrightarrow> of_char c \<in> {9, 10, 11, 12, 13, 32 :: nat}"

definition digit_val :: "char \<Rightarrow> nat option" where
  "digit_val c = (let n = of_char c :: nat in
     if 48 \<le> n \<and> n \<le> 57 then Some (n - 48)
     else if 97 \<le> n \<and> n \<le> 122 then Some (n - 87)
     else if 65 \<le> n \<and> n \<le> 90 then Some (n - 55)
     else None)"

definition is_digit :: "nat \<Rightarrow> char \<Rightarrow> bool" where
  "is_digit base c \<longleftrightarrow> (case digit_val c of None \<Rightarrow> False | Some d \<Rightarrow> d < base)"

fun digits_value :: "nat \<Rightarrow> nat \<Rightarrow> string \<Rightarrow> nat" where
  "digits_value base acc [] = acc"
| "digits_value base acc (c # cs) =
     (case digit_val c of
        None \<Rightarrow> acc
      | Some d \<Rightarrow> if d < base then digits_value base (acc * base + d) cs else acc)"

definition hex_char :: "nat \<Rightarrow> char" where
  "hex_char d = char_of (if d < 10 then d + 48 else d + 87)"

fun nat_text :: "nat \<Rightarrow> nat \<Rightarrow> string" where
  "nat_text base n =
     (if n < base \<or> base < 2 then [hex_char n]
      else nat_text base (n div base) @ [hex_char (n mod base)])"

declare nat_text.simps [simp del]

lemma digit_val_hex_char: "d < 16 \<Longrightarrow> digit_val (hex_char d) = Some d"
  by (auto simp: digit_val_def hex_char_def Let_def)

lemma digits_value_append:
  "list_all (is_digit base) ds \<Longrightarrow>
     digits_value base acc (ds @ rest) = digits_value base (digits_value base acc ds) rest"
  by (induction ds arbitrary: acc) (auto simp: is_digit_def split: option.splits)

lemma digits_value_stop:
  "list_all (is_digit base) ds \<Longrightarrow> (rest \<noteq> [] \<longrightarrow> \<not> is_digit base (hd rest)) \<Longrightarrow>
     digits_value base acc (ds @ rest) = digits_value base acc ds"
  by (cases rest) (auto simp: digits_value_append is_digit_def split: option.splits)

lemma is_digit_hex_char: "d < base \<Longrightarrow> base \<le> 16 \<Longrightarrow> is_digit base (hex_char d)"
  by (simp add: is_digit_def digit_val_hex_char)

lemma nat_text_digits:
  "2 \<le> base \<Longrightarrow> base \<le> 16 \<Longrightarrow> list_all (is_digit base) (nat_text base n)"
proof (induction base n rule: nat_text.induct)
  case (1 base n)
  show ?case
  proof (cases "n < base")
    case True
    with "1.prems" show ?thesis
      by (subst nat_text.simps) (simp add: is_digit_hex_char)
  next
    case False
    with "1" have "list_all (is_digit base) (nat_text base (n div base))" by simp
    moreover have "is_digit base (hex_char (n mod base))"
      using "1.prems" by (simp add: is_digit_hex_char)
    ultimately show ?thesis
      using False "1.prems" by (subst nat_text.simps) simp
  qed
qed

lemma digits_value_nat_text:
  "2 \<le> base \<Longrightarrow> base \<le> 16 \<Longrightarrow> digits_value base 0 (nat_text base n) = n"
proof (induction base n rule: nat_text.induct)
  case (1 base n)
  show ?case
  proof (cases "n < base")
    case True
    with "1.prems" show ?thesis
      by (subst nat_text.simps) (simp add: digit_val_hex_char)
  next
    case False
    with "1" have IH: "digits_value base 0 (nat_text base (n div base)) = n div base"
      by simp
    have d: "n mod base < base" using "1.prems" by simp
    then have "n mod base < 16" using "1.prems" by linarith
    then have v: "digit_val (hex_char (n mod base)) = Some (n mod base)"
      by (rule digit_val_hex_char)
    show ?thesis
      using False "1.prems" IH v d
      by (subst nat_text.simps) (simp add: digits_value_append nat_text_digits)
  qed
qed

lemma digits_value_zeros:
  "0 < base \<Longrightarrow> digits_value base 0 (replicate k (CHR ''0'') @ ds) = digits_value base 0 ds"
  by (induction k) (simp_all add: digit_val_def)

lemma nat_text_nonempty [simp]: "nat_text base n \<noteq> []"
  by (subst nat_text.simps) simp

subsection \<open>std::stoul\<close>

datatype stoul_error = InvalidArgument | OutOfRange

text \<open>
  Skip white space, take one sign, find the base, convert the longest run of digits and
  ignore what follows it. No digit at all is \<^verbatim>\<open>std::invalid_argument\<close>; a value that does not
  fit \<^verbatim>\<open>unsigned long\<close> is \<^verbatim>\<open>std::out_of_range\<close>; a minus sign negates modulo the width.
\<close>

definition sign_split :: "string \<Rightarrow> bool \<times> string" where
  "sign_split s = (case s of
       [] \<Rightarrow> (False, [])
     | c # cs \<Rightarrow> if c = CHR ''-'' then (True, cs)
                 else if c = CHR ''+'' then (False, cs) else (False, s))"

definition has_hex_prefix :: "string \<Rightarrow> bool" where
  "has_hex_prefix s \<longleftrightarrow>
     (case s of z # x # d # _ \<Rightarrow>
        z = CHR ''0'' \<and> (x = CHR ''x'' \<or> x = CHR ''X'') \<and> is_digit 16 d
      | _ \<Rightarrow> False)"

definition base_split :: "nat \<Rightarrow> string \<Rightarrow> nat \<times> string" where
  "base_split base s =
     (if (base = 0 \<or> base = 16) \<and> has_hex_prefix s then (16, drop 2 s)
      else if base = 0 then (if s \<noteq> [] \<and> hd s = CHR ''0'' then 8 else 10, s)
      else (base, s))"

definition stoul :: "nat \<Rightarrow> string \<Rightarrow> nat \<Rightarrow> stoul_error + nat" where
  "stoul ulong_bits s base =
     (let (neg, s1) = sign_split (dropWhile is_space s);
          (b, ds) = base_split base s1;
          v = digits_value b 0 ds
      in if ds = [] \<or> \<not> is_digit b (hd ds) then Inl InvalidArgument
         else if v \<ge> 2 ^ ulong_bits then Inl OutOfRange
         else Inr (if neg then (2 ^ ulong_bits - v) mod 2 ^ ulong_bits else v))"

lemma stoul_bound: "stoul L s base = Inr v \<Longrightarrow> v < 2 ^ L"
  by (auto simp: stoul_def Let_def split: prod.splits if_splits)

text \<open>\<^verbatim>\<open>std::format("0x{:08x}", w)\<close>\<close>

definition format_hex08 :: "u32 \<Rightarrow> string" where
  "format_hex08 w =
     (let ds = nat_text 16 (unat w) in ''0x'' @ replicate (8 - length ds) (CHR ''0'') @ ds)"

lemma is_digit_zero [simp]: "0 < base \<Longrightarrow> is_digit base (CHR ''0'')"
  by (simp add: is_digit_def digit_val_def)

lemma is_digit_hd_hex:
  "is_digit 16 (hd (replicate k (CHR ''0'') @ nat_text 16 n))"
proof (cases k)
  case 0
  have "list_all (is_digit 16) (nat_text 16 n)" by (simp add: nat_text_digits)
  with 0 show ?thesis by (cases "nat_text 16 n") simp_all
qed simp

lemma format_hex08_shape:
  obtains c cs where "format_hex08 w = CHR ''0'' # CHR ''x'' # c # cs" and "is_digit 16 c"
    and "list_all (is_digit 16) (c # cs)" and "digits_value 16 0 (c # cs) = unat w"
proof -
  let ?ds = "nat_text 16 (unat w)"
  let ?t = "replicate (8 - length ?ds) (CHR ''0'') @ ?ds"
  have all: "list_all (is_digit 16) ?t"
    using nat_text_digits[of 16 "unat w"] by (auto simp: list_all_iff)
  have val: "digits_value 16 0 ?t = unat w"
    by (simp add: digits_value_zeros digits_value_nat_text)
  obtain c cs where t: "?t = c # cs"
    by (cases ?t) simp_all
  show thesis
  proof (rule that)
    show "format_hex08 w = CHR ''0'' # CHR ''x'' # c # cs"
      using t by (simp add: format_hex08_def Let_def)
    show "is_digit 16 c" "list_all (is_digit 16) (c # cs)" "digits_value 16 0 (c # cs) = unat w"
      using all val t by simp_all
  qed
qed


subsection \<open>Reading back: istream and from_chars\<close>

text \<open>
  \<^verbatim>\<open>uint32_t existing{}; ifs >> std::hex >> existing\<close>: no digits leaves 0, overflow stores
  the largest value, and the base prefix is optional.
\<close>

definition read_hex32 :: "string \<Rightarrow> u32" where
  "read_hex32 s =
     (let (neg, s1) = sign_split (dropWhile is_space s);
          ds = (if has_hex_prefix s1 then drop 2 s1 else s1);
          v = digits_value 16 0 ds
      in if ds = [] \<or> \<not> is_digit 16 (hd ds) then 0
         else if v \<ge> 2 ^ 32 then 2 ^ 32 - 1
         else if neg then - of_nat v else of_nat v)"

text \<open>
  \<^verbatim>\<open>int value{0}; std::from_chars(first, last, value)\<close>: a minus sign but no plus sign and no
  white space; on no digits or on overflow the value keeps what it held.
\<close>

definition from_chars_int :: "string \<Rightarrow> int" where
  "from_chars_int s =
     (let neg = (s \<noteq> [] \<and> hd s = CHR ''-'');
          ds = (if neg then tl s else s);
          v = int (digits_value 10 0 ds);
          i = (if neg then - v else v)
      in if ds = [] \<or> \<not> is_digit 10 (hd ds) then 0
         else if - (2 ^ 31) \<le> i \<and> i < 2 ^ 31 then i else 0)"

definition int_text :: "int \<Rightarrow> string" where
  "int_text i =
     (if i < 0 then CHR ''-'' # nat_text 10 (nat (- i)) else nat_text 10 (nat i))"

lemma from_chars_int_range: "- (2 ^ 31) \<le> from_chars_int s \<and> from_chars_int s < 2 ^ 31"
  by (simp add: from_chars_int_def Let_def)

subsection \<open>Printed numbers read back\<close>

text \<open>
  What a writer and a reader of the same field rely on: the reader recovers the number
  from its printed form, alone or in front of text that does not go on with a digit.
\<close>

locale printed_number =
  fixes print :: "'a \<Rightarrow> string"
    and parse :: "string \<Rightarrow> 'b"
    and value_of :: "'a \<Rightarrow> 'b"
    and printable :: "'a \<Rightarrow> bool"
    and stops :: "string \<Rightarrow> bool"
  assumes parse_print: "printable v \<Longrightarrow> stops rest \<Longrightarrow> parse (print v @ rest) = value_of v"
    and stops_Nil: "stops []"
    and value_of_inj: "printable v \<Longrightarrow> printable w \<Longrightarrow> value_of v = value_of w \<Longrightarrow> v = w"
begin

lemma parse_print_alone: "printable v \<Longrightarrow> parse (print v) = value_of v"
  using parse_print [OF _ stops_Nil] by simp

lemma print_inj: "printable v \<Longrightarrow> printable w \<Longrightarrow> print v = print w \<Longrightarrow> v = w"
  by (metis parse_print_alone value_of_inj)

end

definition no_digit_next :: "nat \<Rightarrow> string \<Rightarrow> bool" where
  "no_digit_next base rest \<longleftrightarrow> (rest \<noteq> [] \<longrightarrow> \<not> is_digit base (hd rest))"

lemma no_digit_next_Nil [simp]: "no_digit_next base []"
  by (simp add: no_digit_next_def)

lemma stoul_format_hex08:
  assumes "32 \<le> L" and "no_digit_next 16 rest"
  shows "stoul L (format_hex08 w @ rest) 0 = Inr (unat w)"
proof -
  obtain c cs where f: "format_hex08 w = CHR ''0'' # CHR ''x'' # c # cs" and c: "is_digit 16 c"
    and all: "list_all (is_digit 16) (c # cs)" and val: "digits_value 16 0 (c # cs) = unat w"
    by (rule format_hex08_shape)
  have "unat w < 2 ^ 32" by (rule unat32_bound)
  also have "(2::nat) ^ 32 \<le> 2 ^ L" using assms(1) by (rule power_increasing) simp
  finally have small: "unat w < 2 ^ L" .
  have v: "digits_value 16 0 (c # cs @ rest) = unat w"
    using digits_value_stop[OF all, of rest 0] assms(2) val
    by (simp add: no_digit_next_def del: digits_value.simps)
  show ?thesis
    using c small v
    by (simp add: f stoul_def is_space_def sign_split_def base_split_def has_hex_prefix_def
        del: digits_value.simps)
qed

lemma read_hex32_format_hex08:
  assumes "no_digit_next 16 rest"
  shows "read_hex32 (format_hex08 w @ rest) = w"
proof -
  obtain c cs where f: "format_hex08 w = CHR ''0'' # CHR ''x'' # c # cs" and c: "is_digit 16 c"
    and all: "list_all (is_digit 16) (c # cs)" and val: "digits_value 16 0 (c # cs) = unat w"
    by (rule format_hex08_shape)
  have v: "digits_value 16 0 (c # cs @ rest) = unat w"
    using digits_value_stop[OF all, of rest 0] assms val
    by (simp add: no_digit_next_def del: digits_value.simps)
  have "unat w < 2 ^ 32" by (rule unat32_bound)
  with c v show ?thesis
    by (simp add: f read_hex32_def is_space_def sign_split_def has_hex_prefix_def
        del: digits_value.simps)
qed

lemma from_chars_int_text:
  assumes "- (2 ^ 31) \<le> i \<and> i < 2 ^ 31" and "no_digit_next 10 rest"
  shows "from_chars_int (int_text i @ rest) = i"
proof -
  have all: "list_all (is_digit 10) (nat_text 10 n)" for n by (simp add: nat_text_digits)
  have v: "digits_value 10 0 (nat_text 10 n @ rest) = n" for n
    using digits_value_stop[OF all, of rest 0 n] assms(2)
    by (simp add: no_digit_next_def digits_value_nat_text)
  have hd_digit: "is_digit 10 (hd (nat_text 10 n))" for n
    using all[of n] by (cases "nat_text 10 n") simp_all
  have hd_minus: "hd (nat_text 10 n) \<noteq> CHR ''-''" for n
    using hd_digit[of n] by (auto simp: is_digit_def digit_val_def)
  show ?thesis
    using assms(1) v hd_digit hd_minus
    by (simp add: from_chars_int_def int_text_def)
qed

interpretation stoul_field: printed_number format_hex08 "\<lambda>s. stoul (32 + k) s 0"
  "\<lambda>w. Inr (unat w)" "\<lambda>_. True" "no_digit_next 16" for k
  by unfold_locales (simp_all add: stoul_format_hex08 word_unat_eq_iff)

interpretation classid_file: printed_number format_hex08 read_hex32 "\<lambda>w. w" "\<lambda>_. True"
  "no_digit_next 16"
  by unfold_locales (simp_all add: read_hex32_format_hex08)

interpretation rssi_field: printed_number int_text from_chars_int "\<lambda>i. i"
  "\<lambda>i. - (2 ^ 31) \<le> i \<and> i < 2 ^ 31" "no_digit_next 10"
  by unfold_locales (simp_all add: from_chars_int_text)

subsection \<open>Bytes of words\<close>

text \<open>The memory of an integer on the little-endian target.\<close>

fun le_bytes :: "nat \<Rightarrow> nat \<Rightarrow> string" where
  "le_bytes 0 k = []"
| "le_bytes (Suc n) k = char_of (k mod 256) # le_bytes n (k div 256)"

fun le_value :: "string \<Rightarrow> nat" where
  "le_value [] = 0"
| "le_value (c # cs) = of_char c + 256 * le_value cs"

definition u32_bytes :: "u32 \<Rightarrow> string" where "u32_bytes w = le_bytes 4 (unat w)"

definition u32_of_bytes :: "string \<Rightarrow> u32" where "u32_of_bytes s = of_nat (le_value s)"

definition u64_bytes :: "u64 \<Rightarrow> string" where "u64_bytes w = le_bytes 8 (unat w)"

definition u64_of_bytes :: "string \<Rightarrow> u64" where "u64_of_bytes s = of_nat (le_value s)"

lemma length_le_bytes [simp]: "length (le_bytes n k) = n"
  by (induction n arbitrary: k) simp_all

lemma le_bytes_Nil [simp]: "le_bytes n k = [] \<longleftrightarrow> n = 0"
  by (cases n) simp_all

lemma le_value_le_bytes: "le_value (le_bytes n k) = k mod 256 ^ n"
  by (induction n arbitrary: k) (simp_all add: mod_mult2_eq)

lemma of_char_bound: "(of_char c :: nat) < 256"
  by (rule nat_of_char_less_256)

lemma le_bytes_le_value: "le_bytes (length s) (le_value s) = s"
proof (induction s)
  case (Cons c cs)
  have "(of_char c :: nat) < 256"
    by (rule of_char_bound)
  with Cons show ?case by simp
qed simp

lemma le_value_bound: "le_value s < 256 ^ length s"
proof (induction s)
  case (Cons c cs)
  then have "256 * (le_value cs + 1) \<le> 256 * 256 ^ length cs"
    by (intro mult_le_mono2) simp
  moreover have "(of_char c :: nat) < 256"
    by (rule of_char_bound)
  ultimately show ?case
    by (simp del: nat_of_char_less_256)
qed simp

lemma unat_less_pow: "unat (w :: 'a :: len word) < 2 ^ LENGTH('a)"
  by (rule unsigned_less)

text \<open>A byte range of a larger object.\<close>

definition slice :: "nat \<Rightarrow> nat \<Rightarrow> string \<Rightarrow> string" where
  "slice off n s = take n (drop off s)"

subsection \<open>Field codecs\<close>

text \<open>A fixed-width field: encoding has the width and is a bijection onto the byte strings of
  that width.\<close>

locale field_codec =
  fixes enc :: "'a \<Rightarrow> string"
    and dec :: "string \<Rightarrow> 'a"
    and width :: nat
    and valid :: "'a \<Rightarrow> bool"
  assumes enc_length: "valid x \<Longrightarrow> length (enc x) = width"
    and dec_enc: "valid x \<Longrightarrow> dec (enc x) = x"
    and enc_dec: "length s = width \<Longrightarrow> enc (dec s) = s \<and> valid (dec s)"
begin

text \<open>A field that starts at its offset is read back, whatever surrounds it.\<close>

lemma field_at: "valid x \<Longrightarrow> length pre = off \<Longrightarrow> dec (slice off width (pre @ enc x @ post)) = x"
  by (simp add: slice_def enc_length dec_enc)

lemma field_back: "off + width \<le> length s \<Longrightarrow> enc (dec (slice off width s)) = slice off width s"
  by (simp add: slice_def enc_dec)

end

interpretation u32_field: field_codec u32_bytes u32_of_bytes 4 "\<lambda>x. True"
proof
  fix x :: u32 and s :: string
  show "length (u32_bytes x) = 4"
    by (simp add: u32_bytes_def)
  show "u32_of_bytes (u32_bytes x) = x"
    using unat_less_pow[of x] by (simp add: u32_bytes_def u32_of_bytes_def le_value_le_bytes)
  assume s: "length s = 4"
  with le_value_bound[of s] have "le_value s < 2 ^ 32" by simp
  then have "unat (of_nat (le_value s) :: u32) = le_value s"
    by (simp add: unsigned_of_nat take_bit_nat_eq_self)
  then show "u32_bytes (u32_of_bytes s) = s \<and> True"
    using le_bytes_le_value[of s] s by (simp add: u32_bytes_def u32_of_bytes_def)
qed

interpretation u64_field: field_codec u64_bytes u64_of_bytes 8 "\<lambda>x. True"
proof
  fix x :: u64 and s :: string
  show "length (u64_bytes x) = 8"
    by (simp add: u64_bytes_def)
  show "u64_of_bytes (u64_bytes x) = x"
    using unat_less_pow[of x] by (simp add: u64_bytes_def u64_of_bytes_def le_value_le_bytes)
  assume s: "length s = 8"
  with le_value_bound[of s] have "le_value s < 2 ^ 64" by simp
  then have "unat (of_nat (le_value s) :: u64) = le_value s"
    by (simp add: unsigned_of_nat take_bit_nat_eq_self)
  then show "u64_bytes (u64_of_bytes s) = s \<and> True"
    using le_bytes_le_value[of s] s by (simp add: u64_bytes_def u64_of_bytes_def)
qed

end
