(* ===== verification/Config_Loader.thy ===== *)
theory Config_Loader
  imports Syscalls Number_Text
begin

text \<open>
  \<^verbatim>\<open>config/config_loader.cpp\<close>: reading and validating \<^verbatim>\<open>path-policies.json\<close>.

  The JSON library is not part of the repository. Its documents are an abstract type \<open>'j\<close>
  with the accessors the loader calls, collected in the record \<open>json_api\<close>; \<open>get_int\<close> returns
  the C++ \<^verbatim>\<open>int\<close> of \<^verbatim>\<open>get<int>()\<close>, whatever integer the document holds. \<open>json_parse\<close> is
  \<^verbatim>\<open>json::parse\<close>, with \<open>None\<close> for a \<^verbatim>\<open>parse_error\<close>. The lemmas hold for every such library;
  the round trip at the end uses the tree of JSON values as the library.
\<close>

record 'j json_api =
  json_contains :: "'j \<Rightarrow> string \<Rightarrow> bool"
  json_at :: "'j \<Rightarrow> string \<Rightarrow> 'j"
  is_string :: "'j \<Rightarrow> bool"
  is_array :: "'j \<Rightarrow> bool"
  is_boolean :: "'j \<Rightarrow> bool"
  is_number_integer :: "'j \<Rightarrow> bool"
  is_object :: "'j \<Rightarrow> bool"
  get_string :: "'j \<Rightarrow> string"
  get_bool :: "'j \<Rightarrow> bool"
  get_int :: "'j \<Rightarrow> u32"
  elements :: "'j \<Rightarrow> 'j list"

text \<open>Continue on success, return the error otherwise.\<close>

definition and_then :: "'e + 'a \<Rightarrow> ('a \<Rightarrow> 'e + 'b) \<Rightarrow> 'e + 'b" where
  "and_then r f = (case r of Inl e \<Rightarrow> Inl e | Inr a \<Rightarrow> f a)"

lemma and_then_simps [simp]: "and_then (Inl e) f = Inl e" "and_then (Inr a) f = f a"
  by (simp_all add: and_then_def)

lemma and_then_Inr: "and_then r f = Inr b \<longleftrightarrow> (\<exists>a. r = Inr a \<and> f a = Inr b)"
  by (cases r) simp_all

lemma and_then_Inl: "and_then r f = Inl e \<longleftrightarrow> r = Inl e \<or> (\<exists>a. r = Inr a \<and> f a = Inl e)"
  by (cases r) simp_all

subsection \<open>Fields\<close>

definition parseHexField :: "'j json_api \<Rightarrow> nat \<Rightarrow> 'j \<Rightarrow> string \<Rightarrow> ConfigError + u32" where
  "parseHexField J ulong_bits j key =
     (if \<not> json_contains J j key then Inl MissingField
      else let val = json_at J j key in
        if \<not> is_string J val then Inl InvalidValue
        else case stoul ulong_bits (get_string J val) 0 of
               Inl InvalidArgument \<Rightarrow> Inl InvalidValue
             | Inl OutOfRange \<Rightarrow> Inl InvalidValue
             | Inr parsed \<Rightarrow> if parsed > 2 ^ 32 - 1 then Inl InvalidValue
                             else Inr (of_nat parsed))"

definition parseRssiThresholds :: "'j json_api \<Rightarrow> 'j \<Rightarrow> RssiThresholds" where
  "parseRssiThresholds J j =
     (let int_at = (\<lambda>key d. if json_contains J j key \<and> is_number_integer J (json_at J j key)
                            then sint (get_int J (json_at J j key)) else d)
      in \<lparr>connectMin = int_at ''connect_min'' (connectMin default_rssi),
          warn = int_at ''warn'' (warn default_rssi),
          drop_at = int_at ''drop'' (drop_at default_rssi)\<rparr>)"

text \<open>A required non-empty string: \<^verbatim>\<open>id\<close> and \<^verbatim>\<open>cgroup_path\<close>.\<close>

definition parse_string_field :: "'j json_api \<Rightarrow> 'j \<Rightarrow> string \<Rightarrow> ConfigError + string" where
  "parse_string_field J j key =
     (if \<not> json_contains J j key \<or> \<not> is_string J (json_at J j key) then Inl MissingField
      else if get_string J (json_at J j key) = [] then Inl InvalidValue
      else Inr (get_string J (json_at J j key)))"

text \<open>A required non-zero hexadecimal field: \<^verbatim>\<open>classid\<close> and \<^verbatim>\<open>mark\<close>.\<close>

definition parse_nonzero_hex :: "'j json_api \<Rightarrow> nat \<Rightarrow> 'j \<Rightarrow> string \<Rightarrow> ConfigError + u32" where
  "parse_nonzero_hex J ulong_bits j key =
     and_then (parseHexField J ulong_bits j key)
       (\<lambda>v. if v = 0 then Inl InvalidValue else Inr v)"

fun parse_interface_list :: "'j json_api \<Rightarrow> 'j list \<Rightarrow> string list \<Rightarrow> ConfigError + string list" where
  "parse_interface_list J [] acc = Inr acc"
| "parse_interface_list J (i # is) acc =
     (if \<not> is_string J i \<or> get_string J i = [] then Inl InvalidValue
      else parse_interface_list J is (acc @ [get_string J i]))"

definition parse_interfaces :: "'j json_api \<Rightarrow> 'j \<Rightarrow> ConfigError + string list" where
  "parse_interfaces J j =
     (if \<not> json_contains J j ''interfaces'' \<or> \<not> is_array J (json_at J j ''interfaces'')
      then Inl MissingField
      else let ifaces = elements J (json_at J j ''interfaces'') in
        if ifaces = [] then Inl InvalidValue else parse_interface_list J ifaces [])"

definition parse_mptcp_enabled :: "'j json_api \<Rightarrow> 'j \<Rightarrow> ConfigError + bool" where
  "parse_mptcp_enabled J j =
     (if \<not> json_contains J j ''mptcp_enabled'' \<or> \<not> is_boolean J (json_at J j ''mptcp_enabled'')
      then Inl MissingField else Inr (get_bool J (json_at J j ''mptcp_enabled'')))"

definition parse_routing_table :: "'j json_api \<Rightarrow> 'j \<Rightarrow> ConfigError + u32" where
  "parse_routing_table J j =
     (if \<not> json_contains J j ''routing_table''
         \<or> \<not> is_number_integer J (json_at J j ''routing_table'') then Inl MissingField
      else let rt = sint (get_int J (json_at J j ''routing_table'')) in
        if rt < 1 \<or> rt > 65534 then Inl InvalidValue else Inr (word_of_int rt))"

definition parse_strict_isolation :: "'j json_api \<Rightarrow> 'j \<Rightarrow> ConfigError + bool" where
  "parse_strict_isolation J j =
     (if json_contains J j ''strict_isolation'' then
        if \<not> is_boolean J (json_at J j ''strict_isolation'') then Inl InvalidValue
        else Inr (get_bool J (json_at J j ''strict_isolation''))
      else Inr False)"

definition parse_rssi :: "'j json_api \<Rightarrow> 'j \<Rightarrow> ConfigError + RssiThresholds" where
  "parse_rssi J j =
     (if json_contains J j ''rssi'' then
        if \<not> is_object J (json_at J j ''rssi'') then Inl InvalidValue
        else let r = parseRssiThresholds J (json_at J j ''rssi'') in
          if warn r \<le> drop_at r then Inl InvalidValue else Inr r
      else Inr default_rssi)"

subsection \<open>A path class and the whole file\<close>

definition parsePathClass :: "'j json_api \<Rightarrow> nat \<Rightarrow> 'j \<Rightarrow> ConfigError + PathClassConfig" where
  "parsePathClass J ulong_bits j =
     and_then (parse_string_field J j ''id'') (\<lambda>i.
     and_then (parse_nonzero_hex J ulong_bits j ''classid'') (\<lambda>cid.
     and_then (parse_string_field J j ''cgroup_path'') (\<lambda>cg.
     and_then (parse_interfaces J j) (\<lambda>ifs.
     and_then (parse_mptcp_enabled J j) (\<lambda>mp.
     and_then (parse_routing_table J j) (\<lambda>rt.
     and_then (parse_nonzero_hex J ulong_bits j ''mark'') (\<lambda>mk.
     and_then (parse_strict_isolation J j) (\<lambda>st.
     and_then (parse_rssi J j) (\<lambda>r.
       Inr \<lparr>cls_id = i, classid = cid, cgroupPath = cg, interfaces = ifs, mptcpEnabled = mp,
            routingTable = rt, mark = mk, strictIsolation = st, rssi_cfg = r\<rparr>)))))))))"

fun validate_from :: "string set \<Rightarrow> u32 set \<Rightarrow> u32 set \<Rightarrow> u32 set \<Rightarrow> PathClassConfig list
    \<Rightarrow> ConfigError status" where
  "validate_from ids classids marks tables [] = ok"
| "validate_from ids classids marks tables (c # cs) =
     (if cls_id c \<in> ids then Inl InvalidValue
      else if classid c \<in> classids then Inl InvalidValue
      else if mark c \<in> marks then Inl InvalidValue
      else if routingTable c \<in> tables then Inl InvalidValue
      else validate_from (insert (cls_id c) ids) (insert (classid c) classids)
             (insert (mark c) marks) (insert (routingTable c) tables) cs)"

definition validateClasses :: "PathClassConfig list \<Rightarrow> ConfigError status" where
  "validateClasses cs = validate_from {} {} {} {} cs"

fun parse_classes :: "'j json_api \<Rightarrow> nat \<Rightarrow> 'j list \<Rightarrow> PathClassConfig list
    \<Rightarrow> ConfigError + PathClassConfig list" where
  "parse_classes J ulong_bits [] acc = Inr acc"
| "parse_classes J ulong_bits (e # es) acc =
     and_then (parsePathClass J ulong_bits e) (\<lambda>c. parse_classes J ulong_bits es (acc @ [c]))"

definition parse_root :: "'j json_api \<Rightarrow> nat \<Rightarrow> 'j \<Rightarrow> ConfigError + PathClassConfig list" where
  "parse_root J ulong_bits root =
     (if \<not> json_contains J root ''path_classes''
         \<or> \<not> is_array J (json_at J root ''path_classes'') then Inl InvalidSchema
      else let arr = elements J (json_at J root ''path_classes'') in
        if arr = [] then Inl InvalidSchema
        else and_then (parse_classes J ulong_bits arr []) (\<lambda>classes.
             and_then (validateClasses classes) (\<lambda>_. Inr classes)))"

definition loadFromFile :: "env \<Rightarrow> 'j json_api \<Rightarrow> (string \<Rightarrow> 'j option) \<Rightarrow> nat \<Rightarrow> string
    \<Rightarrow> (ConfigError + PathClassConfig list) os" where
  "loadFromFile env J json_parse ulong_bits configPath = do {
     file \<leftarrow> perform env (File (ReadFile configPath));
     return
       (if rc file = 0 then Inl FileNotFound
        else case json_parse (content file) of
               None \<Rightarrow> Inl ParseError
             | Some root \<Rightarrow> parse_root J ulong_bits root)
   }"

subsection \<open>What a loaded configuration satisfies\<close>

definition valid_class :: "PathClassConfig \<Rightarrow> bool" where
  "valid_class c \<longleftrightarrow>
     cls_id c \<noteq> [] \<and> classid c \<noteq> 0 \<and> cgroupPath c \<noteq> [] \<and>
     interfaces c \<noteq> [] \<and> [] \<notin> set (interfaces c) \<and>
     1 \<le> routingTable c \<and> routingTable c \<le> 65534 \<and> mark c \<noteq> 0 \<and>
     drop_at (rssi_cfg c) < warn (rssi_cfg c)"

definition keys_distinct :: "PathClassConfig list \<Rightarrow> bool" where
  "keys_distinct cs \<longleftrightarrow> distinct (map cls_id cs) \<and> distinct (map classid cs) \<and>
     distinct (map mark cs) \<and> distinct (map routingTable cs)"

definition valid_config :: "PathClassConfig list \<Rightarrow> bool" where
  "valid_config cs \<longleftrightarrow> cs \<noteq> [] \<and> list_all valid_class cs \<and> keys_distinct cs"

lemma validate_from_ok:
  "validate_from ids classids marks tables cs = ok \<longleftrightarrow>
     keys_distinct cs \<and> cls_id ` set cs \<inter> ids = {} \<and> classid ` set cs \<inter> classids = {} \<and>
     mark ` set cs \<inter> marks = {} \<and> routingTable ` set cs \<inter> tables = {}"
proof (induction cs arbitrary: ids classids marks tables)
  case Nil
  then show ?case by (simp add: keys_distinct_def)
next
  case (Cons c cs)
  then show ?case by (auto simp: keys_distinct_def)
qed

lemma validateClasses_iff: "validateClasses cs = ok \<longleftrightarrow> keys_distinct cs"
  by (simp add: validateClasses_def validate_from_ok)

lemma validateClasses_error: "validateClasses cs = Inl e \<Longrightarrow> e = InvalidValue"
proof -
  have "validate_from A B C D cs = Inl e \<Longrightarrow> e = InvalidValue" for A B C D
    by (induction cs arbitrary: A B C D) (auto split: if_splits)
  then show "validateClasses cs = Inl e \<Longrightarrow> e = InvalidValue"
    by (simp add: validateClasses_def)
qed

lemma parse_interface_list_ok:
  "parse_interface_list J is acc = Inr ifs \<Longrightarrow>
     ifs = acc @ map (get_string J) is \<and> [] \<notin> set (map (get_string J) is)"
  by (induction J "is" acc rule: parse_interface_list.induct) (auto split: if_splits)

lemma parse_interfaces_ok:
  "parse_interfaces J j = Inr ifs \<Longrightarrow> ifs \<noteq> [] \<and> [] \<notin> set ifs"
  by (auto simp: parse_interfaces_def Let_def split: if_splits dest!: parse_interface_list_ok)

lemma parse_routing_table_ok:
  assumes "parse_routing_table J j = Inr rt"
  shows "1 \<le> rt \<and> rt \<le> 65534"
proof -
  from assms obtain v where v: "1 \<le> v" "v \<le> 65534" and rt: "rt = word_of_int v"
    by (auto simp: parse_routing_table_def Let_def not_less split: if_splits)
  have "uint rt = v"
    using v by (simp add: rt unsigned_of_int take_bit_int_eq_self)
  with v show ?thesis
    by (simp add: word_le_def)
qed

lemma parse_rssi_ok: "parse_rssi J j = Inr r \<Longrightarrow> drop_at r < warn r"
  by (auto simp: parse_rssi_def Let_def default_rssi_def split: if_splits)

lemma parsePathClass_valid: "parsePathClass J L j = Inr c \<Longrightarrow> valid_class c"
  by (auto simp: parsePathClass_def and_then_Inr valid_class_def parse_string_field_def
      parse_nonzero_hex_def split: if_splits
      dest: parse_interfaces_ok parse_routing_table_ok parse_rssi_ok)

lemma parse_classes_valid:
  "parse_classes J L es acc = Inr cs \<Longrightarrow> list_all valid_class acc \<Longrightarrow>
     list_all valid_class cs \<and> length cs = length acc + length es"
  by (induction es arbitrary: acc) (auto simp: and_then_Inr dest: parsePathClass_valid)

lemma parse_root_valid: "parse_root J L root = Inr cs \<Longrightarrow> valid_config cs"
  by (auto simp: parse_root_def valid_config_def and_then_Inr Let_def validateClasses_iff
      split: if_splits dest!: parse_classes_valid)

lemma outcome_loadFromFile:
  "outcome (loadFromFile env J json_parse L path) h =
     (let file = env h (File (ReadFile path)) in
      if rc file = 0 then Inl FileNotFound
      else case json_parse (content file) of None \<Rightarrow> Inl ParseError
           | Some root \<Rightarrow> parse_root J L root)"
  by (simp add: loadFromFile_def run_simps extends_rules)


subsection \<open>Errors\<close>

lemma parsePathClass_error:
  "parsePathClass J L j = Inl e \<Longrightarrow> e = MissingField \<or> e = InvalidValue"
proof -
  have list: "parse_interface_list J is acc = Inl e \<Longrightarrow> e = InvalidValue" for "is" acc
    by (induction J "is" acc rule: parse_interface_list.induct) (auto split: if_splits)
  have hex: "parse_nonzero_hex J L j key = Inl e \<Longrightarrow> e = MissingField \<or> e = InvalidValue" for key
    by (auto simp: parse_nonzero_hex_def and_then_Inl parseHexField_def Let_def
        split: if_splits sum.splits stoul_error.splits)
  show "parsePathClass J L j = Inl e \<Longrightarrow> e = MissingField \<or> e = InvalidValue"
    by (auto simp: parsePathClass_def and_then_Inl parse_string_field_def parse_interfaces_def
        parse_mptcp_enabled_def parse_routing_table_def parse_strict_isolation_def
        parse_rssi_def Let_def dest: list hex split: if_splits)
qed

lemma parse_classes_append:
  "parse_classes J L (es @ fs) acc =
     and_then (parse_classes J L es acc) (\<lambda>cs. parse_classes J L fs cs)"
  by (induction es arbitrary: acc) (simp_all add: and_then_def split: sum.split)

lemma parse_classes_error:
  "parse_classes J L es acc = Inl e \<Longrightarrow> e = MissingField \<or> e = InvalidValue"
  by (induction es arbitrary: acc) (auto simp: and_then_Inl dest: parsePathClass_error)

lemma parse_root_error:
  "parse_root J L root = Inl e \<Longrightarrow> e \<notin> {FileNotFound, ParseError}"
  by (auto simp: parse_root_def and_then_Inl Let_def split: if_splits
      dest!: parse_classes_error validateClasses_error)

subsection \<open>The tree of JSON values\<close>

datatype json = JNull | JBool bool | JInt int | JString string | JArray "json list"
  | JObject "(string \<times> json) list"

fun tree_field :: "json \<Rightarrow> string \<Rightarrow> json option" where
  "tree_field (JObject kvs) k = map_of kvs k"
| "tree_field _ k = None"

definition tree_api :: "json json_api" where
  "tree_api = \<lparr>
     json_contains = (\<lambda>j k. tree_field j k \<noteq> None),
     json_at = (\<lambda>j k. case tree_field j k of None \<Rightarrow> JNull | Some v \<Rightarrow> v),
     is_string = (\<lambda>j. case j of JString _ \<Rightarrow> True | _ \<Rightarrow> False),
     is_array = (\<lambda>j. case j of JArray _ \<Rightarrow> True | _ \<Rightarrow> False),
     is_boolean = (\<lambda>j. case j of JBool _ \<Rightarrow> True | _ \<Rightarrow> False),
     is_number_integer = (\<lambda>j. case j of JInt _ \<Rightarrow> True | _ \<Rightarrow> False),
     is_object = (\<lambda>j. case j of JObject _ \<Rightarrow> True | _ \<Rightarrow> False),
     get_string = (\<lambda>j. case j of JString s \<Rightarrow> s | _ \<Rightarrow> []),
     get_bool = (\<lambda>j. case j of JBool b \<Rightarrow> b | _ \<Rightarrow> False),
     get_int = (\<lambda>j. case j of JInt i \<Rightarrow> word_of_int i | _ \<Rightarrow> 0),
     elements = (\<lambda>j. case j of JArray js \<Rightarrow> js | _ \<Rightarrow> [])\<rparr>"

text \<open>A configuration written the way \<^verbatim>\<open>config/path-policies.json\<close> is.\<close>

definition render_rssi :: "RssiThresholds \<Rightarrow> json" where
  "render_rssi r = JObject [(''connect_min'', JInt (connectMin r)), (''warn'', JInt (warn r)),
     (''drop'', JInt (drop_at r))]"

definition render_class :: "PathClassConfig \<Rightarrow> json" where
  "render_class c = JObject [
     (''id'', JString (cls_id c)),
     (''classid'', JString (format_hex08 (classid c))),
     (''cgroup_path'', JString (cgroupPath c)),
     (''interfaces'', JArray (map JString (interfaces c))),
     (''mptcp_enabled'', JBool (mptcpEnabled c)),
     (''routing_table'', JInt (uint (routingTable c))),
     (''mark'', JString (format_hex08 (mark c))),
     (''strict_isolation'', JBool (strictIsolation c)),
     (''rssi'', render_rssi (rssi_cfg c))]"

definition render_config :: "PathClassConfig list \<Rightarrow> json" where
  "render_config cs = JObject [(''path_classes'', JArray (map render_class cs))]"

definition int32 :: "int \<Rightarrow> bool" where
  "int32 i \<longleftrightarrow> - (2 ^ 31) \<le> i \<and> i < 2 ^ 31"

definition rssi_fits :: "PathClassConfig \<Rightarrow> bool" where
  "rssi_fits c \<longleftrightarrow> int32 (connectMin (rssi_cfg c)) \<and> int32 (warn (rssi_cfg c)) \<and>
     int32 (drop_at (rssi_cfg c))"

lemma sint_word_of_int32: "int32 i \<Longrightarrow> sint (word_of_int i :: u32) = i"
  by (simp add: int32_def signed_of_int signed_take_bit_int_eq_self)

lemma parse_interface_list_render:
  "[] \<notin> set ifs \<Longrightarrow>
     parse_interface_list tree_api (map JString ifs) acc = Inr (acc @ ifs)"
  by (induction ifs arbitrary: acc) (auto simp: tree_api_def)

lemma parse_hex_render:
  assumes "32 \<le> L" and "w \<noteq> 0" and "tree_field j key = Some (JString (format_hex08 w))"
  shows "parse_nonzero_hex tree_api L j key = Inr w"
proof -
  have "stoul L (format_hex08 w) 0 = Inr (unat w)"
    using stoul_format_hex08[OF assms(1), of "[]" w] by simp
  then show ?thesis
    using assms(2,3) unat32_bound[of w]
    by (simp add: parse_nonzero_hex_def parseHexField_def tree_api_def)
qed

lemma parse_table_render:
  assumes "1 \<le> rt" and "rt \<le> 65534" and "tree_field j ''routing_table'' = Some (JInt (uint rt))"
  shows "parse_routing_table tree_api j = Inr rt"
proof -
  from assms(1,2) have "1 \<le> uint rt" "uint rt \<le> 65534"
    by (simp_all add: word_le_def)
  then show ?thesis
    using assms(3) sint_word_of_int32[of "uint rt"]
    by (simp add: parse_routing_table_def tree_api_def int32_def)
qed

lemma parse_rssi_render:
  assumes "rssi_fits c" and "drop_at (rssi_cfg c) < warn (rssi_cfg c)"
    and "tree_field j ''rssi'' = Some (render_rssi (rssi_cfg c))"
  shows "parse_rssi tree_api j = Inr (rssi_cfg c)"
  using assms
  by (simp add: parse_rssi_def parseRssiThresholds_def tree_api_def render_rssi_def
      rssi_fits_def sint_word_of_int32)

lemma parse_render_class:
  assumes "32 \<le> L" and "valid_class c" and "rssi_fits c"
  shows "parsePathClass tree_api L (render_class c) = Inr c"
proof -
  let ?j = "render_class c"
  have fields: "parse_string_field tree_api ?j ''id'' = Inr (cls_id c)"
    "parse_string_field tree_api ?j ''cgroup_path'' = Inr (cgroupPath c)"
    "parse_interfaces tree_api ?j = Inr (interfaces c)"
    "parse_mptcp_enabled tree_api ?j = Inr (mptcpEnabled c)"
    "parse_strict_isolation tree_api ?j = Inr (strictIsolation c)"
    using assms(2) parse_interface_list_render[of "interfaces c" "[]"]
    by (simp_all add: parse_string_field_def parse_interfaces_def parse_mptcp_enabled_def
        parse_strict_isolation_def valid_class_def)
      (simp_all add: tree_api_def render_class_def)
  have hex: "parse_nonzero_hex tree_api L ?j ''classid'' = Inr (classid c)"
    "parse_nonzero_hex tree_api L ?j ''mark'' = Inr (mark c)"
    using assms(1,2) by (auto intro!: parse_hex_render simp: render_class_def valid_class_def)
  have table: "parse_routing_table tree_api ?j = Inr (routingTable c)"
    using assms(2) by (intro parse_table_render) (simp_all add: valid_class_def render_class_def)
  have rssi: "parse_rssi tree_api ?j = Inr (rssi_cfg c)"
    using assms(2,3) by (intro parse_rssi_render) (simp_all add: valid_class_def render_class_def)
  show ?thesis
    by (simp add: parsePathClass_def fields hex table rssi)
qed

lemma parse_render_config:
  assumes "32 \<le> L" and "valid_config cs" and "list_all rssi_fits cs"
  shows "parse_root tree_api L (render_config cs) = Inr cs"
proof -
  have "list_all valid_class ds \<Longrightarrow> list_all rssi_fits ds \<Longrightarrow>
      parse_classes tree_api L (map render_class ds) acc = Inr (acc @ ds)" for ds acc
    by (induction ds arbitrary: acc) (simp_all add: parse_render_class assms(1))
  from this[of cs "[]"] have "parse_classes tree_api L (map render_class cs) [] = Inr cs"
    using assms(2,3) by (simp add: valid_config_def)
  moreover have "validateClasses cs = ok" "cs \<noteq> []"
    using assms(2) by (simp_all add: validateClasses_iff valid_config_def)
  moreover have "json_contains tree_api (render_config cs) ''path_classes''"
    "is_array tree_api (json_at tree_api (render_config cs) ''path_classes'')"
    "elements tree_api (json_at tree_api (render_config cs) ''path_classes'') = map render_class cs"
    by (simp_all add: tree_api_def render_config_def)
  ultimately show ?thesis
    by (simp add: parse_root_def)
qed


text \<open>The configuration the repository ships.\<close>

definition shipped_classes :: "PathClassConfig list" where
  "shipped_classes = [
     \<lparr>cls_id = ''multipath'', classid = 0x00100001,
      cgroupPath = ''/sys/fs/cgroup/net_cls/multipath'',
      interfaces = [''eth0.100'', ''eth0.200''], mptcpEnabled = True, routingTable = 100,
      mark = 0x10, strictIsolation = False,
      rssi_cfg = \<lparr>connectMin = -70, warn = -75, drop_at = -85\<rparr>\<rparr>,
     \<lparr>cls_id = ''lte_b2c'', classid = 0x00100002,
      cgroupPath = ''/sys/fs/cgroup/net_cls/lte_b2c'',
      interfaces = [''eth0.200''], mptcpEnabled = False, routingTable = 200,
      mark = 0x20, strictIsolation = False, rssi_cfg = default_rssi\<rparr>,
     \<lparr>cls_id = ''lte_b2b'', classid = 0x00100003,
      cgroupPath = ''/sys/fs/cgroup/net_cls/lte_b2b'',
      interfaces = [''eth0.300''], mptcpEnabled = False, routingTable = 300,
      mark = 0x30, strictIsolation = True, rssi_cfg = default_rssi\<rparr>]"

lemma shipped_valid: "valid_config shipped_classes"
  by (simp add: shipped_classes_def valid_config_def valid_class_def keys_distinct_def
      default_rssi_def)

lemma shipped_rssi: "list_all rssi_fits shipped_classes"
  by (simp add: shipped_classes_def rssi_fits_def int32_def default_rssi_def)

lemma shipped_loads:
  "outcome (loadFromFile (\<lambda>_ _. reply 1 (EOTHER 0)) tree_api
     (\<lambda>_. Some (render_config shipped_classes)) 32 path) h = Inr shipped_classes"
  by (simp add: outcome_loadFromFile parse_render_config shipped_valid shipped_rssi)

subsection \<open>Properties\<close>

text \<open>C32: whatever the file holds and whatever the JSON library makes of it, a configuration
  that loads is not empty, each of its classes has every required field in range (names and
  paths not empty, class id and mark not zero, routing table within 1..65534, warn above
  drop), and ids, class ids, marks and routing tables are pairwise different.\<close>

theorem loaded_config_valid:
  "outcome (loadFromFile env J json_parse L path) h = Inr cs \<Longrightarrow> valid_config cs"
  by (auto simp: outcome_loadFromFile Let_def split: if_splits option.splits
      dest: parse_root_valid)

theorem loaded_config_valid_witness:
  "valid_config shipped_classes \<and> length shipped_classes = 3"
  using loaded_config_valid [OF shipped_loads]
  by (simp add: shipped_classes_def)

text \<open>C33: a valid configuration written as a JSON document is read back unchanged, field by
  field and in order, on a target whose unsigned long has at least 32 bits.\<close>

theorem rendered_config_loads:
  assumes "valid_config cs" and "list_all rssi_fits cs" and "32 \<le> L"
    and "rc (env h (File (ReadFile path))) \<noteq> 0"
    and "json_parse (content (env h (File (ReadFile path)))) = Some (render_config cs)"
  shows "outcome (loadFromFile env tree_api json_parse L path) h = Inr cs"
  using assms by (simp add: outcome_loadFromFile parse_render_config)

theorem rendered_config_loads_witness:
  "outcome (loadFromFile (\<lambda>_ _. reply 1 (EOTHER 0)) tree_api
     (\<lambda>_. Some (render_config shipped_classes)) 64 ''/etc/netservice/path-policies.json'') [] =
   Inr shipped_classes"
  by (rule rendered_config_loads [OF shipped_valid shipped_rssi]) simp_all

text \<open>Each kind of load error has one cause. FileNotFound is a file that does not open,
  ParseError a text the JSON library rejects, InvalidSchema a document without a non-empty
  array path_classes; MissingField and InvalidValue come from its classes only.\<close>

theorem load_error_causes:
  "outcome (loadFromFile env J json_parse L path) h = Inl e \<longleftrightarrow>
     (let file = env h (File (ReadFile path)) in
      if rc file = 0 then e = FileNotFound
      else case json_parse (content file) of
             None \<Rightarrow> e = ParseError
           | Some root \<Rightarrow>
               if \<not> json_contains J root ''path_classes''
                  \<or> \<not> is_array J (json_at J root ''path_classes'')
                  \<or> elements J (json_at J root ''path_classes'') = []
               then e = InvalidSchema
               else parse_root J L root = Inl e \<and> e \<in> {MissingField, InvalidValue})"
proof -
  have classes: "parse_root J L root = Inl e \<Longrightarrow>
      json_contains J root ''path_classes'' \<Longrightarrow> is_array J (json_at J root ''path_classes'') \<Longrightarrow>
      elements J (json_at J root ''path_classes'') \<noteq> [] \<Longrightarrow> e \<in> {MissingField, InvalidValue}" for root
    by (auto simp: parse_root_def and_then_Inl Let_def
        dest!: parse_classes_error validateClasses_error)
  then show ?thesis
    by (auto simp: outcome_loadFromFile Let_def parse_root_def split: option.splits)
qed

text \<open>The cross-class check accepts a list of classes exactly when ids, class ids, marks
  and routing tables are pairwise different, and reports InvalidValue otherwise.\<close>

theorem validateClasses_spec:
  "validateClasses cs = (if keys_distinct cs then ok else Inl InvalidValue)"
  using validateClasses_iff[of cs] validateClasses_error[of cs]
  by (cases "validateClasses cs") auto

text \<open>The loader stops at the first class that does not parse and returns that class's
  error, whatever follows it in the array.\<close>

theorem first_bad_class_reported:
  assumes "parse_classes J L good [] = Inr cs" and "parsePathClass J L bad = Inl e"
  shows "parse_classes J L (good @ bad # rest) [] = Inl e"
  using assms by (simp add: parse_classes_append)

theorem first_bad_class_reported_witness:
  "parse_classes tree_api 32 (map render_class shipped_classes @ JNull # [JNull]) [] =
     Inl MissingField"
proof (rule first_bad_class_reported)
  have "parse_root tree_api 32 (render_config shipped_classes) = Inr shipped_classes"
    by (simp add: parse_render_config shipped_valid shipped_rssi)
  then show "parse_classes tree_api 32 (map render_class shipped_classes) [] = Inr shipped_classes"
    by (auto simp: parse_root_def and_then_Inr Let_def tree_api_def render_config_def
        split: if_splits)
  show "parsePathClass tree_api 32 JNull = Inl MissingField"
    by (simp add: parsePathClass_def parse_string_field_def tree_api_def)
qed

text \<open>A field that should hold a hexadecimal number is read by its longest numeric prefix:
  text after the digits is ignored.\<close>

theorem hex_field_ignores_trailing_text:
  assumes "32 \<le> L" and "no_digit_next 16 junk"
    and "json_contains J j key" and "is_string J (json_at J j key)"
    and "get_string J (json_at J j key) = format_hex08 w @ junk"
  shows "parseHexField J L j key = Inr w"
  using assms unat32_bound[of w] by (simp add: parseHexField_def stoul_format_hex08)

theorem hex_field_ignores_trailing_text_witness:
  "parseHexField tree_api 32 (JObject [(''mark'', JString (format_hex08 16 @ '' oops''))]) ''mark''
     = Inr 16"
  by (rule hex_field_ignores_trailing_text [where junk = "'' oops''"])
    (simp_all add: tree_api_def no_digit_next_def is_digit_def digit_val_def)

text \<open>A negative number in such a field depends on the width of unsigned long: on a
  32-bit target it is accepted and wraps to its two's complement, on a 64-bit target it is
  rejected.\<close>

theorem negative_hex_field_by_width:
  assumes "0 < n" and "n < 2 ^ 32"
    and "json_contains J j key" and "is_string J (json_at J j key)"
    and "get_string J (json_at J j key) = CHR ''-'' # nat_text 10 n"
    and "hd (nat_text 10 n) \<noteq> CHR ''0''"
  shows "parseHexField J 32 j key = Inr (- of_nat n) \<and>
         parseHexField J 64 j key = Inl InvalidValue"
proof -
  have all: "list_all (is_digit 10) (nat_text 10 n)" by (simp add: nat_text_digits)
  then have hd_digit: "is_digit 10 (hd (nat_text 10 n))" by (cases "nat_text 10 n") simp_all
  have base: "base_split 0 (nat_text 10 n) = (10, nat_text 10 n)"
    using assms(6) by (auto simp: base_split_def has_hex_prefix_def split: list.splits)
  have stoul: "stoul L (CHR ''-'' # nat_text 10 n) 0 =
      (if n \<ge> 2 ^ L then Inl OutOfRange else Inr ((2 ^ L - n) mod 2 ^ L))" for L
    using hd_digit
    by (simp add: stoul_def is_space_def sign_split_def base digits_value_nat_text)
  have "of_nat (2 ^ 32 - n) = (- of_nat n :: u32)"
    using assms(2) by (simp add: of_nat_diff)
  moreover have "\<not> (2 ^ 32 - 1 < 2 ^ 32 - n)" "2 ^ 32 - 1 < 2 ^ 64 - n"
    using assms(1,2) by simp_all
  ultimately show ?thesis
    using stoul[of 32] stoul[of 64] assms by (simp add: parseHexField_def)
qed

theorem negative_hex_field_by_width_witness:
  "parseHexField tree_api 32 (JObject [(''mark'', JString ''-1'')]) ''mark'' = Inr (- of_nat 1)
   \<and> parseHexField tree_api 64 (JObject [(''mark'', JString ''-1'')]) ''mark'' = Inl InvalidValue"
proof -
  have t: "nat_text 10 (Suc 0) = ''1''"
    by code_simp
  show ?thesis
    by (rule negative_hex_field_by_width) (simp_all add: tree_api_def t)
qed

end
