(* ===== verification/Wpa_Monitor.thy ===== *)
theory Wpa_Monitor
  imports Number_Text
begin

text \<open>
  \<^verbatim>\<open>wpa/wpa_monitor.cpp\<close>: the lines wpa_supplicant sends and the events made of them, and
  the waiting times between two attempts to reach it. The four event names are the
  constants of \<^verbatim>\<open>wpa/wpa_ctrl.h\<close>, each with its trailing space.
\<close>

subsection \<open>Events\<close>

datatype WpaEventType = Connected | Disconnected | SignalChange | Terminating | Other

record WpaEvent =
  ev_type :: WpaEventType
  ev_raw :: string
  ev_iface :: string
  ev_rssi :: int
  ev_avgRssi :: int

definition WPA_EVENT_CONNECTED :: string where
  "WPA_EVENT_CONNECTED = ''CTRL-EVENT-CONNECTED ''"

definition WPA_EVENT_DISCONNECTED :: string where
  "WPA_EVENT_DISCONNECTED = ''CTRL-EVENT-DISCONNECTED ''"

definition WPA_EVENT_TERMINATING :: string where
  "WPA_EVENT_TERMINATING = ''CTRL-EVENT-TERMINATING ''"

definition WPA_EVENT_SIGNAL_CHANGE :: string where
  "WPA_EVENT_SIGNAL_CHANGE = ''CTRL-EVENT-SIGNAL-CHANGE ''"

lemmas wpa_event_names = WPA_EVENT_CONNECTED_def WPA_EVENT_DISCONNECTED_def
  WPA_EVENT_TERMINATING_def WPA_EVENT_SIGNAL_CHANGE_def

subsection \<open>Parsing a line\<close>

definition stripPriority :: "string \<Rightarrow> string" where
  "stripPriority raw =
     (if raw \<noteq> [] \<and> hd raw = CHR ''<'' then
        (case dropWhile (\<lambda>c. c \<noteq> CHR ''>'') raw of [] \<Rightarrow> raw | _ # rest \<Rightarrow> rest)
      else raw)"

text \<open>\<^verbatim>\<open>msg.find(key)\<close> at its first occurrence, as the text that follows the key.\<close>

fun find_after :: "string \<Rightarrow> string \<Rightarrow> string option" where
  "find_after key [] = (if key = [] then Some [] else None)"
| "find_after key (c # cs) =
     (if prefix key (c # cs) then Some (drop (length key) (c # cs)) else find_after key cs)"

definition parseIntField :: "string \<Rightarrow> string \<Rightarrow> int" where
  "parseIntField msg key =
     (case find_after key msg of
        None \<Rightarrow> 0
      | Some rest \<Rightarrow> if rest = [] then 0
                     else from_chars_int (takeWhile (\<lambda>c. c \<noteq> CHR '' '') rest))"

definition parseEvent :: "string \<Rightarrow> string \<Rightarrow> WpaEvent" where
  "parseEvent raw iface =
     (let ev = \<lparr>ev_type = Other, ev_raw = raw, ev_iface = iface, ev_rssi = 0, ev_avgRssi = 0\<rparr>;
          msg = stripPriority raw
      in if prefix WPA_EVENT_CONNECTED msg then ev\<lparr>ev_type := Connected\<rparr>
         else if prefix WPA_EVENT_DISCONNECTED msg then ev\<lparr>ev_type := Disconnected\<rparr>
         else if prefix WPA_EVENT_SIGNAL_CHANGE msg then
           ev\<lparr>ev_type := SignalChange,
              ev_rssi := parseIntField msg ''rssi='',
              ev_avgRssi := parseIntField msg ''avg_rssi=''\<rparr>
         else if prefix WPA_EVENT_TERMINATING msg then ev\<lparr>ev_type := Terminating\<rparr>
         else ev)"

text \<open>The event goes to the callback, if there is one; the result says whether the event
  loop ends.\<close>

definition handleEvent :: "(WpaEvent \<Rightarrow> 's \<Rightarrow> 's) option \<Rightarrow> string \<Rightarrow> string \<Rightarrow> 's \<Rightarrow> bool \<times> 's" where
  "handleEvent callback iface raw s =
     (let ev = parseEvent raw iface
      in (ev_type ev = Terminating, case callback of None \<Rightarrow> s | Some k \<Rightarrow> k ev s))"

subsection \<open>Waiting between attempts\<close>

definition kInitialBackoff :: nat where "kInitialBackoff = 1"

definition kMaxBackoff :: nat where "kMaxBackoff = 30"

definition next_backoff :: "nat \<Rightarrow> nat" where
  "next_backoff backoff = min (backoff * 2) kMaxBackoff"

text \<open>
  The waits of the reconnect loop: an attempt that attached (\<open>True\<close>) resets the waiting time
  before its event loop runs; after every attempt the loop waits, then doubles the time.
\<close>

fun backoff_waits :: "nat \<Rightarrow> bool list \<Rightarrow> nat list" where
  "backoff_waits backoff [] = []"
| "backoff_waits backoff (attached # later) =
     (let b = (if attached then kInitialBackoff else backoff)
      in b # backoff_waits (next_backoff b) later)"

subsection \<open>Lemmas\<close>

lemma find_after_skip:
  "key \<noteq> [] \<Longrightarrow> hd key \<notin> set pre \<Longrightarrow> find_after key (pre @ s) = find_after key s"
proof (induction pre)
  case Nil
  then show ?case by simp
next
  case (Cons c cs)
  then have "\<not> prefix key (c # cs @ s)"
    by (cases key) auto
  with Cons show ?case by simp
qed

lemma find_after_here: "find_after key (key @ s) = Some s"
proof (cases key)
  case Nil
  then show ?thesis by (cases s) simp_all
qed simp

lemma parseEvent_sel [simp]:
  "ev_raw (parseEvent raw iface) = raw" "ev_iface (parseEvent raw iface) = iface"
  by (simp_all add: parseEvent_def Let_def)

lemma parseEvent_rssi:
  "ev_type (parseEvent raw iface) \<noteq> SignalChange \<Longrightarrow> ev_rssi (parseEvent raw iface) = 0"
  by (auto simp: parseEvent_def Let_def split: if_splits)

lemma int_text_chars: "set (int_text i) \<subseteq> {CHR ''-''} \<union> {c. is_digit 10 c}"
proof -
  have "set (nat_text 10 n) \<subseteq> {c. is_digit 10 c}" for n
    using nat_text_digits[of 10 n] by (auto simp: list_all_iff)
  then show ?thesis
    by (auto simp: int_text_def)
qed

lemma int_text_no:
  "CHR '' '' \<notin> set (int_text i)" "CHR ''a'' \<notin> set (int_text i)" "CHR ''r'' \<notin> set (int_text i)"
  using int_text_chars[of i] by (auto simp: is_digit_def digit_val_def)

lemma int_text_nonempty [simp]: "int_text i \<noteq> []"
  by (simp add: int_text_def)

lemma takeWhile_int_text:
  "takeWhile (\<lambda>c. c \<noteq> CHR '' '') (int_text i @ CHR '' '' # rest) = int_text i"
  "takeWhile (\<lambda>c. c \<noteq> CHR '' '') (int_text i) = int_text i"
  using int_text_no(1)[of i] by (auto simp: takeWhile_append)

text \<open>The line of the interface description: \<^verbatim>\<open>CTRL-EVENT-SIGNAL-CHANGE rssi=X avg_rssi=Y\<close>.\<close>

definition signal_line :: "int \<Rightarrow> int \<Rightarrow> string" where
  "signal_line x y =
     WPA_EVENT_SIGNAL_CHANGE @ ''rssi='' @ int_text x @ '' avg_rssi='' @ int_text y"

definition with_priority :: "nat \<Rightarrow> string \<Rightarrow> string" where
  "with_priority n line = CHR ''<'' # nat_text 10 n @ CHR ''>'' # line"

lemma stripPriority_with_priority: "stripPriority (with_priority n line) = line"
proof -
  have "list_all (is_digit 10) (nat_text 10 n)"
    by (simp add: nat_text_digits)
  moreover have "\<not> is_digit 10 (CHR ''>'')"
    by (simp add: is_digit_def digit_val_def)
  ultimately have "\<forall>c\<in>set (nat_text 10 n). c \<noteq> CHR ''>''"
    by (auto simp: list_all_iff)
  then have "dropWhile (\<lambda>c. c \<noteq> CHR ''>'') (nat_text 10 n @ CHR ''>'' # line) = CHR ''>'' # line"
    by (simp add: dropWhile_append)
  then show ?thesis
    by (simp add: stripPriority_def with_priority_def)
qed

lemma signal_fields:
  assumes "- (2 ^ 31) \<le> x \<and> x < 2 ^ 31" and "- (2 ^ 31) \<le> y \<and> y < 2 ^ 31"
  shows "parseIntField (signal_line x y) ''rssi='' = x"
    and "parseIntField (signal_line x y) ''avg_rssi='' = y"
proof -
  have first: "find_after ''rssi='' (signal_line x y) =
      Some (int_text x @ '' avg_rssi='' @ int_text y)"
    by (simp add: signal_line_def wpa_event_names)
  with rssi_field.parse_print_alone[OF assms(1)]
  show "parseIntField (signal_line x y) ''rssi='' = x"
    by (simp add: parseIntField_def takeWhile_int_text)
  have "find_after ''avg_rssi='' (signal_line x y) =
      find_after ''avg_rssi='' (int_text x @ '' avg_rssi='' @ int_text y)"
    by (simp add: signal_line_def wpa_event_names)
  also have "\<dots> = Some (int_text y)"
    using int_text_no(2)[of x] by (simp add: find_after_skip)
  finally show "parseIntField (signal_line x y) ''avg_rssi='' = y"
    using rssi_field.parse_print_alone[OF assms(2)]
    by (simp add: parseIntField_def takeWhile_int_text)
qed

lemma next_backoff_le: "next_backoff b \<le> kMaxBackoff"
  by (simp add: next_backoff_def)

lemma length_backoff_waits [simp]: "length (backoff_waits b attempts) = length attempts"
  by (induction attempts arbitrary: b) (simp_all add: Let_def)

subsection \<open>Properties\<close>

text \<open>A signal line in the documented form, with any priority prefix, is parsed back to
  the two signal strengths it was printed with, negative ones included.\<close>

theorem signal_line_parsed:
  assumes "- (2 ^ 31) \<le> x \<and> x < 2 ^ 31" and "- (2 ^ 31) \<le> y \<and> y < 2 ^ 31"
  shows "parseEvent (with_priority n (signal_line x y)) iface =
    \<lparr>ev_type = SignalChange, ev_raw = with_priority n (signal_line x y), ev_iface = iface,
     ev_rssi = x, ev_avgRssi = y\<rparr>"
proof -
  have "prefix WPA_EVENT_SIGNAL_CHANGE (signal_line x y)"
    by (simp add: signal_line_def)
  moreover have "\<not> prefix WPA_EVENT_CONNECTED (signal_line x y)"
    "\<not> prefix WPA_EVENT_DISCONNECTED (signal_line x y)"
    by (simp_all add: signal_line_def wpa_event_names)
  ultimately show ?thesis
    by (simp add: parseEvent_def stripPriority_with_priority signal_fields[OF assms])
qed

theorem signal_line_parsed_witness:
  "ev_rssi (parseEvent (with_priority 3 (signal_line (-65) (-67))) ''wlan0'') = -65"
  by (subst signal_line_parsed) simp_all

text \<open>Consecutive failed attempts wait 1, 2, 4, 8, 16 and then always 30 seconds: the
  k-th wait after the last success is the smaller of 2^k and 30.\<close>

theorem backoff_sequence:
  assumes "k < n"
  shows "backoff_waits kInitialBackoff (replicate n False) ! k = min (2 ^ k) 30"
proof -
  have "k < n \<Longrightarrow> backoff_waits (min (2 ^ j) 30) (replicate n False) ! k = min (2 ^ (j + k)) 30"
    for j
  proof (induction n arbitrary: j k)
    case 0
    then show ?case by simp
  next
    case (Suc n)
    have b: "next_backoff (min (2 ^ j) 30) = min (2 ^ Suc j) 30"
      by (simp add: next_backoff_def kMaxBackoff_def min_def)
    show ?case
    proof (cases k)
      case 0
      then show ?thesis by (simp add: Let_def)
    next
      case (Suc k')
      with Suc.prems have "k' < n" by simp
      from Suc.IH[OF this, of "Suc j"] Suc show ?thesis
        by (simp add: Let_def b del: power_Suc)
    qed
  qed
  from this[of 0] assms show ?thesis
    by (simp add: kInitialBackoff_def)
qed

theorem backoff_sequence_witness:
  "backoff_waits kInitialBackoff (replicate 7 False) ! 6 = 30"
  using backoff_sequence[of 6 7] by simp

text \<open>No wait is ever shorter than one second or longer than thirty, and the wait after a
  connection that had been up is one second again.\<close>

theorem backoff_bounded:
  "list_all (\<lambda>w. 1 \<le> w \<and> w \<le> 30) (backoff_waits kInitialBackoff attempts) \<and>
   backoff_waits b (True # attempts) = kInitialBackoff # backoff_waits 2 attempts"
proof -
  have "1 \<le> b \<Longrightarrow> b \<le> 30 \<Longrightarrow> list_all (\<lambda>w. 1 \<le> w \<and> w \<le> 30) (backoff_waits b attempts)" for b
  proof (induction attempts arbitrary: b)
    case Nil
    then show ?case by simp
  next
    case (Cons a later)
    have "1 \<le> next_backoff c \<and> next_backoff c \<le> 30" if "1 \<le> c" for c
      using that by (simp add: next_backoff_def kMaxBackoff_def)
    with Cons show ?case
      by (auto simp: Let_def kInitialBackoff_def)
  qed
  then show ?thesis
    by (simp add: kInitialBackoff_def Let_def next_backoff_def kMaxBackoff_def)
qed

end
