(* ===== verification/Path_Fsm.thy ===== *)
theory Path_Fsm
  imports Wpa_Monitor
begin

text \<open>
  \<^verbatim>\<open>fsm/path_state_fsm.cpp\<close>: the state machine of one path class. It maps the events of the
  supplicant to path states, installs and removes the default route through its callbacks,
  and announces each change of state. A callback is a function on the state \<open>'s\<close> it changes;
  the log of actions is one such state, and determines the effect of every other.
\<close>

subsection \<open>Data\<close>

record 's Callbacks =
  onPathUp :: "(string \<Rightarrow> u32 \<Rightarrow> 's \<Rightarrow> 's) option"
  onPathDown :: "(string \<Rightarrow> u32 \<Rightarrow> 's \<Rightarrow> 's) option"
  onStateChanged :: "(PathState \<Rightarrow> PathState \<Rightarrow> string \<Rightarrow> int \<Rightarrow> 's \<Rightarrow> 's) option"

record 's PathStateFsm =
  fsm_config :: PathClassConfig
  fsm_callbacks :: "'s Callbacks"
  fsm_state :: PathState
  activeIface :: string

definition new_fsm :: "PathClassConfig \<Rightarrow> 's Callbacks \<Rightarrow> 's PathStateFsm" where
  "new_fsm config callbacks =
     \<lparr>fsm_config = config, fsm_callbacks = callbacks, fsm_state = Idle, activeIface = []\<rparr>"

lemma new_fsm_sel [simp]:
  "fsm_config (new_fsm config cb) = config" "fsm_callbacks (new_fsm config cb) = cb"
  "fsm_state (new_fsm config cb) = Idle" "activeIface (new_fsm config cb) = []"
  by (simp_all add: new_fsm_def)

subsection \<open>Transitions\<close>

definition isDownState :: "PathState \<Rightarrow> bool" where
  "isDownState s \<longleftrightarrow> s = Idle \<or> s = PathDown \<or> s = Scanning \<or> s = Connecting"

definition nextState :: "PathState \<Rightarrow> WpaEvent \<Rightarrow> RssiThresholds \<Rightarrow> PathState" where
  "nextState current ev thresholds =
     (case ev_type ev of
        Terminating \<Rightarrow> Idle
      | Disconnected \<Rightarrow> PathDown
      | Connected \<Rightarrow>
          if isDownState current then
            if ev_rssi ev \<ge> warn thresholds then PathUp
            else if ev_rssi ev \<ge> drop_at thresholds then PathDegraded
            else PathDown
          else current
      | SignalChange \<Rightarrow>
          if current = PathUp then
            if ev_rssi ev < warn thresholds then PathDegraded else PathUp
          else if current = PathDegraded then
            if ev_rssi ev \<ge> warn thresholds then PathUp
            else if ev_rssi ev < drop_at thresholds then PathDown
            else PathDegraded
          else current
      | Other \<Rightarrow> current)"

text \<open>\<^verbatim>\<open>transition\<close>: the machine and the world its callbacks act on.\<close>

definition transition ::
  "PathState \<Rightarrow> string \<Rightarrow> int \<Rightarrow> 's PathStateFsm \<times> 's \<Rightarrow> 's PathStateFsm \<times> 's" where
  "transition newState iface rssi ms =
     (let (m, s) = ms; prev = fsm_state m; cb = fsm_callbacks m;
          table = routingTable (fsm_config m)
      in if newState = prev then (m, s)
         else
           let m = m\<lparr>fsm_state := newState\<rparr>;
               (m, s) =
                 (if newState = PathUp then
                    (m\<lparr>activeIface := iface\<rparr>,
                     case onPathUp cb of None \<Rightarrow> s | Some f \<Rightarrow> f iface table s)
                  else if newState = PathDown \<and> (prev = PathUp \<or> prev = PathDegraded) then
                    (m\<lparr>activeIface := []\<rparr>,
                     case onPathDown cb of
                       None \<Rightarrow> s
                     | Some f \<Rightarrow> if activeIface m = [] then s else f (activeIface m) table s)
                  else (m, s))
           in (m, case onStateChanged cb of None \<Rightarrow> s | Some f \<Rightarrow> f prev newState iface rssi s))"

definition onWpaEvent :: "WpaEvent \<Rightarrow> 's PathStateFsm \<times> 's \<Rightarrow> 's PathStateFsm \<times> 's" where
  "onWpaEvent ev ms =
     (let m = fst ms; next = nextState (fsm_state m) ev (rssi_cfg (fsm_config m))
      in transition next (ev_iface ev) (ev_rssi ev) ms)"

subsection \<open>The action log\<close>

datatype fsm_action =
    RouteUp string u32
  | RouteDown string u32
  | StateChanged PathState PathState string int

definition recording :: "fsm_action list Callbacks" where
  "recording =
     \<lparr>onPathUp = Some (\<lambda>iface table log. log @ [RouteUp iface table]),
      onPathDown = Some (\<lambda>iface table log. log @ [RouteDown iface table]),
      onStateChanged = Some (\<lambda>from to iface rssi log. log @ [StateChanged from to iface rssi])\<rparr>"

text \<open>What one logged action does through given callbacks.\<close>

fun act :: "'s Callbacks \<Rightarrow> fsm_action \<Rightarrow> 's \<Rightarrow> 's" where
  "act cb (RouteUp iface table) s =
     (case onPathUp cb of None \<Rightarrow> s | Some f \<Rightarrow> f iface table s)"
| "act cb (RouteDown iface table) s =
     (case onPathDown cb of None \<Rightarrow> s | Some f \<Rightarrow> f iface table s)"
| "act cb (StateChanged from to iface rssi) s =
     (case onStateChanged cb of None \<Rightarrow> s | Some f \<Rightarrow> f from to iface rssi s)"

text \<open>
  The default route that the callbacks were last asked for, by \<^verbatim>\<open>onPathUp\<close> and not since then
  taken back by \<^verbatim>\<open>onPathDown\<close>: the one in the class's table if every request is carried out. Adding
  replaces the route that is there, removing names the interface and leaves a route through
  another one alone.
\<close>

fun route_step :: "fsm_action \<Rightarrow> string option \<Rightarrow> string option" where
  "route_step (RouteUp iface table) r = Some iface"
| "route_step (RouteDown iface table) r = (if r = Some iface then None else r)"
| "route_step (StateChanged from to iface rssi) r = r"

definition route_after :: "fsm_action list \<Rightarrow> string option" where
  "route_after log = fold route_step log None"

text \<open>
  The routes that may be in the table. \<^verbatim>\<open>onPathUp\<close> in \<^verbatim>\<open>main.cpp\<close> adds none when the interface has no
  gateway, and adding one may fail, so each of its calls may also leave the table as it is; a
  route that is there is removed.
\<close>

fun routes_step :: "fsm_action \<Rightarrow> string option set \<Rightarrow> string option set" where
  "routes_step (RouteUp iface table) R = insert (Some iface) R"
| "routes_step (RouteDown iface table) R = (\<lambda>r. if r = Some iface then None else r) ` R"
| "routes_step (StateChanged from to iface rssi) R = R"

definition possible_routes :: "fsm_action list \<Rightarrow> string option set" where
  "possible_routes log = fold routes_step log {None}"

fun announced :: "fsm_action list \<Rightarrow> (PathState \<times> PathState) list" where
  "announced [] = []"
| "announced (StateChanged from to iface rssi # log) = (from, to) # announced log"
| "announced (_ # log) = announced log"

text \<open>A list of changes that starts in \<open>s\<close>, where each starts where the one before ended and
  none is idle, ends in \<open>t\<close>.\<close>

fun change_chain :: "PathState \<Rightarrow> (PathState \<times> PathState) list \<Rightarrow> PathState \<Rightarrow> bool" where
  "change_chain s [] t \<longleftrightarrow> s = t"
| "change_chain s ((from, to) # cs) t \<longleftrightarrow> from = s \<and> from \<noteq> to \<and> change_chain to cs t"

definition fsm_run ::
  "PathClassConfig \<Rightarrow> WpaEvent list \<Rightarrow> fsm_action list PathStateFsm \<times> fsm_action list" where
  "fsm_run config evs = fold onWpaEvent evs (new_fsm config recording, [])"

subsection \<open>The documented table\<close>

text \<open>
  The transition table in the comment of \<^verbatim>\<open>nextState\<close> in \<^verbatim>\<open>path_state_fsm.hpp\<close>, row by row.
\<close>

definition table_rows ::
  "((PathState \<Rightarrow> WpaEvent \<Rightarrow> RssiThresholds \<Rightarrow> bool) \<times> PathState) list" where
  "table_rows =
    [(\<lambda>s ev th. ev_type ev = Disconnected, PathDown),
     (\<lambda>s ev th. ev_type ev = Terminating, Idle),
     (\<lambda>s ev th. s \<in> {Idle, PathDown} \<and> ev_type ev = Connected \<and> ev_rssi ev \<ge> warn th, PathUp),
     (\<lambda>s ev th. s \<in> {Idle, PathDown} \<and> ev_type ev = Connected \<and>
                warn th > ev_rssi ev \<and> ev_rssi ev \<ge> drop_at th, PathDegraded),
     (\<lambda>s ev th. s \<in> {Idle, PathDown} \<and> ev_type ev = Connected \<and> ev_rssi ev < drop_at th, PathDown),
     (\<lambda>s ev th. s = PathUp \<and> ev_type ev = SignalChange \<and> ev_rssi ev < warn th, PathDegraded),
     (\<lambda>s ev th. s = PathDegraded \<and> ev_type ev = SignalChange \<and> ev_rssi ev \<ge> warn th, PathUp),
     (\<lambda>s ev th. s = PathDegraded \<and> ev_type ev = SignalChange \<and> ev_rssi ev < drop_at th, PathDown)]"

definition applicable :: "PathState \<Rightarrow> WpaEvent \<Rightarrow> RssiThresholds \<Rightarrow> PathState list" where
  "applicable s ev th = map snd (filter (\<lambda>(guard, t). guard s ev th) table_rows)"

subsection \<open>Lemmas\<close>

text \<open>Every change of state passes through one of these actions; the log grows by them.\<close>

definition transition_actions ::
  "PathClassConfig \<Rightarrow> PathState \<Rightarrow> string \<Rightarrow> PathState \<Rightarrow> string \<Rightarrow> int \<Rightarrow> fsm_action list" where
  "transition_actions config prev active newState iface rssi =
     (if newState = prev then []
      else (if newState = PathUp then [RouteUp iface (routingTable config)]
            else if newState = PathDown \<and> prev \<in> {PathUp, PathDegraded} \<and> active \<noteq> []
            then [RouteDown active (routingTable config)] else [])
           @ [StateChanged prev newState iface rssi])"

lemma transition_world:
  "snd (transition newState iface rssi (m, s)) =
     fold (act (fsm_callbacks m))
       (transition_actions (fsm_config m) (fsm_state m) (activeIface m) newState iface rssi) s"
  by (auto simp: transition_def transition_actions_def Let_def split: option.split)

lemma transition_machine:
  "fst (transition newState iface rssi (m, s)) =
     (if newState = fsm_state m then m
      else m\<lparr>fsm_state := newState,
             activeIface :=
               if newState = PathUp then iface
               else if newState = PathDown \<and> fsm_state m \<in> {PathUp, PathDegraded} then []
               else activeIface m\<rparr>)"
  by (auto simp: transition_def Let_def)

lemma transition_cong:
  assumes "fsm_config m = fsm_config m'" "fsm_state m = fsm_state m'" "activeIface m = activeIface m'"
  shows "fsm_state (fst (transition n i r (m, s))) = fsm_state (fst (transition n i r (m', s')))"
    and "activeIface (fst (transition n i r (m, s))) = activeIface (fst (transition n i r (m', s')))"
  using assms by (auto simp: transition_machine)

lemma transition_keeps [simp]:
  "fsm_config (fst (transition n i r (m, s))) = fsm_config m"
  "fsm_callbacks (fst (transition n i r (m, s))) = fsm_callbacks m"
  by (simp_all add: transition_machine)

lemma fold_act_recording: "fold (act recording) acts log = log @ acts"
proof (induction acts arbitrary: log)
  case (Cons a acts)
  then show ?case by (cases a) (simp_all add: recording_def)
qed simp

text \<open>One event, through \<open>transition\<close>.\<close>

lemma onWpaEvent_world:
  "snd (onWpaEvent ev ms) =
     fold (act (fsm_callbacks (fst ms)))
       (transition_actions (fsm_config (fst ms)) (fsm_state (fst ms)) (activeIface (fst ms))
          (nextState (fsm_state (fst ms)) ev (rssi_cfg (fsm_config (fst ms))))
          (ev_iface ev) (ev_rssi ev)) (snd ms)"
  by (cases ms) (simp add: onWpaEvent_def transition_world)

lemma onWpaEvent_machine:
  "fst (onWpaEvent ev ms) =
     (let m = fst ms; next = nextState (fsm_state m) ev (rssi_cfg (fsm_config m))
      in if next = fsm_state m then m
         else m\<lparr>fsm_state := next,
                activeIface :=
                  if next = PathUp then ev_iface ev
                  else if next = PathDown \<and> fsm_state m \<in> {PathUp, PathDegraded} then []
                  else activeIface m\<rparr>)"
  by (cases ms) (simp add: onWpaEvent_def transition_machine Let_def)

lemma onWpaEvent_state:
  "fsm_state (fst (onWpaEvent ev ms)) =
     nextState (fsm_state (fst ms)) ev (rssi_cfg (fsm_config (fst ms)))"
  by (simp add: onWpaEvent_machine Let_def)

lemma fold_onWpaEvent_config [simp]:
  "fsm_config (fst (fold onWpaEvent evs ms)) = fsm_config (fst ms)"
  by (induction evs arbitrary: ms) (simp_all add: onWpaEvent_machine Let_def)

lemma fold_onWpaEvent_callbacks [simp]:
  "fsm_callbacks (fst (fold onWpaEvent evs ms)) = fsm_callbacks (fst ms)"
  by (induction evs arbitrary: ms) (simp_all add: onWpaEvent_machine Let_def)

lemma fsm_run_config [simp]:
  "fsm_config (fst (fsm_run config evs)) = config"
  "fsm_callbacks (fst (fsm_run config evs)) = recording"
  by (simp_all add: fsm_run_def)

lemma announced_append [simp]: "announced (xs @ ys) = announced xs @ announced ys"
  by (induction xs rule: announced.induct) simp_all

lemma change_chain_append:
  "change_chain s (xs @ ys) u \<longleftrightarrow> (\<exists>t. change_chain s xs t \<and> change_chain t ys u)"
  by (induction s xs u rule: change_chain.induct) auto

lemma route_after_append [simp]: "route_after (xs @ ys) = fold route_step ys (route_after xs)"
  by (simp add: route_after_def)

lemma possible_routes_append [simp]:
  "possible_routes (xs @ ys) = fold routes_step ys (possible_routes xs)"
  by (simp add: possible_routes_def)

text \<open>\<open>Scanning\<close> and \<open>Connecting\<close> are never the result of an event.\<close>

lemma nextState_live:
  "s \<in> {Idle, PathUp, PathDegraded, PathDown} \<Longrightarrow>
     nextState s ev th \<in> {Idle, PathUp, PathDegraded, PathDown}"
  by (auto simp: nextState_def split: WpaEventType.split)

subsection \<open>Invariants\<close>

text \<open>The announcements form a chain from \<open>Idle\<close> to the present state, which is one of the
  four that events lead to; no premise on the events.\<close>

definition chain_inv :: "fsm_action list PathStateFsm \<times> fsm_action list \<Rightarrow> bool" where
  "chain_inv ms \<longleftrightarrow>
     fsm_callbacks (fst ms) = recording \<and>
     fsm_state (fst ms) \<in> {Idle, PathUp, PathDegraded, PathDown} \<and>
     change_chain Idle (announced (snd ms)) (fsm_state (fst ms))"

text \<open>The route in the table is the one through the active interface.\<close>

definition route_inv :: "fsm_action list PathStateFsm \<times> fsm_action list \<Rightarrow> bool" where
  "route_inv ms \<longleftrightarrow>
     fsm_callbacks (fst ms) = recording \<and>
     (fsm_state (fst ms) = PathUp \<longrightarrow> activeIface (fst ms) \<noteq> []) \<and>
     route_after (snd ms) =
       (if activeIface (fst ms) = [] then None else Some (activeIface (fst ms)))"

definition down_inv :: "fsm_action list PathStateFsm \<times> fsm_action list \<Rightarrow> bool" where
  "down_inv ms \<longleftrightarrow>
     route_inv ms \<and> (isDownState (fsm_state (fst ms)) \<longrightarrow> activeIface (fst ms) = [])"

text \<open>With all events of one interface, as a monitor's are, whichever installations have failed.\<close>

definition own_route_inv :: "string \<Rightarrow> fsm_action list PathStateFsm \<times> fsm_action list \<Rightarrow> bool" where
  "own_route_inv i ms \<longleftrightarrow>
     fsm_callbacks (fst ms) = recording \<and> activeIface (fst ms) \<in> {[], i} \<and>
     (fsm_state (fst ms) = PathUp \<longrightarrow> activeIface (fst ms) = i) \<and>
     possible_routes (snd ms) = (if activeIface (fst ms) = [] then {None} else {None, Some i})"

lemma onWpaEvent_recording:
  "fsm_callbacks (fst ms) = recording \<Longrightarrow>
     snd (onWpaEvent ev ms) = snd ms @
       transition_actions (fsm_config (fst ms)) (fsm_state (fst ms)) (activeIface (fst ms))
          (nextState (fsm_state (fst ms)) ev (rssi_cfg (fsm_config (fst ms))))
          (ev_iface ev) (ev_rssi ev)"
  by (simp add: onWpaEvent_world fold_act_recording)

lemma announced_transition_actions:
  "announced (transition_actions config prev active new iface rssi) =
     (if new = prev then [] else [(prev, new)])"
  by (simp add: transition_actions_def)

lemma chain_inv_step: "chain_inv ms \<Longrightarrow> chain_inv (onWpaEvent ev ms)"
  using nextState_live[of "fsm_state (fst ms)" ev "rssi_cfg (fsm_config (fst ms))"]
  by (auto simp: chain_inv_def onWpaEvent_recording onWpaEvent_state announced_transition_actions
      change_chain_append onWpaEvent_machine Let_def)

lemma route_inv_step: "route_inv ms \<Longrightarrow> ev_iface ev \<noteq> [] \<Longrightarrow> route_inv (onWpaEvent ev ms)"
  by (auto simp: route_inv_def onWpaEvent_recording onWpaEvent_machine Let_def
      transition_actions_def)

lemma own_route_step:
  assumes "own_route_inv i ms" and "ev_iface ev = i \<and> i \<noteq> []"
  shows "own_route_inv i (onWpaEvent ev ms)"
  using assms
  by (auto simp: own_route_inv_def onWpaEvent_recording onWpaEvent_machine Let_def
      transition_actions_def)

lemma down_inv_step:
  assumes "down_inv ms" and "ev_iface ev \<noteq> []" and "ev_type ev \<noteq> Terminating"
  shows "down_inv (onWpaEvent ev ms)"
  using assms route_inv_step[of ms ev]
  by (cases "fsm_state (fst ms)") (auto simp: down_inv_def onWpaEvent_machine Let_def isDownState_def nextState_def
      split: WpaEventType.splits if_splits)

interpretation announcing: event_machine onWpaEvent "\<lambda>ev. True" chain_inv
  by unfold_locales (rule chain_inv_step)

interpretation routing: event_machine onWpaEvent "\<lambda>ev. ev_iface ev \<noteq> []" route_inv
  by unfold_locales (rule route_inv_step)

interpretation owning: event_machine onWpaEvent "\<lambda>ev. ev_iface ev = i \<and> i \<noteq> []" "own_route_inv i" for i
  by unfold_locales (rule own_route_step)

interpretation running: event_machine onWpaEvent
  "\<lambda>ev. ev_iface ev \<noteq> [] \<and> ev_type ev \<noteq> Terminating" down_inv
  by unfold_locales (simp add: down_inv_step)

lemma fresh_invs:
  "chain_inv (new_fsm config recording, [])" "route_inv (new_fsm config recording, [])"
  "down_inv (new_fsm config recording, [])" "own_route_inv i (new_fsm config recording, [])"
  by (simp_all add: own_route_inv_def possible_routes_def down_inv_def chain_inv_def route_inv_def route_after_def)

lemma fsm_run_chain: "chain_inv (fsm_run config evs)"
  unfolding fsm_run_def by (rule announcing.run_inv) (simp_all add: fresh_invs list_all_iff)

lemma fsm_run_route: "list_all (\<lambda>ev. ev_iface ev \<noteq> []) evs \<Longrightarrow> route_inv (fsm_run config evs)"
  unfolding fsm_run_def by (rule routing.run_inv) (simp_all add: fresh_invs)

lemma fsm_run_append: "fsm_run config (evs @ more_evs) = fold onWpaEvent more_evs (fsm_run config evs)"
  by (simp add: fsm_run_def)

subsection \<open>Route actions and announcements\<close>

text \<open>Every route action is followed at once by the announcement of the change it belongs to,
  and a path is never announced up without a route action before it.\<close>

fun actions_announced :: "fsm_action list \<Rightarrow> bool" where
  "actions_announced [] \<longleftrightarrow> True"
| "actions_announced (RouteUp i t # StateChanged from to i' r # log) \<longleftrightarrow>
     to = PathUp \<and> i = i' \<and> actions_announced log"
| "actions_announced (RouteDown i t # StateChanged from to i' r # log) \<longleftrightarrow>
     to = PathDown \<and> from \<in> {PathUp, PathDegraded} \<and> actions_announced log"
| "actions_announced (StateChanged from to i r # log) \<longleftrightarrow> to \<noteq> PathUp \<and> actions_announced log"
| "actions_announced (_ # log) \<longleftrightarrow> False"

lemma actions_announced_append:
  "actions_announced xs \<Longrightarrow> actions_announced (xs @ ys) \<longleftrightarrow> actions_announced ys"
  by (induction xs rule: actions_announced.induct) auto

lemma actions_announced_transition:
  "actions_announced (transition_actions config prev active new iface rssi)"
  by (simp add: transition_actions_def)

definition log_inv :: "fsm_action list PathStateFsm \<times> fsm_action list \<Rightarrow> bool" where
  "log_inv ms \<longleftrightarrow> fsm_callbacks (fst ms) = recording \<and> actions_announced (snd ms)"

interpretation logging: event_machine onWpaEvent "\<lambda>ev. True" log_inv
  by unfold_locales
    (auto simp: log_inv_def onWpaEvent_recording actions_announced_append
      actions_announced_transition onWpaEvent_machine Let_def)

text \<open>The machine's own state does not depend on the world its callbacks act on, and with any
  callbacks the effect is that of the logged actions.\<close>

lemma fold_onWpaEvent_machine:
  "fst (fold onWpaEvent evs (m, s)) = fst (fold onWpaEvent evs (m, s'))"
proof (induction evs arbitrary: m s s')
  case (Cons ev evs)
  have same: "fst (onWpaEvent ev (m, s)) = fst (onWpaEvent ev (m, s'))"
    by (simp add: onWpaEvent_machine)
  show ?case
    using Cons[of "fst (onWpaEvent ev (m, s))" "snd (onWpaEvent ev (m, s))" "snd (onWpaEvent ev (m, s'))"]
    by (metis same fold_simps(2) prod.collapse)
qed simp

lemma log_simulation:
  "fsm_state (fst (fold onWpaEvent evs (new_fsm config cb, s))) =
     fsm_state (fst (fsm_run config evs)) \<and>
   activeIface (fst (fold onWpaEvent evs (new_fsm config cb, s))) =
     activeIface (fst (fsm_run config evs)) \<and>
   snd (fold onWpaEvent evs (new_fsm config cb, s)) = fold (act cb) (snd (fsm_run config evs)) s"
proof (induction evs rule: rev_induct)
  case Nil
  then show ?case by (simp add: fsm_run_def)
next
  case (snoc ev evs)
  then show ?case
    by (auto simp: fsm_run_append onWpaEvent_machine onWpaEvent_world Let_def
        fold_act_recording)
qed

subsection \<open>Properties\<close>

text \<open>C18: whatever events have come, the machine answers the next one as the documented
  transition table says: with thresholds in order at most one row applies, the new state is
  the one of that row, and with no row the state stays.\<close>

theorem fsm_follows_table:
  assumes "drop_at (rssi_cfg config) \<le> warn (rssi_cfg config)"
  shows "let before = fsm_state (fst (fsm_run config evs));
             after = fsm_state (fst (fsm_run config (evs @ [ev])));
             rows = applicable before ev (rssi_cfg config)
         in rows = [after] \<or> (rows = [] \<and> after = before)"
proof -
  have "fsm_state (fst (fsm_run config evs)) \<in> {Idle, PathUp, PathDegraded, PathDown}"
    using fsm_run_chain[of config evs] unfolding chain_inv_def by blast
  moreover have "fsm_state (fst (fsm_run config (evs @ [ev]))) =
      nextState (fsm_state (fst (fsm_run config evs))) ev (rssi_cfg config)"
    by (simp add: fsm_run_append onWpaEvent_state)
  ultimately show ?thesis
    using assms
    by (auto simp: Let_def applicable_def table_rows_def nextState_def isDownState_def
        split: WpaEventType.split)
qed

definition wpa_ev :: "WpaEventType \<Rightarrow> string \<Rightarrow> int \<Rightarrow> WpaEvent" where
  "wpa_ev t iface r =
     \<lparr>ev_type = t, ev_raw = [], ev_iface = iface, ev_rssi = r, ev_avgRssi = r\<rparr>"

lemma wpa_ev_sel [simp]:
  "ev_type (wpa_ev t i r) = t" "ev_iface (wpa_ev t i r) = i" "ev_rssi (wpa_ev t i r) = r"
  by (simp_all add: wpa_ev_def)

theorem fsm_follows_table_witness:
  "applicable PathUp (wpa_ev SignalChange ''wlan0'' (-80)) default_rssi = [PathDegraded] \<and>
   fsm_state (fst (fsm_run empty_config
     [wpa_ev Connected ''wlan0'' (-60), wpa_ev SignalChange ''wlan0'' (-80)])) = PathDegraded"
  using fsm_follows_table[of empty_config "[wpa_ev Connected ''wlan0'' (-60)]"
      "wpa_ev SignalChange ''wlan0'' (-80)"]
  by (simp add: empty_config_def default_rssi_def fsm_run_def onWpaEvent_state
      onWpaEvent_machine nextState_def isDownState_def applicable_def table_rows_def)

text \<open>C19: on the events of one interface, as a monitor passes them, in a table that begins without a
  default route, and whichever of the installations that \<^verbatim>\<open>onPathUp\<close> is asked for are not made,
  provided that the removals are, the class's table has at no moment a default route unless the
  machine has an active interface, and then at most one through that interface, which is the
  one that was last asked for; a path that is up has an active interface.\<close>

theorem fsm_route_is_active_iface:
  assumes "list_all (\<lambda>ev. ev_iface ev = i) evs" and "i \<noteq> []"
  shows "possible_routes (snd (fsm_run config evs)) =
      (if activeIface (fst (fsm_run config evs)) = [] then {None}
       else {None, Some (activeIface (fst (fsm_run config evs)))}) \<and>
    route_after (snd (fsm_run config evs)) =
      (if activeIface (fst (fsm_run config evs)) = [] then None
       else Some (activeIface (fst (fsm_run config evs)))) \<and>
    (fsm_state (fst (fsm_run config evs)) = PathUp \<longrightarrow>
      activeIface (fst (fsm_run config evs)) = i)"
proof -
  have "own_route_inv i (fsm_run config evs)"
    unfolding fsm_run_def
    by (rule owning.run_inv) (use assms in \<open>simp_all add: fresh_invs list_all_iff\<close>)
  moreover have "list_all (\<lambda>ev. ev_iface ev \<noteq> []) evs"
    using assms by (auto simp: list_all_iff)
  ultimately show ?thesis
    using fsm_run_route[of evs config] by (auto simp: own_route_inv_def route_inv_def)
qed

theorem fsm_route_is_active_iface_witness:
  "possible_routes (snd (fsm_run empty_config [wpa_ev Connected ''wlan0'' 0])) = {None, Some ''wlan0''}"
  using fsm_route_is_active_iface[of "''wlan0''" "[wpa_ev Connected ''wlan0'' 0]" empty_config]
  by (simp add: empty_config_def default_rssi_def fsm_run_def onWpaEvent_state
      onWpaEvent_machine nextState_def isDownState_def)

text \<open>As long as no supplicant terminates, a path that is not up or degraded has no
  default route left in its table.\<close>

theorem fsm_down_has_no_route:
  assumes "list_all (\<lambda>ev. ev_iface ev \<noteq> [] \<and> ev_type ev \<noteq> Terminating) evs"
    and "isDownState (fsm_state (fst (fsm_run config evs)))"
  shows "route_after (snd (fsm_run config evs)) = None"
proof -
  have "down_inv (fsm_run config evs)"
    unfolding fsm_run_def using assms(1) fresh_invs(3) by (rule running.run_inv[rotated])
  with assms(2) show ?thesis
    by (simp add: down_inv_def route_inv_def)
qed

theorem fsm_down_has_no_route_witness:
  "route_after (snd (fsm_run empty_config
     [wpa_ev Connected ''wlan0'' 0, wpa_ev Disconnected ''wlan0'' 0])) = None"
  by (rule fsm_down_has_no_route)
    (simp_all add: fsm_run_def onWpaEvent_state nextState_def isDownState_def)

text \<open>C20: a supplicant that terminates while the path is up leaves the route installed in the
  idle state, and not even the disconnect that follows removes it.\<close>

theorem fsm_terminating_keeps_route:
  assumes "list_all (\<lambda>ev. ev_iface ev \<noteq> []) evs"
    and "fsm_state (fst (fsm_run config evs)) = PathUp"
    and "ev_type stop = Terminating" and "ev_type gone = Disconnected"
  shows "fsm_state (fst (fsm_run config (evs @ [stop]))) = Idle \<and>
    fsm_state (fst (fsm_run config (evs @ [stop, gone]))) = PathDown \<and>
    route_after (snd (fsm_run config (evs @ [stop, gone]))) =
      Some (activeIface (fst (fsm_run config evs)))"
  using fsm_run_route[OF assms(1), of config] assms(2-)
  by (simp add: fsm_run_append onWpaEvent_recording onWpaEvent_machine nextState_def Let_def
      transition_actions_def route_inv_def)

theorem fsm_terminating_keeps_route_witness:
  "route_after (snd (fsm_run empty_config ([wpa_ev Connected ''wlan0'' 0] @
     [wpa_ev Terminating ''wlan0'' 0, wpa_ev Disconnected ''wlan0'' 0]))) = Some ''wlan0''"
  using fsm_terminating_keeps_route[of "[wpa_ev Connected ''wlan0'' 0]" empty_config
      "wpa_ev Terminating ''wlan0'' 0" "wpa_ev Disconnected ''wlan0'' 0"]
  by (simp add: empty_config_def default_rssi_def fsm_run_def onWpaEvent_state
      onWpaEvent_machine nextState_def isDownState_def)

text \<open>For every sequence of events the announced changes form a chain from \<open>Idle\<close> to the
  present state without idle steps, no event leads to \<open>Scanning\<close> or \<open>Connecting\<close>, and every
  route action is followed at once by its announcement.\<close>

theorem fsm_changes_announced:
  "change_chain Idle (announced (snd (fsm_run config evs))) (fsm_state (fst (fsm_run config evs))) \<and>
   fsm_state (fst (fsm_run config evs)) \<in> {Idle, PathUp, PathDegraded, PathDown} \<and>
   actions_announced (snd (fsm_run config evs))"
proof -
  have "log_inv (new_fsm config recording, [])"
    by (simp add: log_inv_def)
  then have "log_inv (fsm_run config evs)"
    unfolding fsm_run_def by (rule logging.run_inv) (simp add: list_all_iff)
  then show ?thesis
    using fsm_run_chain[of config evs] by (simp add: chain_inv_def log_inv_def)
qed

text \<open>With any callbacks on any state, present or missing, the machine goes through the
  same states, and its effect is that of the logged actions carried out in order.\<close>

theorem fsm_simulates_log:
  "fsm_state (fst (fold onWpaEvent evs (new_fsm config cb, s))) =
     fsm_state (fst (fsm_run config evs)) \<and>
   activeIface (fst (fold onWpaEvent evs (new_fsm config cb, s))) =
     activeIface (fst (fsm_run config evs)) \<and>
   snd (fold onWpaEvent evs (new_fsm config cb, s)) = fold (act cb) (snd (fsm_run config evs)) s"
  by (rule log_simulation)

text \<open>Two signal reports below both thresholds in a row take a path that is up down, and
  the second one removes its route.\<close>

theorem fsm_weak_signal_takes_down:
  assumes "list_all (\<lambda>ev. ev_iface ev \<noteq> []) evs"
    and "fsm_state (fst (fsm_run config evs)) = PathUp"
    and "ev_type e1 = SignalChange \<and> ev_rssi e1 < warn (rssi_cfg config)"
    and "ev_type e2 = SignalChange \<and> ev_rssi e2 < warn (rssi_cfg config) \<and>
         ev_rssi e2 < drop_at (rssi_cfg config)"
  shows "snd (fsm_run config (evs @ [e1, e2])) = snd (fsm_run config evs) @
      [StateChanged PathUp PathDegraded (ev_iface e1) (ev_rssi e1),
       RouteDown (activeIface (fst (fsm_run config evs))) (routingTable config),
       StateChanged PathDegraded PathDown (ev_iface e2) (ev_rssi e2)]"
  using fsm_run_route[OF assms(1), of config] assms(2-)
  by (simp add: fsm_run_append onWpaEvent_recording onWpaEvent_machine nextState_def Let_def
      transition_actions_def route_inv_def)

theorem fsm_weak_signal_takes_down_witness:
  "snd (fsm_run empty_config ([wpa_ev Connected ''wlan0'' 0] @
     [wpa_ev SignalChange ''wlan0'' (-90), wpa_ev SignalChange ''wlan0'' (-90)])) =
   [RouteUp ''wlan0'' 0, StateChanged Idle PathUp ''wlan0'' 0,
    StateChanged PathUp PathDegraded ''wlan0'' (-90), RouteDown ''wlan0'' 0,
    StateChanged PathDegraded PathDown ''wlan0'' (-90)]"
  by (subst fsm_weak_signal_takes_down)
    (simp_all add: empty_config_def default_rssi_def fsm_run_def onWpaEvent_recording
      onWpaEvent_machine nextState_def isDownState_def transition_actions_def)

end
