(* ===== verification/Api_Wire.thy ===== *)
theory Api_Wire
  imports Syscalls Number_Text
begin

text \<open>
  The wire protocol of the consumer API (\<^verbatim>\<open>api/consumer_api_server.hpp\<close>): the fixed 96-byte
  message, its bytes, and the loops that send and receive one (\<^verbatim>\<open>sendMsg\<close>, \<^verbatim>\<open>trySendMsg\<close>,
  \<^verbatim>\<open>recvMsg\<close> of \<^verbatim>\<open>consumer_api_server.cpp\<close>). Integers are in host byte order, which is the
  little-endian one of the target; both ends run on the same host. \<^verbatim>\<open>int32_t\<close> fields are
  words, read with \<open>sint\<close>.
\<close>

named_theorems codec_rules "decoding undoes encoding, field by field"

subsection \<open>Message\<close>

datatype MsgType = Register | RegisterAck | Unregister | UnregisterAck | QueryCurrent
  | QueryAck | PathEvent

fun MsgType_code :: "MsgType \<Rightarrow> u32" where
  "MsgType_code Register = 1"
| "MsgType_code RegisterAck = 2"
| "MsgType_code Unregister = 3"
| "MsgType_code UnregisterAck = 4"
| "MsgType_code QueryCurrent = 5"
| "MsgType_code QueryAck = 6"
| "MsgType_code PathEvent = 7"

text \<open>The cast back, as the \<^verbatim>\<open>switch\<close> over it sees it.\<close>

definition MsgType_of_code :: "u32 \<Rightarrow> MsgType option" where
  "MsgType_of_code c =
     (if c = 1 then Some Register else if c = 2 then Some RegisterAck
      else if c = 3 then Some Unregister else if c = 4 then Some UnregisterAck
      else if c = 5 then Some QueryCurrent else if c = 6 then Some QueryAck
      else if c = 7 then Some PathEvent else None)"

record ApiMsg =
  msg_type :: u32
  msg_error :: u32
  msg_handle :: u64
  msg_pid :: u32
  msg_rssi :: u32
  msg_state :: u32
  msg_pad :: u32
  msg_classId :: string
  msg_iface :: string

definition NUL :: char where "NUL = CHR 0x00"

definition zero_msg :: ApiMsg where
  "zero_msg = \<lparr>msg_type = 0, msg_error = 0, msg_handle = 0, msg_pid = 0, msg_rssi = 0,
     msg_state = 0, msg_pad = 0, msg_classId = replicate 32 NUL, msg_iface = replicate 32 NUL\<rparr>"

text \<open>The character buffers of a message are arrays of 32 bytes.\<close>

definition wf_msg :: "ApiMsg \<Rightarrow> bool" where
  "wf_msg m \<longleftrightarrow> length (msg_classId m) = 32 \<and> length (msg_iface m) = 32"

text \<open>\<^verbatim>\<open>strncpy(buf, s, sizeof(buf) - 1)\<close> into a zeroed buffer, and the string
  \<^verbatim>\<open>{buf, strnlen(buf, sizeof(buf))}\<close> read from one.\<close>

definition c_str :: "string \<Rightarrow> string" where
  "c_str s = takeWhile (\<lambda>c. c \<noteq> NUL) s"

definition put_text :: "string \<Rightarrow> string" where
  "put_text s = (let t = take 31 (c_str s) in t @ replicate (32 - length t) NUL)"

definition get_text :: "string \<Rightarrow> string" where
  "get_text buf = takeWhile (\<lambda>c. c \<noteq> NUL) (take 32 buf)"

subsection \<open>Bytes\<close>

definition encode_msg :: "ApiMsg \<Rightarrow> string" where
  "encode_msg m =
     u32_bytes (msg_type m) @ u32_bytes (msg_error m) @ u64_bytes (msg_handle m) @
     u32_bytes (msg_pid m) @ u32_bytes (msg_rssi m) @ u32_bytes (msg_state m) @
     u32_bytes (msg_pad m) @ msg_classId m @ msg_iface m"

definition decode_msg :: "string \<Rightarrow> ApiMsg" where
  "decode_msg s =
     \<lparr>msg_type = u32_of_bytes (slice 0 4 s), msg_error = u32_of_bytes (slice 4 4 s),
      msg_handle = u64_of_bytes (slice 8 8 s), msg_pid = u32_of_bytes (slice 16 4 s),
      msg_rssi = u32_of_bytes (slice 20 4 s), msg_state = u32_of_bytes (slice 24 4 s),
      msg_pad = u32_of_bytes (slice 28 4 s), msg_classId = slice 32 32 s,
      msg_iface = slice 64 32 s\<rparr>"

subsection \<open>The message as a field\<close>

text \<open>The character buffers are copied as they are.\<close>

interpretation buffer_field: field_codec "\<lambda>s. s" "\<lambda>s. s" 32 "\<lambda>s. length s = 32"
  by unfold_locales simp_all

interpretation msg_field: field_codec encode_msg decode_msg 96 wf_msg
proof
  fix m :: ApiMsg and s :: string
  note lens = u32_field.enc_length[OF TrueI] u64_field.enc_length[OF TrueI]
  show "wf_msg m \<Longrightarrow> length (encode_msg m) = 96"
    by (simp add: encode_msg_def wf_msg_def lens)
  show "wf_msg m \<Longrightarrow> decode_msg (encode_msg m) = m"
    by (simp add: decode_msg_def encode_msg_def slice_def wf_msg_def lens
        u32_field.dec_enc u64_field.dec_enc)
  assume s: "length s = 96"
  have cut: "drop a s = slice a n s @ drop (a + n) s" for a n
    by (simp add: slice_def flip: drop_drop) (metis add.commute append_take_drop_id drop_drop)
  have "s = slice 0 4 s @ slice 4 4 s @ slice 8 8 s @ slice 16 4 s @ slice 20 4 s @
      slice 24 4 s @ slice 28 4 s @ slice 32 32 s @ slice 64 32 s"
    using cut[of 0 4] cut[of 4 4] cut[of 8 8] cut[of 16 4] cut[of 20 4] cut[of 24 4]
      cut[of 28 4] cut[of 32 32] cut[of 64 32] s by simp
  then show "encode_msg (decode_msg s) = s \<and> wf_msg (decode_msg s)"
    using s by (simp add: encode_msg_def decode_msg_def wf_msg_def u32_field.field_back
        u64_field.field_back) (simp add: slice_def)
qed

subsection \<open>Sending and receiving\<close>

text \<open>
  \<^verbatim>\<open>trySendMsg\<close>: the bytes still to go are offered until all are taken or a call fails.
  \<^verbatim>\<open>send\<close> takes at most what it is offered.
\<close>

function send_loop :: "env \<Rightarrow> int \<Rightarrow> string \<Rightarrow> bool os" where
  "send_loop env fd p =
     (if p = [] then return True
      else do {
        a \<leftarrow> perform env (Sock (SockSend fd p));
        (if rc a \<le> 0 then return False else send_loop env fd (drop (nat (rc a)) p)) })"
  by pat_completeness auto
termination
  by (relation "measure (\<lambda>(env, fd, p). length p)") auto

declare send_loop.simps [simp del]

definition trySendMsg :: "env \<Rightarrow> int \<Rightarrow> ApiMsg \<Rightarrow> bool os" where
  "trySendMsg env fd msg = send_loop env fd (encode_msg msg)"

definition sendMsg :: "env \<Rightarrow> int \<Rightarrow> ApiMsg \<Rightarrow> unit os" where
  "sendMsg env fd msg = do { _ \<leftarrow> send_loop env fd (encode_msg msg); return () }"

text \<open>\<^verbatim>\<open>recvMsg\<close>: the bytes of each answer are put behind those received so far.\<close>

function recv_loop :: "env \<Rightarrow> int \<Rightarrow> nat \<Rightarrow> string \<Rightarrow> string option os" where
  "recv_loop env fd rem got =
     (if rem = 0 then return (Some got)
      else do {
        a \<leftarrow> perform env (Sock (SockRecv fd rem));
        (if rc a \<le> 0 then return None
         else recv_loop env fd (rem - nat (rc a)) (got @ take (nat (rc a)) (content a))) })"
  by pat_completeness auto
termination
  by (relation "measure (\<lambda>(env, fd, rem, got). rem)") auto

declare recv_loop.simps [simp del]

definition recvMsg :: "env \<Rightarrow> int \<Rightarrow> ApiMsg option os" where
  "recvMsg env fd =
     do { r \<leftarrow> recv_loop env fd 96 []; return (map_option decode_msg r) }"

lemma extends_send_loop [extends_rules]: "extends (send_loop env fd p)"
proof (induction env fd p rule: send_loop.induct)
  case (1 env fd p)
  show ?case
  proof (cases "p = []")
    case False
    have "extends (if rc a \<le> 0 then return False else send_loop env fd (drop (nat (rc a)) p))" for a :: answer
      using 1 False by (cases "rc a \<le> 0") simp_all
    with False show ?thesis
      by (subst send_loop.simps) (simp add: extends_bind)
  qed (simp add: send_loop.simps)
qed

lemma extends_trySendMsg [extends_rules]: "extends (trySendMsg env fd msg)"
  unfolding trySendMsg_def by (intro extends_rules)

lemma extends_sendMsg [extends_rules]: "extends (sendMsg env fd msg)"
  unfolding sendMsg_def by (intro extends_rules)

lemma extends_recv_loop [extends_rules]: "extends (recv_loop env fd rem got)"
proof (induction env fd rem got rule: recv_loop.induct)
  case (1 env fd rem got)
  show ?case
  proof (cases "rem = 0")
    case False
    have "extends (if rc a \<le> 0 then return None
        else recv_loop env fd (rem - nat (rc a)) (got @ take (nat (rc a)) (content a)))" for a :: answer
      using 1 False by (cases "rc a \<le> 0") simp_all
    with False show ?thesis
      by (subst recv_loop.simps) (simp add: extends_bind)
  qed (simp add: recv_loop.simps)
qed

lemma extends_recvMsg [extends_rules]: "extends (recvMsg env fd)"
  unfolding recvMsg_def by (intro extends_rules)

lemma send_loop_run:
  "outcome (send_loop env fd p) h =
     (p = [] \<or> rc (env h (Sock (SockSend fd p))) > 0 \<and>
        outcome (send_loop env fd (drop (nat (rc (env h (Sock (SockSend fd p))))) p))
          (h @ [Sock (SockSend fd p)]))"
  "calls (send_loop env fd p) h =
     (if p = [] then []
      else Sock (SockSend fd p) #
        (if rc (env h (Sock (SockSend fd p))) \<le> 0 then []
         else calls (send_loop env fd (drop (nat (rc (env h (Sock (SockSend fd p))))) p))
           (h @ [Sock (SockSend fd p)])))"
  by (subst send_loop.simps, simp add: run_simps extends_rules not_le)+

lemma recv_loop_run:
  "outcome (recv_loop env fd rem got) h =
     (if rem = 0 then Some got
      else let a = env h (Sock (SockRecv fd rem))
        in if rc a \<le> 0 then None
           else outcome (recv_loop env fd (rem - nat (rc a)) (got @ take (nat (rc a)) (content a)))
             (h @ [Sock (SockRecv fd rem)]))"
  "calls (recv_loop env fd rem got) h =
     (if rem = 0 then []
      else let a = env h (Sock (SockRecv fd rem))
        in Sock (SockRecv fd rem) #
           (if rc a \<le> 0 then []
            else calls (recv_loop env fd (rem - nat (rc a)) (got @ take (nat (rc a)) (content a)))
              (h @ [Sock (SockRecv fd rem)])))"
  by (subst recv_loop.simps, simp add: run_simps extends_rules Let_def)+

text \<open>The bytes one exchange moved: those a \<^verbatim>\<open>send\<close> took of what it was offered, and those a
  \<^verbatim>\<open>recv\<close> delivered.\<close>

fun bytes_sent :: "call \<times> answer \<Rightarrow> string" where
  "bytes_sent (Sock (SockSend fd p), a) = take (nat (rc a)) p"
| "bytes_sent _ = []"

fun bytes_received :: "call \<times> answer \<Rightarrow> string" where
  "bytes_received (Sock (SockRecv fd n), a) = take (nat (rc a)) (content a)"
| "bytes_received _ = []"

definition sent :: "env \<Rightarrow> call list \<Rightarrow> call list \<Rightarrow> string" where
  "sent env h cs = concat (map bytes_sent (exchanges env h cs))"

definition received :: "env \<Rightarrow> call list \<Rightarrow> call list \<Rightarrow> string" where
  "received env h cs = concat (map bytes_received (exchanges env h cs))"

text \<open>What \<^verbatim>\<open>recv(2)\<close> promises: at most the bytes asked for, and as many as it says.\<close>

definition recv_contract :: "env \<Rightarrow> bool" where
  "recv_contract env \<longleftrightarrow>
     (\<forall>h fd n. let a = env h (Sock (SockRecv fd n))
        in rc a \<le> int n \<and> length (content a) = nat (rc a))"

lemma sent_Cons: "sent env h (c # cs) = bytes_sent (c, env h c) @ sent env (h @ [c]) cs"
  by (simp add: sent_def)

lemma received_Cons:
  "received env h (c # cs) = bytes_received (c, env h c) @ received env (h @ [c]) cs"
  by (simp add: received_def)

lemma send_loop_sent:
  "prefix (sent env h (calls (send_loop env fd p) h)) p \<and>
   (outcome (send_loop env fd p) h \<longleftrightarrow> sent env h (calls (send_loop env fd p) h) = p)"
proof (induction env fd p arbitrary: h rule: send_loop.induct)
  case (1 env fd p)
  let ?a = "env h (Sock (SockSend fd p))"
  let ?k = "nat (rc ?a)"
  show ?case
  proof (cases "p = [] \<or> rc ?a \<le> 0")
    case True
    then show ?thesis
      by (auto simp: send_loop_run[of env fd p] sent_def)
  next
    case False
    have "take ?k p @ xs = p \<longleftrightarrow> xs = drop ?k p" for xs
      by (metis append_take_drop_id same_append_eq)
    moreover have "prefix (take ?k p @ xs) p \<longleftrightarrow> prefix xs (drop ?k p)" for xs
      by (metis append_take_drop_id same_prefix_prefix)
    ultimately show ?thesis
      using False 1[of ?a "h @ [Sock (SockSend fd p)]"]
      by (simp add: send_loop_run[of env fd p] sent_Cons)
  qed
qed

lemma recv_loop_received:
  assumes "recv_contract env"
  shows "(case outcome (recv_loop env fd rem got) h of
       Some s \<Rightarrow> s = got @ received env h (calls (recv_loop env fd rem got) h) \<and>
               length s = length got + rem
     | None \<Rightarrow> length (received env h (calls (recv_loop env fd rem got) h)) < rem)"
  using assms
proof (induction env fd rem got arbitrary: h rule: recv_loop.induct)
  case (1 env fd rem got)
  let ?a = "env h (Sock (SockRecv fd rem))"
  have a: "rc ?a \<le> int rem" "length (content ?a) = nat (rc ?a)"
    using 1(2) unfolding recv_contract_def Let_def by blast+
  show ?case
  proof (cases "rem = 0 \<or> rc ?a \<le> 0")
    case True
    show ?thesis
    proof (cases "rem = 0")
      case True
      then show ?thesis by (simp add: recv_loop_run received_def)
    next
      case False
      with True show ?thesis by (simp add: recv_loop_run received_Cons) (simp add: received_def)
    qed
  next
    case False
    then show ?thesis
      using 1(1)[of ?a "h @ [Sock (SockRecv fd rem)]"] 1(2) a
      by (auto simp: recv_loop_run[of env fd rem] received_Cons Let_def split: option.splits)
  qed
qed

text \<open>A message that is taken in one piece.\<close>

lemma send_loop_once:
  assumes "p \<noteq> []" and "rc (env h (Sock (SockSend fd p))) = int (length p)"
  shows "outcome (send_loop env fd p) h" and "calls (send_loop env fd p) h = [Sock (SockSend fd p)]"
proof -
  have "send_loop env fd [] = return True"
    by (simp add: send_loop.simps)
  with assms show "outcome (send_loop env fd p) h"
    and "calls (send_loop env fd p) h = [Sock (SockSend fd p)]"
    by (simp_all add: send_loop_run[of env fd p h])
qed

text \<open>A message whose first piece is refused.\<close>

lemma send_loop_refused:
  assumes "p \<noteq> []" and "rc (env h (Sock (SockSend fd p))) \<le> 0"
  shows "\<not> outcome (send_loop env fd p) h" and "calls (send_loop env fd p) h = [Sock (SockSend fd p)]"
  using assms by (simp_all add: send_loop_run[of env fd p h])

lemma encode_nonempty: "encode_msg m \<noteq> []"
  by (simp add: encode_msg_def u32_bytes_def)

lemma put_text_length [simp]: "length (put_text s) = 32"
  by (simp add: put_text_def Let_def)

lemma wf_zero_msg [simp]: "wf_msg zero_msg"
  by (simp add: wf_msg_def zero_msg_def)

lemma get_put_text: "get_text (put_text s) = take 31 (c_str s)"
proof -
  have "\<forall>c \<in> set (take 31 (c_str s)). c \<noteq> NUL"
    by (auto simp: c_str_def dest!: in_set_takeD set_takeWhileD)
  then have "takeWhile (\<lambda>c. c \<noteq> NUL) (put_text s) = take 31 (c_str s)"
    by (auto simp: put_text_def Let_def takeWhile_append takeWhile_eq_Nil_iff)
  then show ?thesis
    by (simp add: get_text_def)
qed

lemma c_str_id [simp]: "NUL \<notin> set s \<Longrightarrow> c_str s = s"
  by (auto simp: c_str_def takeWhile_eq_all_conv)

lemma MsgType_of_code_code [simp]: "MsgType_of_code (MsgType_code t) = Some t"
  by (cases t) (simp_all add: MsgType_of_code_def)

lemma MsgType_of_code_num [simp]:
  "MsgType_of_code 1 = Some Register" "MsgType_of_code 3 = Some Unregister"
  "MsgType_of_code 5 = Some QueryCurrent"
  by (simp_all add: MsgType_of_code_def)

subsection \<open>Properties\<close>

text \<open>Every message is 96 bytes long and is read back from its bytes, and every 96 bytes
  are the bytes of the message they decode to.\<close>

theorem message_bytes_bijective:
  assumes "wf_msg m" and "length s = 96"
  shows "length (encode_msg m) = 96 \<and> decode_msg (encode_msg m) = m \<and>
    encode_msg (decode_msg s) = s \<and> wf_msg (decode_msg s)"
  using assms by (simp add: msg_field.enc_length msg_field.dec_enc msg_field.enc_dec)

theorem message_bytes_bijective_witness:
  "decode_msg (encode_msg (zero_msg\<lparr>msg_type := 1, msg_handle := 258\<rparr>)) =
     zero_msg\<lparr>msg_type := 1, msg_handle := 258\<rparr>"
  using message_bytes_bijective[of "zero_msg\<lparr>msg_type := 1, msg_handle := 258\<rparr>" "replicate 96 NUL"]
  by (simp add: wf_msg_def zero_msg_def)

text \<open>Whatever the kernel does, the bytes handed to it are an initial part of the message,
  in order and without repetition, and the sender reports success exactly when they are the
  whole message.\<close>

theorem send_is_prefix:
  "prefix (sent env h (calls (trySendMsg env fd m) h)) (encode_msg m) \<and>
   (outcome (trySendMsg env fd m) h \<longleftrightarrow>
      sent env h (calls (trySendMsg env fd m) h) = encode_msg m)"
  unfolding trySendMsg_def by (rule send_loop_sent)

text \<open>A message is received exactly when 96 bytes arrive, in however many pieces, and it is
  the one those bytes encode; fewer bytes are no message.\<close>

theorem recv_reassembles:
  assumes "recv_contract env"
  shows "case outcome (recvMsg env fd) h of
      Some m \<Rightarrow> encode_msg m = received env h (calls (recvMsg env fd) h) \<and> wf_msg m
    | None \<Rightarrow> length (received env h (calls (recvMsg env fd) h)) < 96"
  using recv_loop_received[OF assms, where fd = fd and rem = 96 and got = "[]" and h = h]
  by (auto simp: recvMsg_def run_simps extends_rules msg_field.enc_dec split: option.splits)

text \<open>A kernel that delivers a message of 96 zero bytes in pieces of at most 40.\<close>

definition chunked :: env where
  "chunked h c =
     (case c of Sock (SockRecv fd n) \<Rightarrow>
        (reply (int (min n 40)) EAGAIN)\<lparr>content := replicate (min n 40) NUL\<rparr>
      | _ \<Rightarrow> reply 0 EAGAIN)"

theorem recv_reassembles_witness:
  "\<exists>m. outcome (recvMsg chunked 7) [] = Some m \<and>
     encode_msg m = received chunked [] (calls (recvMsg chunked 7) [])"
proof -
  have "recv_contract chunked"
    by (simp add: recv_contract_def chunked_def Let_def)
  moreover have "outcome (recvMsg chunked 7) [] \<noteq> None"
    by (simp add: recvMsg_def run_simps extends_rules recv_loop_run Let_def chunked_def)
  ultimately show ?thesis
    using recv_reassembles[where env = chunked and fd = 7 and h = "[]"] by (auto split: option.splits)
qed

text \<open>A message that a sender got out completely and a receiver took in completely, over
  any splitting of the bytes on either side, is the same message.\<close>

theorem message_delivered:
  assumes "recv_contract env" and "wf_msg m"
    and "outcome (trySendMsg env' fd' m) h'"
    and "outcome (recvMsg env fd) h = Some r"
    and "received env h (calls (recvMsg env fd) h) = sent env' h' (calls (trySendMsg env' fd' m) h')"
  shows "r = m"
proof -
  have "sent env' h' (calls (trySendMsg env' fd' m) h') = encode_msg m"
    using assms(3) send_loop_sent[where env = env' and h = h' and fd = fd' and p = "encode_msg m"] by (simp add: trySendMsg_def)
  moreover have "received env h (calls (recvMsg env fd) h) = encode_msg r \<and> wf_msg r"
    using recv_loop_received[OF assms(1), where fd = fd and rem = 96 and got = "[]" and h = h] assms(4)
    by (auto simp: recvMsg_def run_simps extends_rules msg_field.enc_dec split: option.splits)
  ultimately have "encode_msg r = encode_msg m" and "wf_msg r"
    using assms(5) by simp_all
  then show ?thesis
    using assms(2) msg_field.dec_enc by metis
qed

text \<open>A kernel that takes everything it is offered.\<close>

definition accepting :: env where
  "accepting h c = (case c of Sock (SockSend fd p) \<Rightarrow> reply (int (length p)) EAGAIN
                    | _ \<Rightarrow> reply 0 EAGAIN)"

theorem message_delivered_witness:
  "outcome (recvMsg chunked 7) [] = Some zero_msg"
proof -
  have r: "\<exists>m. outcome (recvMsg chunked 7) [] = Some m"
    by (simp add: recvMsg_def run_simps extends_rules recv_loop_run Let_def chunked_def)
  have "received chunked [] (calls (recvMsg chunked 7) []) = replicate 96 NUL"
    by (simp add: recvMsg_def run_simps extends_rules recv_loop_run Let_def chunked_def
        received_def flip: replicate_add)
  moreover have "encode_msg zero_msg = replicate 96 NUL"
    by code_simp
  moreover have "sent accepting [] (calls (trySendMsg accepting 5 zero_msg) []) =
      encode_msg zero_msg" "outcome (trySendMsg accepting 5 zero_msg) []"
    by (simp_all add: trySendMsg_def send_loop_once accepting_def sent_def encode_nonempty)
  ultimately show ?thesis
    using r message_delivered[where env = chunked and m = zero_msg and env' = accepting and fd' = 5
        and h' = "[]" and fd = 7 and h = "[]"]
    by (auto simp: recv_contract_def chunked_def Let_def)
qed

text \<open>A text of at most 31 bytes survives the fixed buffer; a longer one is cut to 31.\<close>

theorem text_field_roundtrip:
  "get_text (put_text s) = take 31 (c_str s) \<and>
   (get_text (put_text s) = s \<longleftrightarrow> length s \<le> 31 \<and> NUL \<notin> set s)"
proof -
  have "NUL \<notin> set (c_str s)"
    by (auto simp: c_str_def dest: set_takeWhileD)
  moreover have "length (c_str s) \<le> length s"
    by (simp add: c_str_def length_takeWhile_le)
  ultimately show ?thesis
    by (auto simp: get_put_text) (metis length_take min.cobounded2, metis in_set_takeD)
qed

end
