(* ===== verification/Api_Server.thy ===== *)
theory Api_Server
  imports Api_Wire Number_Text
begin

text \<open>
  \<^verbatim>\<open>api/consumer_api_server.cpp\<close>: the server that consumers register with. It keeps a cached
  state per path class and a registry of consumers, moves their processes in and out of the
  cgroup of their class, answers queries and notifies the consumers of a class of every
  change. The mutex is not modelled: one handler or one notification runs at a time, which
  is what the lock around the registry gives them; the cached states are outside of it in
  the source.
\<close>

subsection \<open>State\<close>

record ConsumerEntry =
  ent_fd :: int
  ent_pid :: u32
  ent_handle :: u64
  ent_classId :: string

record ClassState =
  cs_classId :: string
  cs_cgroupPath :: string
  cs_state :: PathState
  cs_activeIface :: string
  cs_rssi :: int

record ConsumerApiServer =
  classStates :: "ClassState list"
  socketPath :: string
  listenFd :: int
  epollFd :: int
  wakeupFd :: int
  running :: bool
  registry :: "ConsumerEntry list"
  nextHandle :: u64

definition new_server :: "PathClassConfig list \<Rightarrow> string \<Rightarrow> ConsumerApiServer" where
  "new_server classes path =
     \<lparr>classStates = map (\<lambda>cls. \<lparr>cs_classId = cls_id cls, cs_cgroupPath = cgroupPath cls,
          cs_state = Idle, cs_activeIface = [], cs_rssi = 0\<rparr>) classes,
      socketPath = path, listenFd = -1, epollFd = -1, wakeupFd = -1, running = False,
      registry = [], nextHandle = 1\<rparr>"

text \<open>\<^verbatim>\<open>findClass\<close>, as the entry it points to and as the update made through the pointer.\<close>

definition findClass :: "ClassState list \<Rightarrow> string \<Rightarrow> ClassState option" where
  "findClass css classId = find (\<lambda>cs. cs_classId cs = classId) css"

fun update_first :: "('a \<Rightarrow> bool) \<Rightarrow> ('a \<Rightarrow> 'a) \<Rightarrow> 'a list \<Rightarrow> 'a list" where
  "update_first P f [] = []"
| "update_first P f (x # xs) = (if P x then f x # xs else x # update_first P f xs)"

definition update_class :: "(ClassState \<Rightarrow> ClassState) \<Rightarrow> string \<Rightarrow> ClassState list \<Rightarrow> ClassState list" where
  "update_class f classId css = update_first (\<lambda>cs. cs_classId cs = classId) f css"

definition queryCurrentState :: "ConsumerApiServer \<Rightarrow> string \<Rightarrow> PathState" where
  "queryCurrentState s classId =
     (case findClass (classStates s) classId of Some cls \<Rightarrow> cs_state cls | None \<Rightarrow> Idle)"

definition updateCurrentState :: "string \<Rightarrow> PathState \<Rightarrow> ConsumerApiServer \<Rightarrow> ConsumerApiServer" where
  "updateCurrentState classId state s =
     s\<lparr>classStates := update_class (\<lambda>cls. cls\<lparr>cs_state := state\<rparr>) classId (classStates s)\<rparr>"

text \<open>\<^verbatim>\<open>std::find_if\<close> with \<^verbatim>\<open>erase\<close>: the first match goes.\<close>

fun erase_first :: "('a \<Rightarrow> bool) \<Rightarrow> 'a list \<Rightarrow> 'a list" where
  "erase_first P [] = []"
| "erase_first P (x # xs) = (if P x then xs else x # erase_first P xs)"

subsection \<open>Cgroup membership\<close>

definition kCgroupRoot :: string where
  "kCgroupRoot = ''/sys/fs/cgroup/net_cls/tasks''"

definition pid_line :: "u32 \<Rightarrow> string" where
  "pid_line pid = int_text (sint pid) @ [CHR 0x0A]"

text \<open>Append a line to a file: open, write, and the destructor's close; a file that does not
  open is left alone.\<close>

definition append_pid :: "env \<Rightarrow> string \<Rightarrow> u32 \<Rightarrow> unit os" where
  "append_pid env path pid = do {
     f \<leftarrow> perform env (File (OpenAppend path));
     (if rc f = 0 then return ()
      else do {
        _ \<leftarrow> perform env (File (StreamPut path (pid_line pid)));
        _ \<leftarrow> perform env (File (CloseStream path));
        return () }) }"

definition assignCgroupPid :: "env \<Rightarrow> ConsumerApiServer \<Rightarrow> string \<Rightarrow> u32 \<Rightarrow> unit os" where
  "assignCgroupPid env s classId pid =
     (case findClass (classStates s) classId of
        None \<Rightarrow> return ()
      | Some cls \<Rightarrow> append_pid env (cs_cgroupPath cls @ ''/tasks'') pid)"

definition removeCgroupPid :: "env \<Rightarrow> ConsumerApiServer \<Rightarrow> string \<Rightarrow> u32 \<Rightarrow> unit os" where
  "removeCgroupPid env s classId pid =
     (case findClass (classStates s) classId of
        None \<Rightarrow> return ()
      | Some cls \<Rightarrow> append_pid env kCgroupRoot pid)"

subsection \<open>Handlers\<close>

definition removeClient :: "env \<Rightarrow> int \<Rightarrow> ConsumerApiServer \<Rightarrow> ConsumerApiServer os" where
  "removeClient env fd s = do {
     _ \<leftarrow> perform env (Sock (EpollDel (epollFd s) fd));
     _ \<leftarrow> perform env (Sock (CloseFd fd));
     (case find (\<lambda>e. ent_fd e = fd) (registry s) of
        None \<Rightarrow> return s
      | Some e \<Rightarrow> do {
          _ \<leftarrow> removeCgroupPid env s (ent_classId e) (ent_pid e);
          return (s\<lparr>registry := erase_first (\<lambda>e. ent_fd e = fd) (registry s)\<rparr>) }) }"

definition error_ack :: "MsgType \<Rightarrow> ApiError \<Rightarrow> ApiMsg" where
  "error_ack t e = zero_msg\<lparr>msg_type := MsgType_code t, msg_error := ApiError_code e\<rparr>"

definition handleRegister ::
  "env \<Rightarrow> int \<Rightarrow> ApiMsg \<Rightarrow> ConsumerApiServer \<Rightarrow> ConsumerApiServer os" where
  "handleRegister env fd msg s =
     (let classId = get_text (msg_classId msg)
      in case findClass (classStates s) classId of
        None \<Rightarrow> do {
          _ \<leftarrow> sendMsg env fd (error_ack RegisterAck UnknownClassId);
          return s }
      | Some _ \<Rightarrow>
          let handle = nextHandle s;
              entry = \<lparr>ent_fd = fd, ent_pid = msg_pid msg, ent_handle = handle,
                       ent_classId = classId\<rparr>;
              s' = s\<lparr>nextHandle := nextHandle s + 1,
                     registry := filter (\<lambda>e. ent_fd e \<noteq> fd) (registry s) @ [entry]\<rparr>
          in do {
            _ \<leftarrow> assignCgroupPid env s' classId (msg_pid msg);
            let ack = zero_msg\<lparr>msg_type := MsgType_code RegisterAck, msg_handle := handle,
                        msg_classId := put_text classId\<rparr>;
            let ack = (case findClass (classStates s') classId of
                         None \<Rightarrow> ack
                       | Some cls \<Rightarrow> ack\<lparr>msg_state := PathState_code (cs_state cls),
                            msg_iface := put_text (cs_activeIface cls),
                            msg_rssi := word_of_int (cs_rssi cls)\<rparr>);
            _ \<leftarrow> sendMsg env fd ack;
            return s' })"

definition handleUnregister ::
  "env \<Rightarrow> int \<Rightarrow> ApiMsg \<Rightarrow> ConsumerApiServer \<Rightarrow> ConsumerApiServer os" where
  "handleUnregister env fd msg s =
     (let ack = zero_msg\<lparr>msg_type := MsgType_code UnregisterAck, msg_handle := msg_handle msg\<rparr>
      in case find (\<lambda>e. ent_handle e = msg_handle msg) (registry s) of
        None \<Rightarrow> do {
          _ \<leftarrow> sendMsg env fd (ack\<lparr>msg_error := ApiError_code InvalidMessage\<rparr>);
          return s }
      | Some e \<Rightarrow> do {
          _ \<leftarrow> removeCgroupPid env s (ent_classId e) (ent_pid e);
          let s' = s\<lparr>registry := erase_first (\<lambda>e. ent_handle e = msg_handle msg) (registry s)\<rparr>;
          _ \<leftarrow> sendMsg env fd ack;
          return s' })"

definition handleQueryCurrent ::
  "env \<Rightarrow> int \<Rightarrow> ApiMsg \<Rightarrow> ConsumerApiServer \<Rightarrow> ConsumerApiServer os" where
  "handleQueryCurrent env fd msg s =
     (let classId = get_text (msg_classId msg);
          ack = zero_msg\<lparr>msg_type := MsgType_code QueryAck\<rparr>
      in case findClass (classStates s) classId of
        None \<Rightarrow> do {
          _ \<leftarrow> sendMsg env fd (ack\<lparr>msg_error := ApiError_code UnknownClassId\<rparr>);
          return s }
      | Some cls \<Rightarrow> do {
          _ \<leftarrow> sendMsg env fd
            (ack\<lparr>msg_state := PathState_code (cs_state cls),
                 msg_rssi := word_of_int (cs_rssi cls),
                 msg_classId := put_text classId,
                 msg_iface := put_text (cs_activeIface cls)\<rparr>);
          return s })"

text \<open>\<^verbatim>\<open>handleClient\<close>: the message is read, then dispatched on its type.\<close>

definition dispatch :: "env \<Rightarrow> int \<Rightarrow> ApiMsg \<Rightarrow> ConsumerApiServer \<Rightarrow> ConsumerApiServer os" where
  "dispatch env fd msg s =
     (case MsgType_of_code (msg_type msg) of
        Some Register \<Rightarrow> handleRegister env fd msg s
      | Some Unregister \<Rightarrow> handleUnregister env fd msg s
      | Some QueryCurrent \<Rightarrow> handleQueryCurrent env fd msg s
      | _ \<Rightarrow> do {
          _ \<leftarrow> sendMsg env fd (error_ack RegisterAck InvalidMessage);
          return s })"

definition handleClient :: "env \<Rightarrow> int \<Rightarrow> ConsumerApiServer \<Rightarrow> ConsumerApiServer os" where
  "handleClient env fd s = do {
     r \<leftarrow> recvMsg env fd;
     (case r of None \<Rightarrow> removeClient env fd s | Some msg \<Rightarrow> dispatch env fd msg s) }"

text \<open>\<^verbatim>\<open>handleAccept\<close> loops until \<^verbatim>\<open>accept4\<close> fails; \<open>n\<close> bounds the connections it takes, and the
  result says whether the loop came to its end.\<close>

fun handleAccept :: "env \<Rightarrow> nat \<Rightarrow> ConsumerApiServer \<Rightarrow> bool os" where
  "handleAccept env 0 s = return False"
| "handleAccept env (Suc n) s = do {
     a \<leftarrow> perform env (Sock (Accept4 (listenFd s)));
     (if rc a < 0 then return True
      else do {
        r \<leftarrow> perform env (Sock (EpollAdd (epollFd s) (rc a)));
        (if rc r < 0
         then do { _ \<leftarrow> perform env (Sock (CloseFd (rc a))); handleAccept env n s }
         else handleAccept env n s) }) }"

subsection \<open>Notification\<close>

text \<open>The first loop of \<^verbatim>\<open>broadcastPathEvent\<close>: send to every consumer of the class, collecting
  the descriptors that failed.\<close>

fun send_to_class :: "env \<Rightarrow> ApiMsg \<Rightarrow> string \<Rightarrow> ConsumerEntry list \<Rightarrow> int list os" where
  "send_to_class env msg classId [] = return []"
| "send_to_class env msg classId (e # es) =
     (if ent_classId e \<noteq> classId then send_to_class env msg classId es
      else do {
        sent_ok \<leftarrow> trySendMsg env (ent_fd e) msg;
        dead \<leftarrow> send_to_class env msg classId es;
        return (if sent_ok then dead else ent_fd e # dead) })"

text \<open>The second loop: drop the entry of each, then close the descriptor.\<close>

fun remove_dead :: "env \<Rightarrow> int list \<Rightarrow> ConsumerApiServer \<Rightarrow> ConsumerApiServer os" where
  "remove_dead env [] s = return s"
| "remove_dead env (fd # fds) s =
     (let found = find (\<lambda>e. ent_fd e = fd) (registry s);
          s' = s\<lparr>registry := erase_first (\<lambda>e. ent_fd e = fd) (registry s)\<rparr>
      in do {
        _ \<leftarrow> (case found of
                None \<Rightarrow> return ()
              | Some e \<Rightarrow> removeCgroupPid env s (ent_classId e) (ent_pid e));
        _ \<leftarrow> perform env (Sock (EpollDel (epollFd s) fd));
        _ \<leftarrow> perform env (Sock (CloseFd fd));
        remove_dead env fds s' })"

definition path_event :: "string \<Rightarrow> PathState \<Rightarrow> string \<Rightarrow> int \<Rightarrow> ApiMsg" where
  "path_event classId newState iface rssiDbm =
     zero_msg\<lparr>msg_type := MsgType_code PathEvent, msg_state := PathState_code newState,
       msg_rssi := word_of_int rssiDbm, msg_classId := put_text classId,
       msg_iface := put_text iface\<rparr>"

text \<open>The update of the cached class state.\<close>

definition cache_event ::
  "string \<Rightarrow> PathState \<Rightarrow> string \<Rightarrow> int \<Rightarrow> ConsumerApiServer \<Rightarrow> ConsumerApiServer" where
  "cache_event classId newState iface rssiDbm s =
     (let s' = updateCurrentState classId newState s
      in s'\<lparr>classStates :=
              update_class (\<lambda>cls. cls\<lparr>cs_activeIface := iface, cs_rssi := rssiDbm\<rparr>) classId
                (classStates s')\<rparr>)"

definition broadcastPathEvent ::
  "env \<Rightarrow> string \<Rightarrow> PathState \<Rightarrow> string \<Rightarrow> int \<Rightarrow> ConsumerApiServer \<Rightarrow> ConsumerApiServer os" where
  "broadcastPathEvent env classId newState iface rssiDbm s =
     (let s' = cache_event classId newState iface rssiDbm s
      in do {
        dead \<leftarrow> send_to_class env (path_event classId newState iface rssiDbm) classId (registry s');
        remove_dead env dead s' })"

subsection \<open>Life cycle\<close>

text \<open>\<^verbatim>\<open>socketPath_.substr(0, socketPath_.rfind('/'))\<close>: the whole text when there is no slash.\<close>

definition parent_dir :: "string \<Rightarrow> string" where
  "parent_dir path =
     (if CHR ''/'' \<in> set path then rev (tl (dropWhile (\<lambda>c. c \<noteq> CHR ''/'') (rev path))) else path)"

definition make_parent :: "env \<Rightarrow> string \<Rightarrow> unit os" where
  "make_parent env path =
     (if parent_dir path = [] then return ()
      else do { _ \<leftarrow> perform env (File (Mkdir (parent_dir path))); return () })"

text \<open>The registration of the two server descriptors: the second only after the first.\<close>

definition epoll_add_both :: "env \<Rightarrow> int \<Rightarrow> int \<Rightarrow> int \<Rightarrow> bool os" where
  "epoll_add_both env ep l w = do {
     a \<leftarrow> perform env (Sock (EpollAdd ep l));
     (if rc a \<noteq> 0 then return False
      else do { b \<leftarrow> perform env (Sock (EpollAdd ep w)); return (rc b = 0) }) }"

text \<open>\<^verbatim>\<open>start\<close> in the stages between its early returns; \<open>l\<close>, \<open>e\<close> and \<open>w\<close> are the descriptors
  opened so far.\<close>

definition start_add :: "env \<Rightarrow> int \<Rightarrow> int \<Rightarrow> int \<Rightarrow> ConsumerApiServer \<Rightarrow>
    (ApiError status \<times> ConsumerApiServer) os" where
  "start_add env l e w s = do {
     added \<leftarrow> epoll_add_both env e l w;
     (if \<not> added then do {
        _ \<leftarrow> perform env (Sock (CloseFd w));
        _ \<leftarrow> perform env (Sock (CloseFd e));
        _ \<leftarrow> perform env (Sock (CloseFd l));
        return (Inl SocketError, s\<lparr>listenFd := -1, epollFd := -1, wakeupFd := -1\<rparr>) }
      else
        return (ok, s\<lparr>listenFd := l, epollFd := e, wakeupFd := w, running := True\<rparr>)) }"

definition start_wakeup :: "env \<Rightarrow> int \<Rightarrow> int \<Rightarrow> ConsumerApiServer \<Rightarrow>
    (ApiError status \<times> ConsumerApiServer) os" where
  "start_wakeup env l e s = do {
     w \<leftarrow> perform env (Sock EventFd);
     (if rc w < 0 then do {
        _ \<leftarrow> perform env (Sock (CloseFd e));
        _ \<leftarrow> perform env (Sock (CloseFd l));
        return (Inl SocketError, s\<lparr>listenFd := -1, epollFd := -1, wakeupFd := rc w\<rparr>) }
      else start_add env l e (rc w) s) }"

definition start_epoll :: "env \<Rightarrow> int \<Rightarrow> ConsumerApiServer \<Rightarrow>
    (ApiError status \<times> ConsumerApiServer) os" where
  "start_epoll env l s = do {
     e \<leftarrow> perform env (Sock EpollCreate);
     (if rc e < 0 then do {
        _ \<leftarrow> perform env (Sock (CloseFd l));
        return (Inl SocketError, s\<lparr>listenFd := -1, epollFd := rc e\<rparr>) }
      else start_wakeup env l (rc e) s) }"

definition start_listen :: "env \<Rightarrow> int \<Rightarrow> ConsumerApiServer \<Rightarrow>
    (ApiError status \<times> ConsumerApiServer) os" where
  "start_listen env l s = do {
     b \<leftarrow> perform env (Sock (BindUnix l (take 107 (c_str (socketPath s)))));
     (if rc b < 0 then do {
        _ \<leftarrow> perform env (Sock (CloseFd l));
        return (Inl SocketError, s\<lparr>listenFd := -1\<rparr>) }
      else do {
        _ \<leftarrow> perform env (File (Chmod (socketPath s)));
        li \<leftarrow> perform env (Sock (ListenFd l));
        (if rc li < 0 then do {
           _ \<leftarrow> perform env (Sock (CloseFd l));
           return (Inl SocketError, s\<lparr>listenFd := -1\<rparr>) }
         else start_epoll env l s) }) }"

definition start :: "env \<Rightarrow> ConsumerApiServer \<Rightarrow> (ApiError status \<times> ConsumerApiServer) os" where
  "start env s = do {
     _ \<leftarrow> make_parent env (socketPath s);
     _ \<leftarrow> perform env (File (Unlink (socketPath s)));
     l \<leftarrow> perform env (Sock SocketUnix);
     (if rc l < 0 then return (Inl SocketError, s\<lparr>listenFd := rc l\<rparr>)
      else start_listen env (rc l) s) }"

text \<open>\<^verbatim>\<open>stop\<close>; the join of the thread between the wake-up and the closing is not a call.\<close>

definition close_open :: "env \<Rightarrow> int \<Rightarrow> unit os" where
  "close_open env fd =
     (if fd \<ge> 0 then do { _ \<leftarrow> perform env (Sock (CloseFd fd)); return () } else return ())"

definition stop :: "env \<Rightarrow> ConsumerApiServer \<Rightarrow> ConsumerApiServer os" where
  "stop env s =
     (if \<not> running s then return s
      else do {
        _ \<leftarrow> (if wakeupFd s \<ge> 0
             then do { _ \<leftarrow> perform env (Sock (WakeFd (wakeupFd s))); return () } else return ());
        _ \<leftarrow> for_do (\<lambda>e. do { _ \<leftarrow> perform env (Sock (CloseFd (ent_fd e))); return () }) (registry s);
        _ \<leftarrow> close_open env (wakeupFd s);
        _ \<leftarrow> close_open env (epollFd s);
        _ \<leftarrow> close_open env (listenFd s);
        _ \<leftarrow> perform env (File (Unlink (socketPath s)));
        return (s\<lparr>running := False, registry := [],
          wakeupFd := min (wakeupFd s) (-1), epollFd := min (epollFd s) (-1),
          listenFd := min (listenFd s) (-1)\<rparr>) })"

text \<open>
  \<^verbatim>\<open>runLoop\<close>: one round per \<^verbatim>\<open>epoll_wait\<close>, \<open>n\<close> of them at most; the result says whether the loop
  ended. \<^verbatim>\<open>stop\<close> ends it through the wake-up descriptor. In one round at most \<open>k\<close> waiting
  connections are taken; more would be reported again by the next wait.
\<close>

fun handle_events ::
  "env \<Rightarrow> nat \<Rightarrow> (int \<times> epoll_flag list) list \<Rightarrow> ConsumerApiServer \<Rightarrow> (bool \<times> ConsumerApiServer) os" where
  "handle_events env k [] s = return (False, s)"
| "handle_events env k ((fd, flags) # rest) s =
     (if fd = wakeupFd s then return (True, s)
      else if fd = listenFd s then do {
        _ \<leftarrow> handleAccept env k s;
        handle_events env k rest s }
      else if EPOLLHUP \<in> set flags \<or> EPOLLERR \<in> set flags \<or> EPOLLRDHUP \<in> set flags then do {
        s' \<leftarrow> removeClient env fd s;
        handle_events env k rest s' }
      else if EPOLLIN \<in> set flags then do {
        s' \<leftarrow> handleClient env fd s;
        handle_events env k rest s' }
      else handle_events env k rest s)"

fun runLoop :: "env \<Rightarrow> nat \<Rightarrow> nat \<Rightarrow> ConsumerApiServer \<Rightarrow> (bool \<times> ConsumerApiServer) os" where
  "runLoop env k 0 s = return (False, s)"
| "runLoop env k (Suc n) s =
     (if \<not> running s then return (True, s)
      else do {
        a \<leftarrow> perform env (Sock (EpollWait (epollFd s)));
        (if rc a < 0 then
           if err a = EINTR then runLoop env k n s else return (True, s)
         else do {
           r \<leftarrow> handle_events env k (take (nat (rc a)) (ready a)) s;
           (case r of (ended, s') \<Rightarrow>
              if ended then return (True, s') else runLoop env k n s') }) })"

subsection \<open>Lookup tables\<close>

text \<open>A table whose entries are changed in place: the entry changes, no other does.\<close>

locale keyed_table =
  fixes lookup :: "'t \<Rightarrow> 'k \<Rightarrow> 'v option"
    and modify :: "('v \<Rightarrow> 'v) \<Rightarrow> 'k \<Rightarrow> 't \<Rightarrow> 't"
    and key :: "'v \<Rightarrow> 'k"
  assumes lookup_modify:
    "(\<And>v. key (f v) = key v) \<Longrightarrow>
       lookup (modify f k t) k' = (if k' = k then map_option f (lookup t k) else lookup t k')"
begin

lemma lookup_modify_None:
  "(\<And>v. key (f v) = key v) \<Longrightarrow> lookup (modify f k t) k' = None \<longleftrightarrow> lookup t k' = None"
  by (simp add: lookup_modify)

lemma lookup_modify_twice:
  "(\<And>v. key (f v) = key v) \<Longrightarrow> (\<And>v. key (g v) = key v) \<Longrightarrow>
     lookup (modify g k (modify f k t)) k' =
       (if k' = k then map_option (g \<circ> f) (lookup t k) else lookup t k')"
  by (simp add: lookup_modify option.map_comp)

end

text \<open>A registry: putting replaces the entry with the same key, and a key can be dropped.\<close>

locale consumer_table =
  fixes lookup :: "'t \<Rightarrow> 'k \<Rightarrow> 'v option"
    and put :: "'v \<Rightarrow> 't \<Rightarrow> 't"
    and drop_key :: "'k \<Rightarrow> 't \<Rightarrow> 't"
    and key :: "'v \<Rightarrow> 'k"
    and inv :: "'t \<Rightarrow> bool"
  assumes inv_put: "inv t \<Longrightarrow> inv (put v t)"
    and inv_drop: "inv t \<Longrightarrow> inv (drop_key k t)"
    and lookup_put: "inv t \<Longrightarrow> lookup (put v t) = (lookup t)(key v \<mapsto> v)"
    and lookup_drop: "inv t \<Longrightarrow> lookup (drop_key k t) = (lookup t)(k := None)"
begin

lemma inv_drop_all: "inv t \<Longrightarrow> inv (fold drop_key ks t)"
  by (induction ks arbitrary: t) (simp_all add: inv_drop)

lemma lookup_drop_all: "inv t \<Longrightarrow> lookup (fold drop_key ks t) = (lookup t) |` (- set ks)"
proof (induction ks arbitrary: t)
  case Nil
  then show ?case by simp
next
  case (Cons k ks)
  then show ?case
    by (simp only: fold_Cons comp_apply inv_drop lookup_drop)
      (auto simp: restrict_map_def fun_eq_iff)
qed

end

definition put_entry :: "ConsumerEntry \<Rightarrow> ConsumerEntry list \<Rightarrow> ConsumerEntry list" where
  "put_entry e es = filter (\<lambda>x. ent_fd x \<noteq> ent_fd e) es @ [e]"

definition drop_fd :: "int \<Rightarrow> ConsumerEntry list \<Rightarrow> ConsumerEntry list" where
  "drop_fd fd es = erase_first (\<lambda>e. ent_fd e = fd) es"

definition find_fd :: "ConsumerEntry list \<Rightarrow> int \<Rightarrow> ConsumerEntry option" where
  "find_fd es fd = find (\<lambda>e. ent_fd e = fd) es"

lemma find_append: "find P (xs @ ys) = (case find P xs of None \<Rightarrow> find P ys | Some x \<Rightarrow> Some x)"
  by (induction xs) simp_all

lemma find_key_filter:
  "find (\<lambda>e. k e = x) (filter (\<lambda>e. k e \<noteq> a) xs) =
     (if x = a then None else find (\<lambda>e. k e = x) xs)"
  by (induction xs) auto

lemma erase_first_fst_filter:
  "distinct (map f xs) \<Longrightarrow> erase_first (\<lambda>x. f x = k) xs = filter (\<lambda>x. f x \<noteq> k) xs"
proof (induction xs)
  case (Cons x xs)
  then show ?case
    by (auto intro!: filter_True[symmetric] simp: image_iff)
qed simp

lemma find_update_first:
  assumes "\<And>x. k (f x) = k x"
  shows "find (\<lambda>x. k x = b) (update_first (\<lambda>x. k x = a) f xs) =
           (if b = a then map_option f (find (\<lambda>x. k x = a) xs) else find (\<lambda>x. k x = b) xs)"
  by (induction xs) (auto simp: assms)

interpretation class_table: keyed_table findClass update_class cs_classId
  by unfold_locales (simp add: findClass_def update_class_def find_update_first)

interpretation consumers: consumer_table find_fd put_entry drop_fd ent_fd
  "\<lambda>es. distinct (map ent_fd es)"
proof
  fix es :: "ConsumerEntry list" and e fd
  assume d: "distinct (map ent_fd es)"
  show "distinct (map ent_fd (put_entry e es))"
    using d by (auto simp: put_entry_def distinct_map_filter)
  show "distinct (map ent_fd (drop_fd fd es))"
    using d by (simp add: drop_fd_def erase_first_fst_filter distinct_map_filter)
  show "find_fd (put_entry e es) = (find_fd es)(ent_fd e \<mapsto> e)"
    by (simp add: find_fd_def put_entry_def fun_eq_iff find_append find_key_filter
        split: option.split)
  show "find_fd (drop_fd fd es) = (find_fd es)(fd := None)"
    using d by (simp add: find_fd_def drop_fd_def erase_first_fst_filter fun_eq_iff
        find_key_filter)
qed

end
