(* ===== verification/Api_Correct.thy ===== *)
theory Api_Correct
  imports Api_Server
begin

text \<open>
  What the consumer API promises. Every handler changes the server by a function of the
  message alone, whatever the kernel answers (\<open>register_entry\<close>, \<open>apply_msg\<close>, \<open>drop_client\<close>);
  the registry implements a map from descriptors to consumers; the invariants hold for every
  sequence of client input, hang-ups and notifications.
\<close>

subsection \<open>Programs of the server\<close>

lemma extends_append_pid [extends_rules]: "extends (append_pid env path pid)"
  unfolding append_pid_def by (intro extends_rules)

lemma extends_assignCgroupPid [extends_rules]: "extends (assignCgroupPid env s c pid)"
  unfolding assignCgroupPid_def by (intro extends_rules)

lemma extends_removeCgroupPid [extends_rules]: "extends (removeCgroupPid env s c pid)"
  unfolding removeCgroupPid_def by (intro extends_rules)

lemma extends_removeClient [extends_rules]: "extends (removeClient env fd s)"
  unfolding removeClient_def by (intro extends_rules)

lemma extends_handleRegister [extends_rules]: "extends (handleRegister env fd msg s)"
  unfolding handleRegister_def Let_def by (intro extends_rules)

lemma extends_handleUnregister [extends_rules]: "extends (handleUnregister env fd msg s)"
  unfolding handleUnregister_def Let_def by (intro extends_rules)

lemma extends_handleQueryCurrent [extends_rules]: "extends (handleQueryCurrent env fd msg s)"
  unfolding handleQueryCurrent_def Let_def by (intro extends_rules)

lemma extends_dispatch [extends_rules]: "extends (dispatch env fd msg s)"
  by (auto simp: dispatch_def intro!: extends_rules split: option.split MsgType.split)

lemma extends_handleClient [extends_rules]: "extends (handleClient env fd s)"
  unfolding handleClient_def by (intro extends_rules)

lemma extends_handleAccept [extends_rules]: "extends (handleAccept env n s)"
  by (induction n) (auto intro!: extends_rules)

lemma extends_send_to_class [extends_rules]: "extends (send_to_class env msg c es)"
  by (induction es) (auto intro!: extends_rules)

lemma extends_remove_dead [extends_rules]: "extends (remove_dead env fds s)"
  by (induction fds arbitrary: s) (auto simp: Let_def intro!: extends_rules)

lemma extends_broadcastPathEvent [extends_rules]:
  "extends (broadcastPathEvent env c st i r s)"
  unfolding broadcastPathEvent_def Let_def by (intro extends_rules)

subsection \<open>Effect on the server\<close>

definition drop_client :: "int \<Rightarrow> ConsumerApiServer \<Rightarrow> ConsumerApiServer" where
  "drop_client fd s = s\<lparr>registry := drop_fd fd (registry s)\<rparr>"

definition register_entry :: "int \<Rightarrow> ApiMsg \<Rightarrow> ConsumerApiServer \<Rightarrow> ConsumerApiServer" where
  "register_entry fd msg s =
     (if findClass (classStates s) (get_text (msg_classId msg)) = None then s
      else s\<lparr>nextHandle := nextHandle s + 1,
             registry := put_entry
               \<lparr>ent_fd = fd, ent_pid = msg_pid msg, ent_handle = nextHandle s,
                ent_classId = get_text (msg_classId msg)\<rparr> (registry s)\<rparr>)"

definition unregister_entry :: "ApiMsg \<Rightarrow> ConsumerApiServer \<Rightarrow> ConsumerApiServer" where
  "unregister_entry msg s =
     s\<lparr>registry := erase_first (\<lambda>e. ent_handle e = msg_handle msg) (registry s)\<rparr>"

definition apply_msg :: "int \<Rightarrow> ApiMsg \<Rightarrow> ConsumerApiServer \<Rightarrow> ConsumerApiServer" where
  "apply_msg fd msg s =
     (case MsgType_of_code (msg_type msg) of
        Some Register \<Rightarrow> register_entry fd msg s
      | Some Unregister \<Rightarrow> unregister_entry msg s
      | _ \<Rightarrow> s)"

lemma erase_first_absent: "find P xs = None \<Longrightarrow> erase_first P xs = xs"
  by (induction xs) (auto split: if_splits)

lemma erase_first_subset: "set (erase_first P xs) \<subseteq> set xs"
  by (induction xs) auto

lemma outcome_removeClient: "outcome (removeClient env fd s) h = drop_client fd s"
  by (auto simp: removeClient_def drop_client_def drop_fd_def run_simps extends_rules
      erase_first_absent split: option.split)

lemma outcome_handleRegister: "outcome (handleRegister env fd msg s) h = register_entry fd msg s"
  by (auto simp: handleRegister_def register_entry_def put_entry_def run_simps extends_rules
      Let_def split: option.split)

lemma outcome_handleUnregister: "outcome (handleUnregister env fd msg s) h = unregister_entry msg s"
  by (auto simp: handleUnregister_def unregister_entry_def run_simps extends_rules
      erase_first_absent Let_def split: option.split)

lemma outcome_handleQueryCurrent: "outcome (handleQueryCurrent env fd msg s) h = s"
  by (auto simp: handleQueryCurrent_def run_simps extends_rules Let_def split: option.split)

lemmas handler_outcomes = outcome_removeClient outcome_handleRegister outcome_handleUnregister
  outcome_handleQueryCurrent

lemma outcome_dispatch: "outcome (dispatch env fd msg s) h = apply_msg fd msg s"
  by (auto simp: dispatch_def apply_msg_def handler_outcomes run_simps extends_rules
      split: option.split MsgType.split)

lemma outcome_handleClient:
  "outcome (handleClient env fd s) h =
     (case outcome (recvMsg env fd) h of
        None \<Rightarrow> drop_client fd s | Some msg \<Rightarrow> apply_msg fd msg s)"
  by (simp add: handleClient_def handler_outcomes outcome_dispatch run_simps extends_rules
      split: option.split)

lemma outcome_remove_dead: "outcome (remove_dead env fds s) h = fold drop_client fds s"
  by (induction fds arbitrary: s h)
    (auto simp: run_simps extends_rules Let_def drop_client_def drop_fd_def split: option.split)

lemma outcome_broadcastPathEvent:
  "outcome (broadcastPathEvent env c st i r s) h =
     fold drop_client
       (outcome (send_to_class env (path_event c st i r) c (registry s)) h)
       (cache_event c st i r s)"
  by (simp add: broadcastPathEvent_def run_simps extends_rules outcome_remove_dead Let_def
      cache_event_def updateCurrentState_def)

lemma drop_client_sel [simp]:
  "classStates (drop_client fd s) = classStates s" "nextHandle (drop_client fd s) = nextHandle s"
  "registry (drop_client fd s) = drop_fd fd (registry s)"
  by (simp_all add: drop_client_def)

lemma fold_drop_client [simp]:
  "classStates (fold drop_client fds s) = classStates s"
  "nextHandle (fold drop_client fds s) = nextHandle s"
  "registry (fold drop_client fds s) = fold drop_fd fds (registry s)"
  by (induction fds arbitrary: s) simp_all

lemma cache_event_sel [simp]:
  "registry (cache_event c st i r s) = registry s"
  "nextHandle (cache_event c st i r s) = nextHandle s"
  by (simp_all add: cache_event_def updateCurrentState_def Let_def)

lemma findClass_cache_event:
  "findClass (classStates (cache_event c st i r s)) c' =
     (if c' = c
      then map_option (\<lambda>cls. cls\<lparr>cs_state := st, cs_activeIface := i, cs_rssi := r\<rparr>)
             (findClass (classStates s) c)
      else findClass (classStates s) c')"
  by (simp add: cache_event_def updateCurrentState_def Let_def class_table.lookup_modify_twice
      comp_def)

lemma register_entry_classStates [simp]:
  "classStates (register_entry fd msg s) = classStates s"
  "classStates (unregister_entry msg s) = classStates s"
  by (simp_all add: register_entry_def unregister_entry_def)

lemma apply_msg_classStates [simp]: "classStates (apply_msg fd msg s) = classStates s"
  by (simp add: apply_msg_def split: option.split MsgType.split)

subsection \<open>Runs\<close>

text \<open>What reaches the server: a client's descriptor is readable, or its peer has gone, or a
  path state machine announces a change. The state of a run is the server and the calls made.\<close>

datatype server_event = Readable int | HungUp int | Notify string PathState string int

definition server_prog :: "env \<Rightarrow> server_event \<Rightarrow> ConsumerApiServer \<Rightarrow> ConsumerApiServer os" where
  "server_prog env ev s =
     (case ev of
        Readable fd \<Rightarrow> handleClient env fd s
      | HungUp fd \<Rightarrow> removeClient env fd s
      | Notify c st i r \<Rightarrow> broadcastPathEvent env c st i r s)"

definition serve ::
  "env \<Rightarrow> server_event \<Rightarrow> ConsumerApiServer \<times> call list \<Rightarrow> ConsumerApiServer \<times> call list" where
  "serve env ev sh = run_state (server_prog env ev (fst sh)) (snd sh)"

lemma fst_serve: "fst (serve env ev (s, h)) = outcome (server_prog env ev s) h"
  by (simp add: serve_def outcome_def)

lemma serve_cases:
  obtains (msg) fd msg where "fst (serve env ev (s, h)) = apply_msg fd msg s"
    and "ev = Readable fd" and "outcome (recvMsg env fd) h = Some msg"
  | (gone) fd where "fst (serve env ev (s, h)) = drop_client fd s"
    and "ev = Readable fd \<or> ev = HungUp fd"
  | (tell) c st i r fds where "fst (serve env ev (s, h)) = fold drop_client fds (cache_event c st i r s)"
    and "ev = Notify c st i r"
    and "fds = outcome (send_to_class env (path_event c st i r) c (registry s)) h"
proof (cases ev)
  case (Readable fd)
  then show ?thesis
    using msg[of fd] gone[of fd]
    by (cases "outcome (recvMsg env fd) h")
      (auto simp: fst_serve server_prog_def outcome_handleClient)
next
  case (HungUp fd)
  then show ?thesis
    using gone[of fd] by (auto simp: fst_serve server_prog_def outcome_removeClient)
next
  case (Notify c st i r)
  then show ?thesis
    using tell by (auto simp: fst_serve server_prog_def outcome_broadcastPathEvent)
qed

text \<open>At most one consumer per descriptor, each of a class the server knows.\<close>

definition registry_ok :: "ConsumerApiServer \<times> call list \<Rightarrow> bool" where
  "registry_ok sh \<longleftrightarrow>
     distinct (map ent_fd (registry (fst sh))) \<and>
     (\<forall>e \<in> set (registry (fst sh)). findClass (classStates (fst sh)) (ent_classId e) \<noteq> None)"

lemma set_put_entry: "set (put_entry e es) \<subseteq> insert e (set es)"
  by (auto simp: put_entry_def)

lemma set_fold_drop_fd: "set (fold drop_fd fds es) \<subseteq> set es"
proof (induction fds arbitrary: es)
  case (Cons fd fds)
  have "set (drop_fd fd es) \<subseteq> set es"
    by (simp add: drop_fd_def erase_first_subset)
  with Cons[of "drop_fd fd es"] show ?case by simp
qed simp

lemma distinct_erase_first: "distinct (map f es) \<Longrightarrow> distinct (map f (erase_first P es))"
proof (induction es)
  case (Cons e es)
  then show ?case
    using erase_first_subset[of P es] by auto
qed simp

lemma apply_msg_registry:
  "registry (apply_msg fd msg s) = registry s \<or>
   registry (apply_msg fd msg s) = erase_first (\<lambda>e. ent_handle e = msg_handle msg) (registry s) \<or>
   (\<exists>e. registry (apply_msg fd msg s) = put_entry e (registry s) \<and>
        findClass (classStates s) (ent_classId e) \<noteq> None)"
  by (auto simp: apply_msg_def register_entry_def unregister_entry_def
      split: option.split MsgType.split)

lemma registry_ok_step:
  assumes "registry_ok sh"
  shows "registry_ok (serve env ev sh)"
proof -
  obtain s h where sh: "sh = (s, h)" by (cases sh)
  let ?s' = "fst (serve env ev (s, h))"
  have ok: "distinct (map ent_fd (registry s))"
    "\<And>e. e \<in> set (registry s) \<Longrightarrow> findClass (classStates s) (ent_classId e) \<noteq> None"
    using assms by (auto simp: registry_ok_def sh)
  have "distinct (map ent_fd (registry ?s')) \<and>
      (\<forall>e \<in> set (registry ?s'). findClass (classStates ?s') (ent_classId e) \<noteq> None)"
  proof (cases rule: serve_cases[of env ev s h])
    case (msg fd m)
    then show ?thesis
      using ok apply_msg_registry[of fd m s] erase_first_subset set_put_entry
      by (fastforce simp: consumers.inv_put distinct_erase_first)
  next
    case (gone fd)
    then show ?thesis
      using ok erase_first_subset by (fastforce simp: consumers.inv_drop drop_fd_def
          distinct_erase_first)
  next
    case (tell c st i r fds)
    then show ?thesis
      using ok set_fold_drop_fd[of fds "registry s"]
      by (auto simp: consumers.inv_drop_all findClass_cache_event split: if_splits)
  qed
  then show ?thesis by (simp add: registry_ok_def sh)
qed

interpretation serving: event_machine "serve env" "\<lambda>ev. True" registry_ok
  by unfold_locales (rule registry_ok_step)

text \<open>Handles: with \<open>n\<close> events so far, every handle given out is non-zero, below the next one
  and held by one consumer; the counter would only wrap after 2^64 - 1 events.\<close>

definition handles_ok :: "(ConsumerApiServer \<times> call list) \<times> nat \<Rightarrow> bool" where
  "handles_ok shn \<longleftrightarrow>
     (let s = fst (fst shn); n = snd shn
      in n < 2 ^ 64 - 1 \<longrightarrow>
         0 < unat (nextHandle s) \<and> unat (nextHandle s) \<le> n + 1 \<and>
         distinct (map ent_handle (registry s)) \<and>
         (\<forall>e \<in> set (registry s). 0 < unat (ent_handle e) \<and>
            unat (ent_handle e) < unat (nextHandle s)))"

definition serve_count ::
  "env \<Rightarrow> server_event \<Rightarrow> (ConsumerApiServer \<times> call list) \<times> nat \<Rightarrow>
     (ConsumerApiServer \<times> call list) \<times> nat" where
  "serve_count env ev shn = (serve env ev (fst shn), Suc (snd shn))"

lemma unat_next_handle:
  assumes "unat (w :: u64) \<le> n + 1" and "Suc n < 2 ^ 64 - 1"
  shows "unat (w + 1) = unat w + 1"
proof -
  have "unat w + 1 < 2 ^ LENGTH(64)"
    using assms by simp
  then show ?thesis
    by (simp add: unat_word_ariths)
qed

lemma handles_ok_keep:
  assumes "distinct (map ent_handle es)"
    and "\<forall>e \<in> set es. 0 < unat (ent_handle e) \<and> unat (ent_handle e) < unat (k :: u64)"
    and "es' = filter Q es"
  shows "distinct (map ent_handle es') \<and>
    (\<forall>e \<in> set es'. 0 < unat (ent_handle e) \<and> unat (ent_handle e) < unat k)"
  using assms by (simp add: distinct_map_filter)

lemma erase_first_bound:
  assumes "distinct (map ent_handle es)"
    and "\<forall>e \<in> set es. 0 < unat (ent_handle e) \<and> unat (ent_handle e) < unat (k :: u64)"
  shows "distinct (map ent_handle (erase_first P es)) \<and>
    (\<forall>e \<in> set (erase_first P es). 0 < unat (ent_handle e) \<and> unat (ent_handle e) < unat k)"
  using assms erase_first_subset[of P es] by (auto simp: distinct_erase_first)

lemma fold_drop_fd_bound:
  assumes "distinct (map ent_handle es)"
    and "\<forall>e \<in> set es. 0 < unat (ent_handle e) \<and> unat (ent_handle e) < unat (k :: u64)"
  shows "distinct (map ent_handle (fold drop_fd fds es)) \<and>
    (\<forall>e \<in> set (fold drop_fd fds es). 0 < unat (ent_handle e) \<and> unat (ent_handle e) < unat k)"
  using assms
proof (induction fds arbitrary: es)
  case (Cons fd fds)
  from erase_first_bound[OF Cons.prems, of "\<lambda>e. ent_fd e = fd"]
  show ?case
    using Cons.IH[of "drop_fd fd es"] by (simp add: drop_fd_def)
qed simp

lemma handles_ok_step:
  assumes "handles_ok shn"
  shows "handles_ok (serve_count env ev shn)"
proof -
  obtain s h n where shn: "shn = ((s, h), n)" by (cases shn) auto
  let ?s' = "fst (serve env ev (s, h))"
  have "0 < unat (nextHandle ?s') \<and> unat (nextHandle ?s') \<le> Suc n + 1 \<and>
      distinct (map ent_handle (registry ?s')) \<and>
      (\<forall>e \<in> set (registry ?s'). 0 < unat (ent_handle e) \<and>
         unat (ent_handle e) < unat (nextHandle ?s'))"
    if n: "Suc n < 2 ^ 64 - 1"
  proof -
    have ok: "0 < unat (nextHandle s)" "unat (nextHandle s) \<le> n + 1"
      "distinct (map ent_handle (registry s))"
      "\<forall>e \<in> set (registry s). 0 < unat (ent_handle e) \<and> unat (ent_handle e) < unat (nextHandle s)"
      using assms n by (simp_all add: handles_ok_def shn)
    note next_handle = unat_next_handle[OF ok(2) n]
    show ?thesis
    proof (cases rule: serve_cases[of env ev s h])
      case (msg fd m)
      consider "apply_msg fd m s = s" | "apply_msg fd m s = unregister_entry m s"
        | "apply_msg fd m s = register_entry fd m s"
        by (fastforce simp: apply_msg_def split: option.splits MsgType.splits)
      then show ?thesis
      proof cases
        case 1
        with msg ok show ?thesis by simp
      next
        case 2
        with msg ok erase_first_bound[OF ok(3,4)] show ?thesis
          by (simp add: unregister_entry_def)
      next
        case 3
        have "\<forall>e \<in> set (registry s). ent_handle e \<noteq> nextHandle s"
          using ok(4) by auto
        with 3 msg ok handles_ok_keep[OF ok(3,4) refl] show ?thesis
          by (auto simp: register_entry_def put_entry_def next_handle intro: less_SucI)
      qed
    next
      case (gone fd)
      with ok erase_first_bound[OF ok(3,4)] show ?thesis by (simp add: drop_fd_def)
    next
      case (tell c st i r fds)
      with ok fold_drop_fd_bound[OF ok(3,4)] show ?thesis by simp
    qed
  qed
  then show ?thesis
    by (simp add: handles_ok_def serve_count_def shn)
qed

interpretation counting: event_machine "serve_count env" "\<lambda>ev. True" handles_ok
  by unfold_locales (rule handles_ok_step)

lemma fold_serve_count:
  "fold (serve_count env) evs (sh, n) = (fold (serve env) evs sh, n + length evs)"
  by (induction evs arbitrary: sh n) (simp_all add: serve_count_def)

text \<open>The cached state of every class after a run: the last notification of it.\<close>

fun last_notice :: "string \<Rightarrow> server_event list \<Rightarrow> (PathState \<times> string \<times> int) option" where
  "last_notice c [] = None"
| "last_notice c (Notify c' st i r # evs) =
     (case last_notice c evs of
        Some x \<Rightarrow> Some x | None \<Rightarrow> if c' = c then Some (st, i, r) else None)"
| "last_notice c (_ # evs) = last_notice c evs"

definition cached :: "ConsumerApiServer \<Rightarrow> string \<Rightarrow> (PathState \<times> string \<times> int) option" where
  "cached s c =
     map_option (\<lambda>cls. (cs_state cls, cs_activeIface cls, cs_rssi cls)) (findClass (classStates s) c)"

lemma cached_serve:
  "cached (fst (serve env ev (s, h))) c =
     (case ev of
        Notify c' st i r \<Rightarrow> if c' = c \<and> cached s c \<noteq> None then Some (st, i, r) else cached s c
      | _ \<Rightarrow> cached s c)"
proof (cases rule: serve_cases[of env ev s h])
  case (gone fd)
  then show ?thesis by (cases ev) (simp_all add: cached_def)
next
  case (tell c' st i r fds)
  then show ?thesis
    by (cases "findClass (classStates s) c") (auto simp: cached_def findClass_cache_event)
qed (simp add: cached_def)

lemma cached_run:
  "cached (fst (fold (serve env) evs (s, h))) c =
     (if cached s c = None then None
      else case last_notice c evs of Some x \<Rightarrow> Some x | None \<Rightarrow> cached s c)"
proof (induction evs arbitrary: s h)
  case (Cons ev evs)
  obtain s' h' where sh: "serve env ev (s, h) = (s', h')" by (cases "serve env ev (s, h)")
  then show ?case
    using cached_serve[of env ev s h c] Cons[of s' h']
    by (cases ev) (auto split: option.split)
qed simp

lemma classes_serve:
  "findClass (classStates (fst (serve env ev (s, h)))) c = None \<longleftrightarrow>
     findClass (classStates s) c = None"
  using cached_serve[of env ev s h c]
  by (auto simp: cached_def split: server_event.splits if_splits)

subsection \<open>Calls of the handlers\<close>

text \<open>The kernel that takes every message whole.\<close>

definition takes_all :: "env \<Rightarrow> bool" where
  "takes_all env \<longleftrightarrow> (\<forall>h fd p. rc (env h (Sock (SockSend fd p))) = int (length p))"

definition msg_call :: "int \<Rightarrow> ApiMsg \<Rightarrow> call" where
  "msg_call fd m = Sock (SockSend fd (encode_msg m))"

lemma takes_all_send:
  "takes_all env \<Longrightarrow> outcome (trySendMsg env fd m) h \<and> calls (trySendMsg env fd m) h = [msg_call fd m]"
  by (simp add: trySendMsg_def takes_all_def send_loop_once encode_nonempty msg_call_def)

lemma calls_sendMsg: "calls (sendMsg env fd m) h = calls (trySendMsg env fd m) h"
  by (simp add: sendMsg_def trySendMsg_def run_simps extends_rules)

lemma send_to_class_takes_all:
  "takes_all env \<Longrightarrow>
     outcome (send_to_class env m c es) h = [] \<and>
     calls (send_to_class env m c es) h =
       map (\<lambda>e. msg_call (ent_fd e) m) (filter (\<lambda>e. ent_classId e = c) es)"
  by (induction es arbitrary: h) (simp_all add: run_simps extends_rules takes_all_send)

lemma send_to_class_dead:
  "set (outcome (send_to_class env m c es) h) \<subseteq> ent_fd ` {e \<in> set es. ent_classId e = c}"
proof (induction es arbitrary: h)
  case (Cons e es)
  show ?case
    using Cons[of h] Cons[of "h @ calls (trySendMsg env (ent_fd e) m) h"]
    by (auto simp: run_simps extends_rules split: if_splits)
qed simp

lemma send_to_class_distinct:
  "distinct (map ent_fd es) \<Longrightarrow> distinct (outcome (send_to_class env m c es) h)"
proof (induction es arbitrary: h)
  case (Cons e es)
  then show ?case
    using send_to_class_dead[of env m c es "h @ calls (trySendMsg env (ent_fd e) m) h"]
    by (auto simp: run_simps extends_rules)
qed simp

lemma fold_drop_fd_filter:
  "distinct (map ent_fd es) \<Longrightarrow> fold drop_fd fds es = filter (\<lambda>e. ent_fd e \<notin> set fds) es"
proof (induction fds arbitrary: es)
  case (Cons fd fds)
  then show ?case
    by (simp add: drop_fd_def erase_first_fst_filter distinct_map_filter)
qed simp

fun closed_fd :: "call \<Rightarrow> int option" where
  "closed_fd (Sock (CloseFd fd)) = Some fd"
| "closed_fd _ = None"

abbreviation closes :: "call list \<Rightarrow> int list" where
  "closes cs \<equiv> view closed_fd cs"

text \<open>The lines put into cgroup files.\<close>

fun put_line :: "call \<Rightarrow> (string \<times> string) option" where
  "put_line (File (StreamPut path text)) = Some (path, text)"
| "put_line _ = None"

abbreviation puts :: "call list \<Rightarrow> (string \<times> string) list" where
  "puts cs \<equiv> view put_line cs"

lemma send_loop_closes_puts:
  "closes (calls (send_loop env fd p) h) = [] \<and> puts (calls (send_loop env fd p) h) = []"
proof (induction env fd p arbitrary: h rule: send_loop.induct)
  case (1 env fd p)
  show ?case
  proof (cases "p = [] \<or> rc (env h (Sock (SockSend fd p))) \<le> 0")
    case True
    then show ?thesis by (auto simp: send_loop_run(2)[of env fd p h])
  next
    case False
    then show ?thesis
      using 1[of "env h (Sock (SockSend fd p))"] by (simp add: send_loop_run(2)[of env fd p h])
  qed
qed

lemma sends_close_nothing [simp]:
  "closes (calls (trySendMsg env fd m) h) = []" "puts (calls (trySendMsg env fd m) h) = []"
  "closes (calls (sendMsg env fd m) h) = []" "puts (calls (sendMsg env fd m) h) = []"
  by (simp_all add: calls_sendMsg trySendMsg_def send_loop_closes_puts)

lemma append_pid_closes [simp]: "closes (calls (append_pid env path pid) h) = []"
  by (simp add: append_pid_def run_simps extends_rules)

lemma cgroup_closes [simp]:
  "closes (calls (removeCgroupPid env s c pid) h) = []"
  "closes (calls (assignCgroupPid env s c pid) h) = []"
  by (simp_all add: removeCgroupPid_def assignCgroupPid_def split: option.split)

lemma send_to_class_closes [simp]: "closes (calls (send_to_class env m c es) h) = []"
  by (induction es arbitrary: h) (simp_all add: run_simps extends_rules)

lemma remove_dead_closes: "closes (calls (remove_dead env fds s) h) = fds"
  by (induction fds arbitrary: s h)
    (simp_all add: run_simps extends_rules Let_def split: option.split)

text \<open>With files that open, one line per assignment and per removal.\<close>

definition files_open :: "env \<Rightarrow> bool" where
  "files_open env \<longleftrightarrow> (\<forall>h path. rc (env h (File (OpenAppend path))) \<noteq> 0)"

lemma append_pid_puts:
  "files_open env \<Longrightarrow> puts (calls (append_pid env path pid) h) = [(path, pid_line pid)]"
  by (simp add: append_pid_def run_simps extends_rules files_open_def)

lemma findClass_new_server:
  "findClass (classStates (new_server classes path)) c = None \<longleftrightarrow> c \<notin> cls_id ` set classes"
  by (auto simp: findClass_def new_server_def find_None_iff)

subsection \<open>Properties of the registry\<close>

text \<open>Whatever clients send and whatever the kernel does, each descriptor is registered at
  most once and every registered consumer belongs to a class of the configuration.\<close>

theorem registry_invariant:
  "distinct (map ent_fd (registry (fst (fold (serve env) evs (new_server classes path, h))))) \<and>
   list_all (\<lambda>e. ent_classId e \<in> cls_id ` set classes)
     (registry (fst (fold (serve env) evs (new_server classes path, h))))"
proof -
  let ?sh = "fold (serve env) evs (new_server classes path, h)"
  have "registry_ok ?sh"
    by (rule serving.run_inv) (simp_all add: registry_ok_def new_server_def list_all_iff)
  moreover have "findClass (classStates (fst ?sh)) c \<noteq> None \<Longrightarrow> c \<in> cls_id ` set classes" for c
  proof -
    assume "findClass (classStates (fst ?sh)) c \<noteq> None"
    then have "cached (fst ?sh) c \<noteq> None"
      by (simp add: cached_def)
    then have "cached (new_server classes path) c \<noteq> None"
      by (auto simp: cached_run split: if_splits)
    then show ?thesis
      using findClass_new_server[of classes path c] by (auto simp: cached_def)
  qed
  ultimately show ?thesis
    by (simp add: registry_ok_def list_all_iff)
qed

lemma handles_positive:
  assumes "length evs < 2 ^ 64 - 1"
    and "e \<in> set (registry (fst (fold (serve env) evs (new_server classes path, h))))"
  shows "ent_handle e \<noteq> 0"
proof -
  have "handles_ok (fold (serve_count env) evs ((new_server classes path, h), 0))"
    by (rule counting.run_inv) (simp_all add: handles_ok_def new_server_def list_all_iff)
  with assms show ?thesis
    by (auto simp: handles_ok_def fold_serve_count Let_def)
qed

text \<open>C22: in the first 2^64 - 2 events no two registered consumers share a handle, no handle is
  the zero that a failed registration reports, and the next handle is a fresh one.\<close>

theorem handles_unique:
  assumes "length evs < 2 ^ 64 - 1"
  shows "let s = fst (fold (serve env) evs (new_server classes path, h))
    in distinct (map ent_handle (registry s)) \<and> nextHandle s \<noteq> 0 \<and>
       list_all (\<lambda>e. ent_handle e \<noteq> 0 \<and> ent_handle e \<noteq> nextHandle s) (registry s)"
proof -
  have "handles_ok (fold (serve_count env) evs ((new_server classes path, h), 0))"
    by (rule counting.run_inv) (simp_all add: handles_ok_def new_server_def list_all_iff)
  with assms show ?thesis
    by (auto simp: handles_ok_def fold_serve_count Let_def list_all_iff unat_gt_0)
qed

theorem handles_unique_witness:
  "nextHandle (fst (fold (serve accepting) [HungUp 5, Readable 6] (new_server [] [], []))) \<noteq> 0"
  using handles_unique[where evs = "[HungUp 5, Readable 6]" and env = accepting and classes = "[]"
      and path = "[]" and h = "[]"]
  by (simp add: Let_def)

text \<open>The registry is a map from descriptors to consumers. Registering with a known class
  puts the consumer with the next handle under its descriptor in place of any other, with an
  unknown class nothing changes; a hang-up removes the descriptor; a notification removes
  descriptors that it failed on, which are all of consumers of its class.\<close>

theorem registry_is_map:
  assumes "distinct (map ent_fd (registry s))"
  shows "find_fd (registry (outcome (removeClient env fd s) h)) = (find_fd (registry s))(fd := None) \<and>
    find_fd (registry (outcome (handleRegister env fd msg s) h)) =
      (if findClass (classStates s) (get_text (msg_classId msg)) = None then find_fd (registry s)
       else (find_fd (registry s))(fd \<mapsto> \<lparr>ent_fd = fd, ent_pid = msg_pid msg,
              ent_handle = nextHandle s, ent_classId = get_text (msg_classId msg)\<rparr>)) \<and>
    (\<exists>dead \<subseteq> ent_fd ` {e \<in> set (registry s). ent_classId e = c}.
       find_fd (registry (outcome (broadcastPathEvent env c st i r s) h)) =
         find_fd (registry s) |` (- dead))"
proof -
  have "find_fd (registry (outcome (broadcastPathEvent env c st i r s) h)) =
      find_fd (registry s) |` (- set (outcome (send_to_class env (path_event c st i r) c (registry s)) h))"
    by (simp add: outcome_broadcastPathEvent consumers.lookup_drop_all[OF assms])
  moreover note send_to_class_dead[of env "path_event c st i r" c "registry s" h]
  ultimately show ?thesis
    using consumers.lookup_drop[OF assms] consumers.lookup_put[OF assms]
    by (auto simp: outcome_removeClient outcome_handleRegister register_entry_def)
qed

text \<open>A server with one class and one consumer, for concrete runs.\<close>

definition sample_server :: ConsumerApiServer where
  "sample_server =
     (new_server [empty_config\<lparr>cls_id := ''multipath'', cgroupPath := ''/cg/mp''\<rparr>] ''/run/s'')
       \<lparr>registry := [\<lparr>ent_fd = 9, ent_pid = 77, ent_handle = 1, ent_classId = ''multipath''\<rparr>],
        nextHandle := 2, listenFd := 3, epollFd := 4, wakeupFd := 5, running := True\<rparr>"

lemma sample_server_sel [simp]:
  "registry sample_server =
     [\<lparr>ent_fd = 9, ent_pid = 77, ent_handle = 1, ent_classId = ''multipath''\<rparr>]"
  "nextHandle sample_server = 2" "running sample_server"
  "listenFd sample_server = 3" "epollFd sample_server = 4" "wakeupFd sample_server = 5"
  "findClass (classStates sample_server) ''multipath'' =
     Some \<lparr>cs_classId = ''multipath'', cs_cgroupPath = ''/cg/mp'', cs_state = Idle,
           cs_activeIface = [], cs_rssi = 0\<rparr>"
  by (simp_all add: sample_server_def new_server_def findClass_def)

theorem registry_is_map_witness:
  "find_fd (registry (outcome (removeClient accepting 9 sample_server) [])) 9 = None"
  using registry_is_map[where s = sample_server and env = accepting and fd = 9 and h = "[]"]
  by simp

text \<open>The acknowledgement of a registration with the class \<open>cls\<close>.\<close>

definition register_ack :: "ConsumerApiServer \<Rightarrow> ClassState \<Rightarrow> ApiMsg" where
  "register_ack s cls =
     zero_msg\<lparr>msg_type := MsgType_code RegisterAck, msg_handle := nextHandle s,
       msg_classId := put_text (cs_classId cls), msg_state := PathState_code (cs_state cls),
       msg_iface := put_text (cs_activeIface cls), msg_rssi := word_of_int (cs_rssi cls)\<rparr>"

lemma findClass_id: "findClass css c = Some cls \<Longrightarrow> cs_classId cls = c"
  by (auto simp: findClass_def find_Some_iff)

lemma handleRegister_calls:
  assumes "takes_all env"
    and "findClass (classStates s) (get_text (msg_classId msg)) = Some cls"
  shows "calls (handleRegister env fd msg s) h =
    calls (append_pid env (cs_cgroupPath cls @ ''/tasks'') (msg_pid msg)) h @
      [msg_call fd (register_ack s cls)]"
  using assms findClass_id[OF assms(2)]
  by (simp add: handleRegister_def assignCgroupPid_def Let_def run_simps extends_rules
      calls_sendMsg takes_all_send register_ack_def)

text \<open>A registration with a known class enters the process in the class's cgroup and is
  answered by one acknowledgement with the new handle, the class and the present state of
  the path.\<close>

theorem register_acknowledged:
  assumes "takes_all env" and "files_open env"
    and "findClass (classStates s) (get_text (msg_classId msg)) = Some cls"
  shows "\<exists>ack. calls (handleRegister env fd msg s) h =
      calls (append_pid env (cs_cgroupPath cls @ ''/tasks'') (msg_pid msg)) h @ [msg_call fd ack] \<and>
    puts (calls (handleRegister env fd msg s) h) =
      [(cs_cgroupPath cls @ ''/tasks'', pid_line (msg_pid msg))] \<and>
    msg_type ack = MsgType_code RegisterAck \<and> msg_error ack = 0 \<and>
    msg_handle ack = nextHandle s \<and>
    PathState_of_code (msg_state ack) = Some (cs_state cls) \<and>
    msg_rssi ack = word_of_int (cs_rssi cls) \<and>
    get_text (msg_classId ack) = take 31 (get_text (msg_classId msg)) \<and>
    get_text (msg_iface ack) = take 31 (c_str (cs_activeIface cls))"
proof -
  have "NUL \<notin> set (get_text (msg_classId msg))"
    by (auto simp: get_text_def dest: set_takeWhileD)
  with assms show ?thesis
    by (intro exI[of _ "register_ack s cls"])
      (simp add: handleRegister_calls append_pid_puts findClass_id register_ack_def get_put_text
        zero_msg_def msg_call_def)
qed

text \<open>Files open and messages are taken whole.\<close>

definition obliging :: env where
  "obliging h c = (case c of Sock (SockSend fd p) \<Rightarrow> reply (int (length p)) EAGAIN
                   | _ \<Rightarrow> reply 1 EAGAIN)"

lemma obliging_props: "takes_all obliging" "files_open obliging"
  by (simp_all add: takes_all_def files_open_def obliging_def)

definition register_msg :: "string \<Rightarrow> u32 \<Rightarrow> ApiMsg" where
  "register_msg c pid =
     zero_msg\<lparr>msg_type := MsgType_code Register, msg_pid := pid, msg_classId := put_text c\<rparr>"

lemma register_msg_sel [simp]:
  "msg_type (register_msg c pid) = MsgType_code Register" "msg_pid (register_msg c pid) = pid"
  "get_text (msg_classId (register_msg c pid)) = take 31 (c_str c)"
  by (simp_all add: register_msg_def get_put_text)

lemma multipath_text [simp]: "take 31 (c_str ''multipath'') = ''multipath''"
  by (simp add: c_str_def NUL_def)

theorem register_acknowledged_witness:
  "puts (calls (handleRegister obliging 8 (register_msg ''multipath'' 42) sample_server) []) =
     [(''/cg/mp/tasks'', pid_line 42)]"
proof -
  have "findClass (classStates sample_server)
      (get_text (msg_classId (register_msg ''multipath'' 42))) =
    Some \<lparr>cs_classId = ''multipath'', cs_cgroupPath = ''/cg/mp'', cs_state = Idle,
           cs_activeIface = [], cs_rssi = 0\<rparr>"
    by simp
  from register_acknowledged[OF obliging_props this, of 8 "[]"] show ?thesis by auto
qed

subsection \<open>Properties of queries and notifications\<close>

lemma cached_new_server:
  "cached (new_server classes path) c =
     (if c \<in> cls_id ` set classes then Some (Idle, [], 0) else None)"
proof (cases "c \<in> cls_id ` set classes")
  case True
  then obtain cls where "findClass (classStates (new_server classes path)) c = Some cls"
    using findClass_new_server[of classes path c] by auto
  moreover from this have "cs_state cls = Idle \<and> cs_activeIface cls = [] \<and> cs_rssi cls = 0"
    by (auto simp: findClass_def new_server_def find_Some_iff)
  ultimately show ?thesis using True by (simp add: cached_def)
next
  case False
  then show ?thesis
    using findClass_new_server[of classes path c] by (simp add: cached_def)
qed

text \<open>The answer to a query after a run: the last notification of the class, idle before the
  first, and an error for a class that is not configured.\<close>

definition query_answer :: "PathClassConfig list \<Rightarrow> server_event list \<Rightarrow> string \<Rightarrow> ApiMsg" where
  "query_answer classes evs c =
     (let ack = zero_msg\<lparr>msg_type := MsgType_code QueryAck\<rparr>
      in if c \<in> cls_id ` set classes then
           (case (case last_notice c evs of Some x \<Rightarrow> x | None \<Rightarrow> (Idle, [], 0)) of (st, i, r) \<Rightarrow>
              ack\<lparr>msg_state := PathState_code st, msg_rssi := word_of_int r,
                  msg_classId := put_text c, msg_iface := put_text i\<rparr>)
         else ack\<lparr>msg_error := ApiError_code UnknownClassId\<rparr>)"

text \<open>C23: after any sequence of client input, hang-ups and notifications, a query for a class
  of the configuration is answered by exactly one message with the state, interface and
  signal of the last notification for that class (idle before the first), and a query for
  any other class by an error; the server does not change.\<close>

theorem query_reports_last_notice:
  assumes "takes_all env"
  shows "let s = fst (fold (serve env) evs (new_server classes path, h))
    in outcome (handleQueryCurrent env fd msg s) h' = s \<and>
       calls (handleQueryCurrent env fd msg s) h' =
         [msg_call fd (query_answer classes evs (get_text (msg_classId msg)))]"
proof -
  define s where "s = fst (fold (serve env) evs (new_server classes path, h))"
  define c where "c = get_text (msg_classId msg)"
  have cache: "cached s c = (if c \<notin> cls_id ` set classes then None
      else case last_notice c evs of Some x \<Rightarrow> Some x | None \<Rightarrow> Some (Idle, [], 0))"
    by (simp add: s_def cached_run cached_new_server split: option.split)
  have "calls (handleQueryCurrent env fd msg s) h' = [msg_call fd (query_answer classes evs c)]"
    using cache assms
    by (cases "findClass (classStates s) c")
      (auto simp: handleQueryCurrent_def c_def[symmetric] Let_def run_simps extends_rules
        calls_sendMsg takes_all_send query_answer_def cached_def split: option.splits if_splits)
  then show ?thesis
    by (simp add: s_def c_def outcome_handleQueryCurrent Let_def)
qed

theorem query_reports_last_notice_witness:
  "calls (handleQueryCurrent obliging 8 (register_msg ''multipath'' 0)
     (fst (fold (serve obliging) [Notify ''multipath'' PathUp ''wlan0'' (-60), HungUp 4]
        (new_server [empty_config\<lparr>cls_id := ''multipath''\<rparr>] [], [])))) [] =
   [msg_call 8 (zero_msg\<lparr>msg_type := 6, msg_state := 3, msg_rssi := word_of_int (- 60),
      msg_classId := put_text ''multipath'', msg_iface := put_text ''wlan0''\<rparr>)]"
  using query_reports_last_notice[OF obliging_props(1), where
      evs = "[Notify ''multipath'' PathUp ''wlan0'' (-60), HungUp 4]" and
      classes = "[empty_config\<lparr>cls_id := ''multipath''\<rparr>]" and path = "[]" and h = "[]" and
      fd = 8 and msg = "register_msg ''multipath'' 0" and h' = "[]"]
  by (simp add: query_answer_def Let_def)

text \<open>When the kernel takes every message whole, a notification sends exactly one message
  to each consumer of the class, in the order of registration and to nobody else, and only
  the cached state changes.\<close>

theorem broadcast_reaches_subscribers:
  assumes "takes_all env"
  shows "calls (broadcastPathEvent env c st i r s) h =
      map (\<lambda>e. msg_call (ent_fd e) (path_event c st i r))
        (filter (\<lambda>e. ent_classId e = c) (registry s)) \<and>
    outcome (broadcastPathEvent env c st i r s) h = cache_event c st i r s"
  using assms
  by (simp add: broadcastPathEvent_def run_simps extends_rules send_to_class_takes_all Let_def)

theorem broadcast_reaches_subscribers_witness:
  "calls (broadcastPathEvent obliging ''multipath'' PathUp ''wlan0'' (-60) sample_server) [] =
     [msg_call 9 (path_event ''multipath'' PathUp ''wlan0'' (-60))]"
  using broadcast_reaches_subscribers[OF obliging_props(1), of "''multipath''" PathUp "''wlan0''"
      "-60" sample_server "[]"] by simp

text \<open>Whatever the kernel answers, a notification closes exactly the descriptors it failed
  on, each once; they belonged to consumers of the class, and every other consumer stays
  registered as it was.\<close>

theorem broadcast_drops_failed:
  assumes "distinct (map ent_fd (registry s))"
  shows "let dead = closes (calls (broadcastPathEvent env c st i r s) h)
    in distinct dead \<and>
       set dead \<subseteq> ent_fd ` {e \<in> set (registry s). ent_classId e = c} \<and>
       registry (outcome (broadcastPathEvent env c st i r s) h) =
         filter (\<lambda>e. ent_fd e \<notin> set dead) (registry s)"
proof -
  define dead where "dead = outcome (send_to_class env (path_event c st i r) c (registry s)) h"
  have "closes (calls (broadcastPathEvent env c st i r s) h) = dead"
    by (simp add: broadcastPathEvent_def run_simps extends_rules remove_dead_closes dead_def Let_def)
  moreover have "distinct dead"
    unfolding dead_def using assms by (rule send_to_class_distinct)
  moreover have "fold drop_fd dead (registry s) = filter (\<lambda>e. ent_fd e \<notin> set dead) (registry s)"
    using assms by (rule fold_drop_fd_filter)
  ultimately show ?thesis
    using send_to_class_dead[of env "path_event c st i r" c "registry s" h]
    by (simp add: Let_def outcome_broadcastPathEvent dead_def)
qed

theorem broadcast_drops_failed_witness:
  "closes (calls (broadcastPathEvent (\<lambda>h c. reply (-1) EPIPE) ''multipath'' PathUp [] 0
     sample_server) []) = [9]"
proof -
  let ?dead = "closes (calls (broadcastPathEvent (\<lambda>h c. reply (-1) EPIPE) ''multipath'' PathUp [] 0
     sample_server) [])"
  have "registry (outcome (broadcastPathEvent (\<lambda>h c. reply (-1) EPIPE) ''multipath'' PathUp [] 0
     sample_server) []) = []"
    by (simp add: outcome_broadcastPathEvent run_simps extends_rules trySendMsg_def
        send_loop_refused encode_nonempty drop_fd_def)
  then have "distinct ?dead" and "set ?dead = {9}"
    using broadcast_drops_failed[where s = sample_server and env = "\<lambda>h c. reply (-1) EPIPE" and
        c = "''multipath''" and st = PathUp and i = "[]" and r = 0 and h = "[]"]
    by (auto simp: Let_def split: if_splits)
  then have "length ?dead = 1"
    using distinct_card[of ?dead] by simp
  with \<open>set ?dead = {9}\<close> show ?thesis
    by (cases ?dead) auto
qed

end
