(* ===== verification/Api_Lifecycle.thy ===== *)
theory Api_Lifecycle
  imports Api_Correct "HOL-Library.Multiset"
begin

text \<open>
  The consumer API from start to stop: no descriptor is lost when starting fails, stopping
  closes what is open and ends the event loop, and what happens to messages out of the
  ordinary and to processes that are registered twice.
\<close>

subsection \<open>Descriptors opened and closed\<close>

text \<open>The descriptors that calls of the server itself opened.\<close>

fun opened_fd :: "call \<times> answer \<Rightarrow> int option" where
  "opened_fd (Sock SocketUnix, a) = (if rc a < 0 then None else Some (rc a))"
| "opened_fd (Sock EpollCreate, a) = (if rc a < 0 then None else Some (rc a))"
| "opened_fd (Sock EventFd, a) = (if rc a < 0 then None else Some (rc a))"
| "opened_fd (Sock (Accept4 l), a) = (if rc a < 0 then None else Some (rc a))"
| "opened_fd _ = None"

definition opens :: "env \<Rightarrow> call list \<Rightarrow> call list \<Rightarrow> int list" where
  "opens env h cs = view opened_fd (exchanges env h cs)"

lemma opens_simps [simp]:
  "opens env h [] = []"
  "opens env h (c # cs) =
     (case opened_fd (c, env h c) of None \<Rightarrow> opens env (h @ [c]) cs
      | Some fd \<Rightarrow> fd # opens env (h @ [c]) cs)"
  by (simp_all add: opens_def split: option.split)

lemma opens_append [simp]: "opens env h (cs @ ds) = opens env h cs @ opens env (h @ cs) ds"
  by (induction cs arbitrary: h) (simp_all split: option.split)

lemma extends_make_parent [extends_rules]: "extends (make_parent env path)"
  unfolding make_parent_def by (intro extends_rules)

lemma extends_epoll_add_both [extends_rules]: "extends (epoll_add_both env ep l w)"
  unfolding epoll_add_both_def by (intro extends_rules)

lemma extends_start_add [extends_rules]: "extends (start_add env l e w s)"
  unfolding start_add_def by (intro extends_rules)

lemma extends_start_wakeup [extends_rules]: "extends (start_wakeup env l e s)"
  unfolding start_wakeup_def by (intro extends_rules)

lemma extends_start_epoll [extends_rules]: "extends (start_epoll env l s)"
  unfolding start_epoll_def by (intro extends_rules)

lemma extends_start_listen [extends_rules]: "extends (start_listen env l s)"
  unfolding start_listen_def by (intro extends_rules)

lemma extends_start [extends_rules]: "extends (start env s)"
  unfolding start_def by (intro extends_rules)

lemma extends_close_open [extends_rules]: "extends (close_open env fd)"
  unfolding close_open_def by (intro extends_rules)

lemma extends_stop [extends_rules]: "extends (stop env s)"
  unfolding stop_def by (intro extends_rules)

lemma helper_fds [simp]:
  "opens env h (calls (make_parent env path) h) = []" "closes (calls (make_parent env path) h) = []"
  "opens env h (calls (epoll_add_both env ep l w) h) = []"
  "closes (calls (epoll_add_both env ep l w) h) = []"
  by (simp_all add: make_parent_def epoll_add_both_def run_simps extends_rules)

text \<open>The contract of a stage of \<^verbatim>\<open>start\<close> that holds the descriptors \<open>held\<close>: it fails with all of
  them and its own closed, or succeeds with all of them in the server.\<close>

definition stage_ok ::
  "env \<Rightarrow> int list \<Rightarrow> (ApiError status \<times> ConsumerApiServer) os \<Rightarrow> call list \<Rightarrow> bool" where
  "stage_ok env held p h \<longleftrightarrow>
     (let (r, s) = outcome p h
      in if r = ok
         then closes (calls p h) = [] \<and> running s \<and>
              held @ opens env h (calls p h) = [listenFd s, epollFd s, wakeupFd s]
         else mset (closes (calls p h)) = mset held + mset (opens env h (calls p h)) \<and>
              \<not> running s \<and> listenFd s < 0 \<and> epollFd s < 0 \<and> wakeupFd s < 0)"

text \<open>A server that is stopped and holds no descriptor of its own.\<close>

definition all_closed :: "ConsumerApiServer \<Rightarrow> bool" where
  "all_closed s \<longleftrightarrow> \<not> running s \<and> listenFd s < 0 \<and> epollFd s < 0 \<and> wakeupFd s < 0"

lemma start_add_ok: "all_closed s \<Longrightarrow> stage_ok env [l, e, w] (start_add env l e w s) h"
  by (simp add: stage_ok_def all_closed_def start_add_def run_simps extends_rules)

lemma start_wakeup_ok: "all_closed s \<Longrightarrow> stage_ok env [l, e] (start_wakeup env l e s) h"
  using start_add_ok[of s env l e "rc (env h (Sock EventFd))" "h @ [Sock EventFd]"]
  by (auto simp: stage_ok_def start_wakeup_def all_closed_def run_simps extends_rules
      split: prod.splits if_splits)

lemma start_epoll_ok: "all_closed s \<Longrightarrow> stage_ok env [l] (start_epoll env l s) h"
  using start_wakeup_ok[of s env l "rc (env h (Sock EpollCreate))" "h @ [Sock EpollCreate]"]
  by (auto simp: stage_ok_def start_epoll_def all_closed_def run_simps extends_rules
      split: prod.splits if_splits)

lemma start_listen_ok: "all_closed s \<Longrightarrow> stage_ok env [l] (start_listen env l s) h"
  using start_epoll_ok[of s env l "h @ [Sock (BindUnix l (take 107 (c_str (socketPath s)))),
      File (Chmod (socketPath s)), Sock (ListenFd l)]"]
  by (auto simp: stage_ok_def start_listen_def all_closed_def run_simps extends_rules
      split: prod.splits if_splits)

lemma start_ok:
  assumes "all_closed s"
  shows "stage_ok env [] (start env s) h"
proof -
  let ?h = "h @ calls (make_parent env (socketPath s)) h @ [File (Unlink (socketPath s))]"
  show ?thesis
    using start_listen_ok[OF assms, of env "rc (env ?h (Sock SocketUnix))" "?h @ [Sock SocketUnix]"]
      assms
    by (auto simp: stage_ok_def start_def all_closed_def run_simps extends_rules
        split: prod.splits if_splits)
qed

text \<open>C29: when the server does not start, every descriptor it opened on the way is closed again,
  once, and it is left stopped with no descriptor; when it starts, nothing is closed and its
  three descriptors are the ones it opened.\<close>

theorem start_leaks_nothing:
  assumes "all_closed s"
  shows "let (r, s') = outcome (start env s) h; cs = calls (start env s) h
    in if r = ok
       then closes cs = [] \<and> running s' \<and>
            opens env h cs = [listenFd s', epollFd s', wakeupFd s']
       else mset (closes cs) = mset (opens env h cs) \<and> all_closed s'"
  using start_ok[OF assms, of env h]
  by (auto simp: stage_ok_def all_closed_def Let_def split: prod.splits)

theorem start_leaks_nothing_witness:
  "fst (outcome (start (\<lambda>h c. reply (if c = Sock EventFd then - 1 else 0) EAGAIN)
     (new_server [] ''/run/x'')) []) = Inl SocketError \<and>
   mset (closes (calls (start (\<lambda>h c. reply (if c = Sock EventFd then - 1 else 0) EAGAIN)
     (new_server [] ''/run/x'')) [])) =
   mset (opens (\<lambda>h c. reply (if c = Sock EventFd then - 1 else 0) EAGAIN) []
     (calls (start (\<lambda>h c. reply (if c = Sock EventFd then - 1 else 0) EAGAIN)
       (new_server [] ''/run/x'')) []))"
proof -
  let ?env = "\<lambda>h c. reply (if c = Sock EventFd then - 1 else 0) EAGAIN"
  have "fst (outcome (start ?env (new_server [] ''/run/x'')) []) = Inl SocketError"
    by (simp add: start_def start_listen_def start_epoll_def start_wakeup_def run_simps
        extends_rules)
  moreover have "all_closed (new_server [] ''/run/x'')"
    by (simp add: all_closed_def new_server_def)
  ultimately show ?thesis
    using start_leaks_nothing[of "new_server [] ''/run/x''" ?env "[]"]
    by (auto simp: Let_def split: prod.splits)
qed

subsection \<open>Stopping\<close>

definition close_entry :: "env \<Rightarrow> ConsumerEntry \<Rightarrow> unit os" where
  "close_entry env e = do { _ \<leftarrow> perform env (Sock (CloseFd (ent_fd e))); return () }"

interpretation closing: observed_action "close_entry env" closed_fd "\<lambda>e. [ent_fd e]"
  by unfold_locales (auto simp: close_entry_def run_simps extends_rules intro!: extends_rules)

lemma closes_entries: "closes (calls (for_do (close_entry env) es) h) = map ent_fd es"
  by (simp add: closing.sweep_out)

lemma stop_entries:
  "(\<lambda>e. do { _ \<leftarrow> perform env (Sock (CloseFd (ent_fd e))); return () }) = close_entry env"
  by (simp add: close_entry_def fun_eq_iff)

lemma extends_close_entry [extends_rules]: "extends (close_entry env e)"
  unfolding close_entry_def by (intro extends_rules)

text \<open>C30: stopping a started server closes every registered client and then its own three
  descriptors, each once, and leaves a server that is all closed with nobody registered;
  stopping it again does nothing.\<close>

theorem stop_closes_all:
  assumes "running s" and "listenFd s \<ge> 0" and "epollFd s \<ge> 0" and "wakeupFd s \<ge> 0"
  shows "let s' = outcome (stop env s) h
    in closes (calls (stop env s) h) =
         map ent_fd (registry s) @ [wakeupFd s, epollFd s, listenFd s] \<and>
       all_closed s' \<and> registry s' = [] \<and>
       calls (stop env s') h' = [] \<and> outcome (stop env s') h' = s'"
  using assms
  by (simp add: stop_def stop_entries close_open_def all_closed_def run_simps extends_rules
      closes_entries Let_def)

theorem stop_closes_all_witness:
  "closes (calls (stop obliging sample_server) []) = [9, 5, 4, 3]"
  using stop_closes_all[of sample_server obliging "[]"] by (simp add: Let_def)

subsection \<open>The event loop\<close>

lemma extends_handle_events [extends_rules]: "extends (handle_events env k evs s)"
proof (induction evs arbitrary: s)
  case (Cons ev evs)
  then show ?case
    by (cases ev) (auto intro!: extends_rules)
qed simp

lemma wakeup_apply_msg [simp]:
  "wakeupFd (apply_msg fd m s) = wakeupFd s" "listenFd (apply_msg fd m s) = listenFd s"
  "epollFd (apply_msg fd m s) = epollFd s" "running (apply_msg fd m s) = running s"
  by (simp_all add: apply_msg_def register_entry_def unregister_entry_def
      split: option.split MsgType.split)

lemma wakeup_drop_client [simp]:
  "wakeupFd (drop_client fd s) = wakeupFd s" "listenFd (drop_client fd s) = listenFd s"
  "epollFd (drop_client fd s) = epollFd s" "running (drop_client fd s) = running s"
  by (simp_all add: drop_client_def)

lemma wakeup_handleClient [simp]:
  "wakeupFd (outcome (handleClient env fd s) h) = wakeupFd s"
  by (simp add: outcome_handleClient split: option.split)

lemma handle_events_wakeup:
  "wakeupFd s \<in> fst ` set evs \<Longrightarrow> fst (outcome (handle_events env k evs s) h)"
proof (induction evs arbitrary: s h)
  case (Cons ev evs)
  obtain fd flags where ev: "ev = (fd, flags)" by (cases ev)
  show ?case
  proof (cases "fd = wakeupFd s")
    case False
    with Cons.prems have "wakeupFd s \<in> fst ` set evs"
      by (auto simp: ev)
    with False Cons.IH show ?thesis
      by (simp add: ev run_simps extends_rules outcome_removeClient)
  qed (simp add: ev)
qed simp

lemma extends_runLoop [extends_rules]: "extends (runLoop env k n s)"
  by (induction n arbitrary: s) (auto intro!: extends_rules)

text \<open>Once the wake-up descriptor is among the events a wait reports, the event loop ends in
  that round, whatever came with it and however few rounds are left.\<close>

theorem run_loop_wakes_up:
  assumes "rc (env h (Sock (EpollWait (epollFd s)))) = int n"
    and "wakeupFd s \<in> fst ` set (take n (ready (env h (Sock (EpollWait (epollFd s))))))"
  shows "fst (outcome (runLoop env k (Suc rounds) s) h)"
proof -
  let ?a = "env h (Sock (EpollWait (epollFd s)))"
  have "fst (outcome (handle_events env k (take n (ready ?a)) s) (h @ [Sock (EpollWait (epollFd s))]))"
    by (rule handle_events_wakeup[OF assms(2)])
  with assms(1) show ?thesis
    by (auto simp: run_simps extends_rules split: prod.split)
qed

definition woken :: env where
  "woken h c = (case c of Sock (EpollWait ep) \<Rightarrow>
       (reply 2 EAGAIN)\<lparr>ready := [(9, [EPOLLHUP]), (5, [EPOLLIN])]\<rparr>
     | _ \<Rightarrow> reply 0 EAGAIN)"

theorem run_loop_wakes_up_witness:
  "fst (outcome (runLoop woken 8 1 sample_server) [])"
proof -
  have "rc (woken [] (Sock (EpollWait (epollFd sample_server)))) = int 2"
    "wakeupFd sample_server \<in>
       fst ` set (take 2 (ready (woken [] (Sock (EpollWait (epollFd sample_server))))))"
    by (simp_all add: woken_def)
  then show ?thesis
    using run_loop_wakes_up[of woken "[]" sample_server 2 8 0] by simp
qed

text \<open>The accepted connections that epoll watches.\<close>

fun watched_fd :: "call \<times> answer \<Rightarrow> int option" where
  "watched_fd (Sock (EpollAdd ep fd), a) = (if rc a < 0 then None else Some fd)"
| "watched_fd _ = None"

definition watched :: "env \<Rightarrow> call list \<Rightarrow> call list \<Rightarrow> int list" where
  "watched env h cs = view watched_fd (exchanges env h cs)"

lemma watched_simps [simp]:
  "watched env h [] = []"
  "watched env h (c # cs) =
     (case watched_fd (c, env h c) of None \<Rightarrow> watched env (h @ [c]) cs
      | Some fd \<Rightarrow> fd # watched env (h @ [c]) cs)"
  by (simp_all add: watched_def split: option.split)

definition accepts :: "int \<Rightarrow> call list \<Rightarrow> nat" where
  "accepts l h = length (filter (\<lambda>c. c = Sock (Accept4 l)) h)"

lemma accepts_append [simp]: "accepts l (h @ cs) = accepts l h + accepts l cs"
  by (simp add: accepts_def)

lemma accept_balance:
  "mset (opens env h (calls (handleAccept env n s) h)) =
     mset (watched env h (calls (handleAccept env n s) h)) +
     mset (closes (calls (handleAccept env n s) h))"
  by (induction n arbitrary: h) (simp_all add: run_simps extends_rules)

lemma accept_finishes:
  assumes "\<And>h'. accepts (listenFd s) h + n \<le> accepts (listenFd s) h' \<Longrightarrow>
      rc (env h' (Sock (Accept4 (listenFd s)))) < 0"
  shows "outcome (handleAccept env (Suc n) s) h"
  using assms
proof (induction n arbitrary: h)
  case 0
  then show ?case by (simp add: run_simps extends_rules)
next
  case (Suc n)
  let ?l = "listenFd s"
  have "outcome (handleAccept env (Suc n) s) (h @ Sock (Accept4 ?l) # cs)" for cs
  proof (rule Suc.IH)
    fix h'
    assume "accepts ?l (h @ Sock (Accept4 ?l) # cs) + n \<le> accepts ?l h'"
    then have "accepts ?l h + Suc n \<le> accepts ?l h'"
      by (simp add: accepts_def)
    then show "rc (env h' (Sock (Accept4 ?l))) < 0"
      by (rule Suc.prems)
  qed
  then show ?case
    by (simp only: handleAccept.simps(2)[of env "Suc n"])
      (simp add: run_simps extends_rules del: handleAccept.simps)
qed

text \<open>The accept loop ends: when no more than \<open>n\<close> connections wait it has taken them all after
  \<open>n + 1\<close> tries, and every descriptor it accepted is watched by epoll or closed again.\<close>

theorem accept_loop_ends:
  assumes "\<And>h'. accepts (listenFd s) h + n \<le> accepts (listenFd s) h' \<Longrightarrow>
      rc (env h' (Sock (Accept4 (listenFd s)))) < 0"
  shows "outcome (handleAccept env (Suc n) s) h \<and>
    mset (opens env h (calls (handleAccept env (Suc n) s) h)) =
      mset (watched env h (calls (handleAccept env (Suc n) s) h)) +
      mset (closes (calls (handleAccept env (Suc n) s) h))"
  using accept_finishes[where s = s and h = h and n = n and env = env] assms accept_balance
  by blast

text \<open>Two connections, numbered from 10, the second of which epoll refuses.\<close>

definition two_clients :: env where
  "two_clients h c =
     (case c of
        Sock (Accept4 l) \<Rightarrow>
          reply (if accepts 3 h < 2 then 10 + int (accepts 3 h) else - 1) EAGAIN
      | Sock (EpollAdd ep fd) \<Rightarrow> reply (if fd = 11 then - 1 else 0) EAGAIN
      | _ \<Rightarrow> reply 0 EAGAIN)"

theorem accept_loop_ends_witness:
  "outcome (handleAccept two_clients 3 sample_server) [] \<and>
   opens two_clients [] (calls (handleAccept two_clients 3 sample_server) []) = [10, 11] \<and>
   watched two_clients [] (calls (handleAccept two_clients 3 sample_server) []) = [10]"
proof -
  have "outcome (handleAccept two_clients (Suc 2) sample_server) []"
    using accept_loop_ends[of sample_server "[]" 2 two_clients]
    by (simp add: two_clients_def accepts_def del: handleAccept.simps)
  then show ?thesis
    by (simp add: eval_nat_numeral run_simps extends_rules two_clients_def accepts_def)
qed

subsection \<open>Unusual clients\<close>

text \<open>A message that is not one of the three requests, or names an unknown class or an
  unknown handle, changes nothing and touches no cgroup; it is answered by one message with
  a non-zero error.\<close>

theorem bad_request_refused:
  assumes "takes_all env"
    and "MsgType_of_code (msg_type msg) \<notin> {Some Register, Some Unregister, Some QueryCurrent} \<or>
      msg_type msg = MsgType_code Register \<and>
        findClass (classStates s) (get_text (msg_classId msg)) = None \<or>
      msg_type msg = MsgType_code Unregister \<and>
        msg_handle msg \<notin> ent_handle ` set (registry s)"
  shows "outcome (dispatch env fd msg s) h = s \<and>
    (\<exists>ack. calls (dispatch env fd msg s) h = [msg_call fd ack] \<and> msg_error ack \<noteq> 0)"
proof -
  have "find (\<lambda>e. ent_handle e = msg_handle msg) (registry s) = None"
    if "msg_handle msg \<notin> ent_handle ` set (registry s)"
    using that by (auto simp: find_None_iff image_iff)
  with assms show ?thesis
    by (auto simp: dispatch_def handleRegister_def handleUnregister_def run_simps extends_rules
        calls_sendMsg takes_all_send error_ack_def Let_def split: option.split MsgType.split)
qed

theorem bad_request_refused_witness:
  "outcome (dispatch obliging 8 (register_msg ''nowhere'' 1) sample_server) [] = sample_server"
proof -
  have "findClass (classStates sample_server) (get_text (msg_classId (register_msg ''nowhere'' 1))) = None"
    by (simp add: c_str_def NUL_def sample_server_def new_server_def findClass_def)
  then show ?thesis
    using bad_request_refused[OF obliging_props(1), of "register_msg ''nowhere'' 1" sample_server 8 "[]"]
    by simp
qed

lemma erase_first_append:
  "find P xs = None \<Longrightarrow> erase_first P (xs @ ys) = xs @ erase_first P ys"
  by (induction xs) (auto split: if_splits)

lemma dispatch_register:
  "msg_type msg = MsgType_code Register \<Longrightarrow> dispatch env fd msg s = handleRegister env fd msg s"
  by (simp add: dispatch_def)

lemma handleRegister_puts:
  "files_open env \<Longrightarrow> findClass (classStates s) (get_text (msg_classId msg)) = Some cls \<Longrightarrow>
     puts (calls (handleRegister env fd msg s) h) =
       [(cs_cgroupPath cls @ ''/tasks'', pid_line (msg_pid msg))]"
  by (simp add: handleRegister_def assignCgroupPid_def Let_def run_simps extends_rules
      append_pid_puts)

text \<open>C31: a consumer that registers again on its connection with another process is dropped
  without its first process being moved: after the connection has gone, the only process
  moved back to the root cgroup is the second one.\<close>

theorem reregistered_process_stays:
  assumes "files_open env"
    and "findClass (classStates s) (get_text (msg_classId m1)) = Some c1"
    and "findClass (classStates s) (get_text (msg_classId m2)) = Some c2"
    and "msg_type m1 = MsgType_code Register" and "msg_type m2 = MsgType_code Register"
    and "fd \<notin> ent_fd ` set (registry s)"
  shows "let p = do { s1 \<leftarrow> dispatch env fd m1 s; s2 \<leftarrow> dispatch env fd m2 s1; removeClient env fd s2 }
    in puts (calls p h) =
         [(cs_cgroupPath c1 @ ''/tasks'', pid_line (msg_pid m1)),
          (cs_cgroupPath c2 @ ''/tasks'', pid_line (msg_pid m2)),
          (kCgroupRoot, pid_line (msg_pid m2))] \<and>
       registry (outcome p h) = registry s"
proof -
  define s1 where "s1 = register_entry fd m1 s"
  define s2 where "s2 = register_entry fd m2 s1"
  have fresh: "filter (\<lambda>e. ent_fd e \<noteq> fd) (registry s) = registry s"
    using assms(6) by (auto intro!: filter_True)
  have known: "classStates s1 = classStates s" "classStates s2 = classStates s"
    by (simp_all add: s1_def s2_def)
  have reg2: "registry s2 = registry s @ [\<lparr>ent_fd = fd, ent_pid = msg_pid m2,
      ent_handle = nextHandle s1, ent_classId = get_text (msg_classId m2)\<rparr>]"
    using assms(2,3) known
    by (simp add: s2_def s1_def register_entry_def put_entry_def fresh)
  have here: "find (\<lambda>e. ent_fd e = fd) (registry s) = None"
    using assms(6) by (auto simp: find_None_iff image_iff)
  have left: "drop_fd fd (registry s2) = registry s"
    by (simp add: reg2 drop_fd_def erase_first_append here)
  have r1: "puts (calls (dispatch env fd m1 s) h) =
      [(cs_cgroupPath c1 @ ''/tasks'', pid_line (msg_pid m1))]" for h
    using assms by (simp add: dispatch_register handleRegister_puts)
  have r2: "puts (calls (dispatch env fd m2 s1) h) =
      [(cs_cgroupPath c2 @ ''/tasks'', pid_line (msg_pid m2))]" for h
    using assms known by (simp add: dispatch_register handleRegister_puts)
  have r3: "puts (calls (removeClient env fd s2) h) = [(kCgroupRoot, pid_line (msg_pid m2))]" for h
    using assms(1,3) known
    by (simp add: removeClient_def reg2 find_append here removeCgroupPid_def append_pid_puts
        run_simps extends_rules)
  have "outcome (dispatch env fd m1 s) h = s1" "outcome (dispatch env fd m2 s1) h = s2" for h
    using assms(4,5) by (simp_all add: outcome_dispatch apply_msg_def s1_def s2_def)
  then show ?thesis
    by (simp add: Let_def run_simps extends_rules r1 r2 r3 outcome_removeClient left)
qed

theorem reregistered_process_stays_witness:
  "puts (calls (do {
      s1 \<leftarrow> dispatch obliging 8 (register_msg ''multipath'' 42) sample_server;
      s2 \<leftarrow> dispatch obliging 8 (register_msg ''multipath'' 43) s1;
      removeClient obliging 8 s2 }) []) =
   [(''/cg/mp/tasks'', pid_line 42), (''/cg/mp/tasks'', pid_line 43), (kCgroupRoot, pid_line 43)]"
  using reregistered_process_stays[OF obliging_props(2), of sample_server
      "register_msg ''multipath'' 42" _ "register_msg ''multipath'' 43" _ 8 "[]"]
  by (simp add: Let_def)

end
