(* ===== verification/Ip_Rules.thy ===== *)
theory Ip_Rules
  imports Syscalls Number_Text
begin

text \<open>
  The netlink half of \<^verbatim>\<open>routing/routing_policy_manager.cpp\<close>: the rules that send marked
  packets to the table of their class, and the default routes in those tables. A message is
  sent on a socket of its own, which a smart pointer closes on every path. Before it, the
  lookup of a gateway in \<^verbatim>\<open>/proc/net/route\<close>.
\<close>

subsection \<open>One exchange\<close>

text \<open>
  The common body of \<^verbatim>\<open>sendNetlinkFwmarkRule\<close> and \<^verbatim>\<open>sendRouteMsg\<close>: open and bind a socket, send
  the message made for the sequence number, read the answer and let libmnl judge it. A
  failure to receive or a negative verdict is forgiven when \<open>tolerated\<close> says so of \<^verbatim>\<open>errno\<close>.
\<close>

definition nl_answer :: "env \<Rightarrow> u32 \<Rightarrow> u32 \<Rightarrow> (errno \<Rightarrow> bool) \<Rightarrow> RoutingError status os" where
  "nl_answer env seq portid tolerated = do {
     a \<leftarrow> perform env (Nl NlRecv);
     (if rc a < 0 then return (if tolerated (err a) then ok else Inl NetlinkError)
      else do {
        v \<leftarrow> perform env (Nl (NlCbRun (nat (rc a)) seq portid));
        return (if rc v < 0 then if tolerated (err v) then ok else Inl NetlinkError else ok) }) }"

definition nl_talk :: "env \<Rightarrow> (u32 \<Rightarrow> nlmsg) \<Rightarrow> (errno \<Rightarrow> bool) \<Rightarrow> RoutingError status os" where
  "nl_talk env mk tolerated = do {
     b \<leftarrow> perform env (Nl NlBind);
     (if rc b < 0 then return (Inl NetlinkError)
      else do {
        t \<leftarrow> perform env (Nl TimeNow);
        p \<leftarrow> perform env (Nl NlPortid);
        s \<leftarrow> perform env (Nl (NlSend (mk (word_of_int (rc t)))));
        (if rc s < 0 then return (Inl NetlinkError)
         else nl_answer env (word_of_int (rc t)) (word_of_int (rc p)) tolerated) }) }"

definition nl_exchange :: "env \<Rightarrow> (u32 \<Rightarrow> nlmsg) \<Rightarrow> (errno \<Rightarrow> bool) \<Rightarrow> RoutingError status os" where
  "nl_exchange env mk tolerated = do {
     raw \<leftarrow> perform env (Nl (NlOpen NETLINK_ROUTE));
     (if rc raw = 0 then return (Inl NetlinkError)
      else finally_call env (Nl NlClose) (nl_talk env mk tolerated)) }"

subsection \<open>Fwmark rules\<close>

definition kIpRulePriority :: u32 where "kIpRulePriority = 32765"

definition rule_header :: rtmsg where
  "rule_header =
     \<lparr>rtm_family = AF_INET, rtm_dst_len = 0, rtm_src_len = 0, rtm_tos = 0,
      rtm_table = RT_TABLE_UNSPEC, rtm_protocol = RTPROT_BOOT, rtm_scope = RT_SCOPE_UNIVERSE,
      rtm_type = RTN_UNICAST, rtm_flags = 0\<rparr>"

definition rule_msg :: "nl_type \<Rightarrow> nl_flag set \<Rightarrow> u32 \<Rightarrow> u32 \<Rightarrow> u32 \<Rightarrow> nlmsg" where
  "rule_msg msgType extraFlags fwmark table seq =
     \<lparr>nlmsg_type = msgType, nlmsg_flags = {NLM_F_REQUEST, NLM_F_ACK} \<union> extraFlags,
      nlmsg_seq = seq, nlmsg_hdr = Rtmsg rule_header,
      nlmsg_attrs = [FRA_FWMARK fwmark, FRA_TABLE table, FRA_PRIORITY kIpRulePriority]\<rparr>"

definition rule_tolerated :: "nl_type \<Rightarrow> errno \<Rightarrow> bool" where
  "rule_tolerated msgType e \<longleftrightarrow>
     (msgType = RTM_NEWRULE \<and> e = EEXIST) \<or> (msgType = RTM_DELRULE \<and> e = ENOENT)"

definition sendNetlinkFwmarkRule ::
  "env \<Rightarrow> nl_type \<Rightarrow> nl_flag set \<Rightarrow> u32 \<Rightarrow> u32 \<Rightarrow> RoutingError status os" where
  "sendNetlinkFwmarkRule env msgType extraFlags fwmark table =
     nl_exchange env (rule_msg msgType extraFlags fwmark table) (rule_tolerated msgType)"

text \<open>The bodies of the two loops, and the loops: adding stops at the first error, removing
  only warns.\<close>

definition add_rule :: "env \<Rightarrow> PathClassConfig \<Rightarrow> RoutingError status os" where
  "add_rule env cls = sendNetlinkFwmarkRule env RTM_NEWRULE {NLM_F_CREATE, NLM_F_EXCL}
     (mark cls) (routingTable cls)"

definition delete_rule :: "env \<Rightarrow> PathClassConfig \<Rightarrow> RoutingError status os" where
  "delete_rule env cls = sendNetlinkFwmarkRule env RTM_DELRULE {} (mark cls) (routingTable cls)"

definition addIpRules :: "env \<Rightarrow> PathClassConfig list \<Rightarrow> RoutingError status os" where
  "addIpRules env classes = for_each (add_rule env) classes"

definition removeIpRules :: "env \<Rightarrow> PathClassConfig list \<Rightarrow> unit os" where
  "removeIpRules env classes = for_do (\<lambda>cls. do { _ \<leftarrow> delete_rule env cls; return () }) classes"

subsection \<open>Default routes\<close>

definition route_header :: rtmsg where
  "route_header =
     \<lparr>rtm_family = AF_INET, rtm_dst_len = 0, rtm_src_len = 0, rtm_tos = 0,
      rtm_table = RT_TABLE_UNSPEC, rtm_protocol = RTPROT_STATIC, rtm_scope = RT_SCOPE_UNIVERSE,
      rtm_type = RTN_UNICAST, rtm_flags = 0\<rparr>"

definition route_msg :: "u32 \<Rightarrow> u32 \<Rightarrow> u32 \<Rightarrow> nl_type \<Rightarrow> nl_flag set \<Rightarrow> u32 \<Rightarrow> nlmsg" where
  "route_msg gwAddr ifindex table msgType extraFlags seq =
     \<lparr>nlmsg_type = msgType, nlmsg_flags = {NLM_F_REQUEST, NLM_F_ACK} \<union> extraFlags,
      nlmsg_seq = seq, nlmsg_hdr = Rtmsg route_header,
      nlmsg_attrs = (if gwAddr \<noteq> 0 then [RTA_GATEWAY gwAddr] else []) @
        [RTA_OIF ifindex, RTA_TABLE table]\<rparr>"

definition route_tolerated :: "nl_type \<Rightarrow> errno \<Rightarrow> bool" where
  "route_tolerated msgType e \<longleftrightarrow>
     (msgType = RTM_NEWROUTE \<and> e = EEXIST) \<or> (msgType = RTM_DELROUTE \<and> e = ENOENT)"

definition sendRouteMsg ::
  "env \<Rightarrow> u32 \<Rightarrow> u32 \<Rightarrow> u32 \<Rightarrow> nl_type \<Rightarrow> nl_flag set \<Rightarrow> RoutingError status os" where
  "sendRouteMsg env gwAddr ifindex table msgType extraFlags =
     nl_exchange env (route_msg gwAddr ifindex table msgType extraFlags) (route_tolerated msgType)"

definition addDefaultRoute :: "env \<Rightarrow> string \<Rightarrow> u32 \<Rightarrow> u32 \<Rightarrow> RoutingError status os" where
  "addDefaultRoute env iface gwAddr table = do {
     i \<leftarrow> perform env (Nl (IfNameToIndex iface));
     (if rc i = 0 then return (Inl NetlinkError)
      else sendRouteMsg env gwAddr (word_of_int (rc i)) table RTM_NEWROUTE
             {NLM_F_CREATE, NLM_F_REPLACE}) }"

definition removeDefaultRoute :: "env \<Rightarrow> string \<Rightarrow> u32 \<Rightarrow> RoutingError status os" where
  "removeDefaultRoute env iface table = do {
     i \<leftarrow> perform env (Nl (IfNameToIndex iface));
     (if rc i = 0 then return ok
      else sendRouteMsg env 0 (word_of_int (rc i)) table RTM_DELROUTE {}) }"

subsection \<open>The gateway of an interface\<close>

text \<open>\<^verbatim>\<open>htonl\<close> on the little-endian target: the value with the bytes in reverse.\<close>

definition htonl :: "u32 \<Rightarrow> u32" where
  "htonl w = u32_of_bytes (rev (u32_bytes w))"

lemma htonl_reverses: "u32_bytes (htonl w) = rev (u32_bytes w)"
  by (simp add: htonl_def u32_field.enc_dec u32_field.enc_length)

text \<open>\<^verbatim>\<open>getline\<close> over the rest of a file, and \<^verbatim>\<open>ss >> word\<close> over a line.\<close>

fun lines_of :: "string \<Rightarrow> string list" where
  "lines_of [] = []"
| "lines_of (c # cs) =
     (if c = CHR 0x0A then [] # lines_of cs
      else case lines_of cs of [] \<Rightarrow> [[c]] | l # ls \<Rightarrow> (c # l) # ls)"

fun words_of :: "string \<Rightarrow> string list" where
  "words_of [] = []"
| "words_of (c # cs) =
     (if is_space c then words_of cs
      else case cs of
        [] \<Rightarrow> [[c]]
      | d # _ \<Rightarrow> if is_space d then [c] # words_of cs
                 else case words_of cs of [] \<Rightarrow> [[c]] | w # ws \<Rightarrow> (c # w) # ws)"

definition default_destination :: string where "default_destination = ''00000000''"

text \<open>One line of the loop: \<open>None\<close> is \<^verbatim>\<open>continue\<close>. \<open>bits\<close> is the width of \<^verbatim>\<open>unsigned long\<close>.\<close>

definition gateway_of_line :: "nat \<Rightarrow> string \<Rightarrow> string \<Rightarrow> u32 option" where
  "gateway_of_line bits iface line =
     (case words_of line of
        dev # dst # gw # _ \<Rightarrow>
          if dev \<noteq> iface then None
          else if dst \<noteq> default_destination then None
          else (case stoul bits gw 16 of
                  Inl _ \<Rightarrow> None
                | Inr gwHex \<Rightarrow> Some (htonl (word_of_nat gwHex)))
      | _ \<Rightarrow> None)"

fun first_gateway :: "nat \<Rightarrow> string \<Rightarrow> string list \<Rightarrow> u32" where
  "first_gateway bits iface [] = 0"
| "first_gateway bits iface (line # rest) =
     (case gateway_of_line bits iface line of
        Some gw \<Rightarrow> gw | None \<Rightarrow> first_gateway bits iface rest)"

definition queryGatewayForIface :: "env \<Rightarrow> nat \<Rightarrow> string \<Rightarrow> u32 os" where
  "queryGatewayForIface env bits iface = do {
     f \<leftarrow> perform env (File (ReadFile ''/proc/net/route''));
     return (if rc f = 0 then 0 else first_gateway bits iface (drop 1 (lines_of (content f)))) }"

subsection \<open>Calls\<close>

lemma extends_nl_answer [extends_rules]: "extends (nl_answer env seq p tol)"
  unfolding nl_answer_def by (intro extends_rules)

lemma extends_nl_talk [extends_rules]: "extends (nl_talk env mk tol)"
  unfolding nl_talk_def by (intro extends_rules)

lemma extends_nl_exchange [extends_rules]: "extends (nl_exchange env mk tol)"
  unfolding nl_exchange_def by (intro extends_rules)

lemma extends_sendNetlinkFwmarkRule [extends_rules]: "extends (sendNetlinkFwmarkRule env t f m tb)"
  unfolding sendNetlinkFwmarkRule_def by (intro extends_rules)

lemma extends_sendRouteMsg [extends_rules]: "extends (sendRouteMsg env g i tb t f)"
  unfolding sendRouteMsg_def by (intro extends_rules)

lemma extends_add_rule [extends_rules]: "extends (add_rule env cls)" "extends (delete_rule env cls)"
  unfolding add_rule_def delete_rule_def by (intro extends_rules)+

lemma extends_addIpRules [extends_rules]: "extends (addIpRules env classes)"
  unfolding addIpRules_def by (intro extends_rules)

lemma extends_removeIpRules [extends_rules]: "extends (removeIpRules env classes)"
  unfolding removeIpRules_def by (intro extends_rules)

lemma extends_addDefaultRoute [extends_rules]: "extends (addDefaultRoute env iface gw tb)"
  unfolding addDefaultRoute_def by (intro extends_rules)

lemma extends_removeDefaultRoute [extends_rules]: "extends (removeDefaultRoute env iface tb)"
  unfolding removeDefaultRoute_def by (intro extends_rules)

text \<open>What matters of a message that is sent, and the life of the sockets: \<open>True\<close> for one that
  opened, \<open>False\<close> for one that closed.\<close>

fun nl_sent :: "call \<Rightarrow> (nl_type \<times> nl_flag set \<times> nl_attr list) option" where
  "nl_sent (Nl (NlSend m)) = Some (nlmsg_type m, nlmsg_flags m, nlmsg_attrs m)"
| "nl_sent _ = None"

fun nl_socket :: "call \<times> answer \<Rightarrow> bool option" where
  "nl_socket (Nl (NlOpen p), a) = (if rc a = 0 then None else Some True)"
| "nl_socket (Nl NlClose, a) = Some False"
| "nl_socket _ = None"

fun one_at_a_time :: "bool list \<Rightarrow> bool" where
  "one_at_a_time [] \<longleftrightarrow> True"
| "one_at_a_time (True # False # bs) \<longleftrightarrow> one_at_a_time bs"
| "one_at_a_time _ \<longleftrightarrow> False"

lemma one_at_a_time_append:
  "one_at_a_time bs \<Longrightarrow> one_at_a_time (bs @ cs) \<longleftrightarrow> one_at_a_time cs"
  by (induction bs rule: one_at_a_time.induct) auto

definition sockets_closed :: "env \<Rightarrow> call list \<Rightarrow> call list \<Rightarrow> bool" where
  "sockets_closed env h cs \<longleftrightarrow> one_at_a_time (view nl_socket (exchanges env h cs))"

lemma sockets_closed_append:
  "sockets_closed env h cs \<Longrightarrow> sockets_closed env (h @ cs) ds \<Longrightarrow> sockets_closed env h (cs @ ds)"
  by (simp add: sockets_closed_def exchanges_append one_at_a_time_append)

lemma nl_talk_no_sockets: "view nl_socket (exchanges env h (calls (nl_talk env mk tol) h)) = []"
  by (simp add: nl_talk_def nl_answer_def run_simps extends_rules)

lemma nl_exchange_sockets: "sockets_closed env h (calls (nl_exchange env mk tol) h)"
  using nl_talk_no_sockets[of env "h @ [Nl (NlOpen NETLINK_ROUTE)]" mk tol]
  by (simp add: sockets_closed_def nl_exchange_def run_simps extends_rules exchanges_append)

lemma nl_talk_sent:
  "outcome (nl_talk env mk tol) h = ok \<Longrightarrow>
     \<exists>seq. view nl_sent (calls (nl_talk env mk tol) h) =
       [(nlmsg_type (mk seq), nlmsg_flags (mk seq), nlmsg_attrs (mk seq))]"
  "view nl_sent (calls (nl_talk env mk tol) h) = [] \<or>
     (\<exists>seq. view nl_sent (calls (nl_talk env mk tol) h) =
       [(nlmsg_type (mk seq), nlmsg_flags (mk seq), nlmsg_attrs (mk seq))])"
  by (auto simp: nl_talk_def nl_answer_def run_simps extends_rules split: if_splits)

lemma nl_talk_outcome: "outcome (nl_talk env mk tol) h \<in> {ok, Inl NetlinkError}"
  by (auto simp: nl_talk_def nl_answer_def run_simps extends_rules)

lemma nl_exchange_outcome: "outcome (nl_exchange env mk tol) h \<in> {ok, Inl NetlinkError}"
  using nl_talk_outcome by (auto simp: nl_exchange_def run_simps extends_rules)

lemma nl_exchange_sent:
  "outcome (nl_exchange env mk tol) h = ok \<Longrightarrow>
     \<exists>seq. view nl_sent (calls (nl_exchange env mk tol) h) =
       [(nlmsg_type (mk seq), nlmsg_flags (mk seq), nlmsg_attrs (mk seq))]"
  "view nl_sent (calls (nl_exchange env mk tol) h) = [] \<or>
     (\<exists>seq. view nl_sent (calls (nl_exchange env mk tol) h) =
       [(nlmsg_type (mk seq), nlmsg_flags (mk seq), nlmsg_attrs (mk seq))])"
  using nl_talk_sent[of env mk tol "h @ [Nl (NlOpen NETLINK_ROUTE)]"]
  by (auto simp: nl_exchange_def run_simps extends_rules split: if_splits)

lemma sendRouteMsg_sent:
  "outcome (sendRouteMsg env gw i table t f) h = ok \<Longrightarrow>
     view nl_sent (calls (sendRouteMsg env gw i table t f) h) =
       [(t, {NLM_F_REQUEST, NLM_F_ACK} \<union> f,
         (if gw = 0 then [] else [RTA_GATEWAY gw]) @ [RTA_OIF i, RTA_TABLE table])]"
  using nl_exchange_sent(1)[of env "route_msg gw i table t f" "route_tolerated t" h]
  by (auto simp: sendRouteMsg_def route_msg_def)

text \<open>The message of one class's rule, without its sequence number.\<close>

definition rule_payload ::
  "nl_type \<Rightarrow> nl_flag set \<Rightarrow> PathClassConfig \<Rightarrow> nl_type \<times> nl_flag set \<times> nl_attr list" where
  "rule_payload t extra cls =
     (t, {NLM_F_REQUEST, NLM_F_ACK} \<union> extra,
      [FRA_FWMARK (mark cls), FRA_TABLE (routingTable cls), FRA_PRIORITY 32765])"

lemma rule_msg_payload:
  "(nlmsg_type (rule_msg t f (mark cls) (routingTable cls) seq),
    nlmsg_flags (rule_msg t f (mark cls) (routingTable cls) seq),
    nlmsg_attrs (rule_msg t f (mark cls) (routingTable cls) seq)) = rule_payload t f cls"
  by (simp add: rule_msg_def rule_payload_def kIpRulePriority_def)

interpretation adding: observed_body "add_rule env" nl_sent
  "\<lambda>cls. [rule_payload RTM_NEWRULE {NLM_F_CREATE, NLM_F_EXCL} cls]"
proof
  fix cls :: PathClassConfig and h :: "call list"
  let ?m = "rule_msg RTM_NEWRULE {NLM_F_CREATE, NLM_F_EXCL} (mark cls) (routingTable cls)"
  note sent = nl_exchange_sent[of env ?m "rule_tolerated RTM_NEWRULE" h, unfolded rule_msg_payload]
  show "extends (add_rule env cls)"
    unfolding add_rule_def by (intro extends_rules)
  show "outcome (add_rule env cls) h = ok \<Longrightarrow>
      view nl_sent (calls (add_rule env cls) h) =
        [rule_payload RTM_NEWRULE {NLM_F_CREATE, NLM_F_EXCL} cls]"
    using sent(1) by (simp add: add_rule_def sendNetlinkFwmarkRule_def)
  show "prefix (view nl_sent (calls (add_rule env cls) h))
      [rule_payload RTM_NEWRULE {NLM_F_CREATE, NLM_F_EXCL} cls]"
    using sent(2) by (auto simp: add_rule_def sendNetlinkFwmarkRule_def)
qed

interpretation add_sockets: call_discipline "add_rule env" "sockets_closed env"
  by unfold_locales
    (simp_all add: sockets_closed_append adding.body_extends, simp_all add: sockets_closed_def
      add_rule_def sendNetlinkFwmarkRule_def nl_exchange_sockets[unfolded sockets_closed_def])

interpretation delete_sockets: call_discipline "delete_rule env" "sockets_closed env"
  by unfold_locales
    (simp_all add: sockets_closed_append, simp_all add: sockets_closed_def extends_rules
      delete_rule_def sendNetlinkFwmarkRule_def nl_exchange_sockets[unfolded sockets_closed_def])

fun nl_attempt :: "call \<Rightarrow> nl_proto option" where
  "nl_attempt (Nl (NlOpen p)) = Some p"
| "nl_attempt _ = None"

lemma nl_exchange_attempt: "view nl_attempt (calls (nl_exchange env mk tol) h) = [NETLINK_ROUTE]"
  by (simp add: nl_exchange_def nl_talk_def nl_answer_def run_simps extends_rules)

interpretation deleting: observed_action "\<lambda>cls. do { _ \<leftarrow> delete_rule env cls; return () }"
  nl_attempt "\<lambda>cls. [NETLINK_ROUTE]"
  by unfold_locales
    (simp_all add: delete_rule_def sendNetlinkFwmarkRule_def run_simps extends_rules
      nl_exchange_attempt)

subsection \<open>The rule table of the kernel\<close>

text \<open>
  The documented behaviour of the kernel's rule table: a new rule is added unless it is there
  (\<^verbatim>\<open>EEXIST\<close> with \<^verbatim>\<open>NLM_F_EXCL\<close>), a deleted one is removed or reported missing (\<^verbatim>\<open>ENOENT\<close>). The
  table after a history starts from any table \<open>R\<close>.
\<close>

fun table_step :: "call \<Rightarrow> nl_attr list set \<Rightarrow> nl_attr list set" where
  "table_step (Nl (NlSend m)) R =
     (if nlmsg_type m = RTM_NEWRULE then insert (nlmsg_attrs m) R
      else if nlmsg_type m = RTM_DELRULE then R - {nlmsg_attrs m} else R)"
| "table_step _ R = R"

definition rules_after :: "nl_attr list set \<Rightarrow> call list \<Rightarrow> nl_attr list set" where
  "rules_after R h = fold table_step h R"

lemma rules_after_append [simp]: "rules_after R (h @ cs) = fold table_step cs (rules_after R h)"
  by (simp add: rules_after_def)

definition verdict :: "nlmsg \<Rightarrow> nl_attr list set \<Rightarrow> answer" where
  "verdict m R =
     (if nlmsg_type m = RTM_NEWRULE \<and> nlmsg_attrs m \<in> R then reply (- 1) EEXIST
      else if nlmsg_type m = RTM_DELRULE \<and> nlmsg_attrs m \<notin> R then reply (- 1) ENOENT
      else reply 0 EAGAIN)"

definition rule_kernel :: "nl_attr list set \<Rightarrow> env \<Rightarrow> bool" where
  "rule_kernel R env \<longleftrightarrow>
     (\<forall>h. rc (env h (Nl (NlOpen NETLINK_ROUTE))) \<noteq> 0 \<and> rc (env h (Nl NlBind)) \<ge> 0 \<and>
        (\<forall>m. rc (env h (Nl (NlSend m))) \<ge> 0 \<and> rc (env (h @ [Nl (NlSend m)]) (Nl NlRecv)) \<ge> 0 \<and>
           (\<forall>n q p. let v = env (h @ [Nl (NlSend m), Nl NlRecv]) (Nl (NlCbRun n q p));
                         w = verdict m (rules_after R h)
                    in rc v = rc w \<and> err v = err w)))"

lemma rule_kernel_simps:
  assumes "rule_kernel R env"
  shows "rc (env h (Nl (NlOpen NETLINK_ROUTE))) \<noteq> 0" "\<not> rc (env h (Nl NlBind)) < 0"
    "\<not> rc (env h (Nl (NlSend m))) < 0" "\<not> rc (env (h @ [Nl (NlSend m)]) (Nl NlRecv)) < 0"
    "rc (env (h @ [Nl (NlSend m), Nl NlRecv]) (Nl (NlCbRun n q p))) = rc (verdict m (rules_after R h))"
    "err (env (h @ [Nl (NlSend m), Nl NlRecv]) (Nl (NlCbRun n q p))) = err (verdict m (rules_after R h))"
  using assms unfolding rule_kernel_def Let_def not_less by blast+

text \<open>The rule of a class as the table holds it.\<close>

definition class_rule :: "PathClassConfig \<Rightarrow> nl_attr list" where
  "class_rule cls = [FRA_FWMARK (mark cls), FRA_TABLE (routingTable cls), FRA_PRIORITY 32765]"

lemma rule_exchange:
  assumes "rule_kernel R env" and "t \<in> {RTM_NEWRULE, RTM_DELRULE}"
  shows "outcome (sendNetlinkFwmarkRule env t f (mark cls) (routingTable cls)) h = ok"
    and "fold table_step (calls (sendNetlinkFwmarkRule env t f (mark cls) (routingTable cls)) h) T =
      (if t = RTM_NEWRULE then insert (class_rule cls) T else T - {class_rule cls})"
proof -
  let ?h = "h @ [Nl (NlOpen NETLINK_ROUTE), Nl NlBind, Nl TimeNow, Nl NlPortid]"
  note k = rule_kernel_simps[OF assms(1)]
  note k' = k(3)[of ?h] k(4)[of ?h] k(5)[of ?h] k(6)[of ?h]
  note defs = sendNetlinkFwmarkRule_def nl_exchange_def nl_talk_def nl_answer_def
  show "outcome (sendNetlinkFwmarkRule env t f (mark cls) (routingTable cls)) h = ok"
    using assms(2) k' unfolding defs
    by (auto simp: run_simps extends_rules k(1,2) verdict_def rule_tolerated_def rule_msg_def)
  show "fold table_step (calls (sendNetlinkFwmarkRule env t f (mark cls) (routingTable cls)) h) T =
      (if t = RTM_NEWRULE then insert (class_rule cls) T else T - {class_rule cls})"
    using assms(2) k' unfolding defs
    by (auto simp: run_simps extends_rules k(1,2) rule_msg_def class_rule_def kIpRulePriority_def)
qed

lemma add_rule_table:
  assumes "rule_kernel R env"
  shows "outcome (addIpRules env classes) h = ok \<and>
    fold table_step (calls (addIpRules env classes) h) T = T \<union> class_rule ` set classes"
  unfolding addIpRules_def
proof (induction classes arbitrary: h T)
  case (Cons cls classes)
  note one = rule_exchange[OF assms, of RTM_NEWRULE "{NLM_F_CREATE, NLM_F_EXCL}" cls h,
      folded add_rule_def]
  show ?case
    using Cons one by (simp add: for_each_Cons_outcome for_each_Cons_calls extends_rules
        del: for_each.simps)
qed simp

lemma delete_rule_table:
  assumes "rule_kernel R env"
  shows "fold table_step (calls (removeIpRules env classes) h) T = T - class_rule ` set classes"
  unfolding removeIpRules_def
proof (induction classes arbitrary: h T)
  case (Cons cls classes)
  note one = rule_exchange[OF assms, of RTM_DELRULE "{}" cls h, folded delete_rule_def]
  show ?case
    using one Diff_insert2[of T "class_rule cls" "class_rule ` set classes"]
    by (simp add: run_simps extends_rules Cons)
qed simp

text \<open>A kernel whose table starts out as \<open>R\<close>.\<close>

definition linux_rules :: "nl_attr list set \<Rightarrow> env" where
  "linux_rules R h c =
     (case (c, rev h) of
        (Nl (NlCbRun n q p), Nl NlRecv # Nl (NlSend m) # before) \<Rightarrow>
          verdict m (rules_after R (rev before))
      | _ \<Rightarrow> reply 1 EAGAIN)"

lemma rule_kernel_linux: "rule_kernel R (linux_rules R)"
  by (simp add: rule_kernel_def linux_rules_def Let_def)

subsection \<open>Properties\<close>

text \<open>Adding the rules sends, class by class in order, one request per class with its mark,
  its table and the fixed priority; a failure stops after an initial part of them and is
  reported as a netlink error.\<close>

theorem add_ip_rules_requests:
  "let sent = view nl_sent (calls (addIpRules env classes) h);
       wanted = map (rule_payload RTM_NEWRULE {NLM_F_CREATE, NLM_F_EXCL}) classes
   in prefix sent wanted \<and>
      (outcome (addIpRules env classes) h = ok \<and> sent = wanted \<or>
       outcome (addIpRules env classes) h = Inl NetlinkError)"
proof -
  have "outcome (for_each (add_rule env) classes) h \<in> {ok, Inl NetlinkError}"
  proof (induction classes arbitrary: h)
    case (Cons cls classes)
    have "outcome (add_rule env cls) h \<in> {ok, Inl NetlinkError}"
      using nl_exchange_outcome by (simp add: add_rule_def sendNetlinkFwmarkRule_def)
    with Cons[of "h @ calls (add_rule env cls) h"] show ?case
      by (auto simp: for_each_Cons_outcome extends_rules simp del: for_each.simps)
  qed simp
  moreover have "concat (map (\<lambda>cls. [rule_payload RTM_NEWRULE {NLM_F_CREATE, NLM_F_EXCL} cls]) classes)
      = map (rule_payload RTM_NEWRULE {NLM_F_CREATE, NLM_F_EXCL}) classes"
    by simp
  ultimately show ?thesis
    using adding.loop_ok[of env classes h] adding.loop_prefix[of env classes h]
    by (auto simp: Let_def addIpRules_def)
qed

text \<open>C34: on a kernel whose rule table is in any state, adding the rules of the classes succeeds
  and leaves the table with exactly those rules more; removing them leaves it with exactly
  those less. So rules left by an earlier run are neither an error nor duplicated.\<close>

theorem ip_rules_idempotent:
  assumes "rule_kernel R env"
  shows "outcome (addIpRules env classes) h = ok \<and>
    rules_after R (h @ calls (addIpRules env classes) h) =
      rules_after R h \<union> class_rule ` set classes \<and>
    rules_after R (h @ calls (removeIpRules env classes) h) =
      rules_after R h - class_rule ` set classes"
  using add_rule_table[OF assms] delete_rule_table[OF assms] by simp

theorem ip_rules_idempotent_witness:
  "outcome (addIpRules (linux_rules {class_rule empty_config}) [empty_config, empty_config]) [] = ok \<and>
   rules_after {class_rule empty_config}
     (calls (removeIpRules (linux_rules {class_rule empty_config}) [empty_config]) []) = {}"
  using ip_rules_idempotent[OF rule_kernel_linux[of "{class_rule empty_config}"],
      of "[empty_config, empty_config]" "[]"]
    ip_rules_idempotent[OF rule_kernel_linux[of "{class_rule empty_config}"],
      of "[empty_config]" "[]"]
  by (simp add: rules_after_def)

text \<open>Whatever fails, every netlink socket that was opened is closed before the next one is
  opened, and none is left open, when rules are added or removed and when a route is changed;
  and the removal tries every class even after failures.\<close>

theorem netlink_sockets_closed:
  "sockets_closed env h (calls (addIpRules env classes) h) \<and>
   sockets_closed env h (calls (removeIpRules env classes) h) \<and>
   sockets_closed env h (calls (addDefaultRoute env iface gw table) h) \<and>
   sockets_closed env h (calls (removeDefaultRoute env iface table) h) \<and>
   length (view nl_attempt (calls (removeIpRules env classes) h)) = length classes"
proof -
  have lookup: "sockets_closed env h [Nl (IfNameToIndex iface)]"
    by (simp add: sockets_closed_def)
  have "sockets_closed env h (calls (addDefaultRoute env iface gw table) h)"
    using sockets_closed_append[OF lookup nl_exchange_sockets] lookup
    by (simp add: addDefaultRoute_def sendRouteMsg_def run_simps extends_rules)
  moreover have "sockets_closed env h (calls (removeDefaultRoute env iface table) h)"
    using sockets_closed_append[OF lookup nl_exchange_sockets] lookup
    by (simp add: removeDefaultRoute_def sendRouteMsg_def run_simps extends_rules)
  moreover have "length (view nl_attempt (calls (removeIpRules env classes) h)) = length classes"
    by (simp add: removeIpRules_def deleting.sweep_out length_concat comp_def sum_list_triv)
  ultimately show ?thesis
    using add_sockets.loop_good[of env h classes] delete_sockets.sweep_good[of env h classes]
    by (simp add: addIpRules_def removeIpRules_def)
qed

text \<open>A default route is requested with the interface's index, the class's table and the
  gateway when there is one, replacing a route that is there; a removal names interface and
  table only. An unknown interface is an error when adding and no request at all when
  removing.\<close>

theorem default_route_requests:
  "let i = rc (env h (Nl (IfNameToIndex iface))); oif = RTA_OIF (word_of_int i)
   in (outcome (addDefaultRoute env iface gw table) h = ok \<longrightarrow>
         view nl_sent (calls (addDefaultRoute env iface gw table) h) =
           [(RTM_NEWROUTE, {NLM_F_REQUEST, NLM_F_ACK, NLM_F_CREATE, NLM_F_REPLACE},
             (if gw = 0 then [] else [RTA_GATEWAY gw]) @ [oif, RTA_TABLE table])]) \<and>
      (outcome (removeDefaultRoute env iface table) h = ok \<longrightarrow>
         view nl_sent (calls (removeDefaultRoute env iface table) h) =
           (if i = 0 then []
            else [(RTM_DELROUTE, {NLM_F_REQUEST, NLM_F_ACK}, [oif, RTA_TABLE table])])) \<and>
      (i = 0 \<longrightarrow> outcome (addDefaultRoute env iface gw table) h = Inl NetlinkError \<and>
                outcome (removeDefaultRoute env iface table) h = ok)"
proof -
  show ?thesis
    by (auto simp: addDefaultRoute_def removeDefaultRoute_def sendRouteMsg_sent run_simps
        extends_rules Let_def)
qed

theorem default_route_requests_witness:
  "view nl_sent (calls (addDefaultRoute (linux_rules {}) ''wlan0'' 9 100) []) =
     [(RTM_NEWROUTE, {NLM_F_REQUEST, NLM_F_ACK, NLM_F_CREATE, NLM_F_REPLACE},
       [RTA_GATEWAY 9, RTA_OIF 1, RTA_TABLE 100])]"
proof -
  have "outcome (addDefaultRoute (linux_rules {}) ''wlan0'' 9 100) [] = ok"
    by (simp add: addDefaultRoute_def sendRouteMsg_def nl_exchange_def nl_talk_def nl_answer_def
        run_simps extends_rules linux_rules_def verdict_def route_msg_def)
  then show ?thesis
    using default_route_requests[of "linux_rules {}" "[]" "''wlan0''" 9 100]
    by (simp add: Let_def linux_rules_def)
qed

text \<open>C35: the gateway of an interface is looked up in the first line that is its default route;
  the bytes that end up in the netlink attribute are those of the kernel's gateway address
  in reverse order.\<close>

theorem gateway_bytes_reversed:
  assumes "rc (env h (File (ReadFile ''/proc/net/route''))) \<noteq> 0"
    and "lines_of (content (env h (File (ReadFile ''/proc/net/route'')))) =
           header # before @ line # after"
    and "\<forall>l \<in> set before. gateway_of_line bits iface l = None"
    and "words_of line = iface # default_destination # gw # rest"
    and "stoul bits gw 16 = Inr (unat (addr :: u32))"
  shows "u32_bytes (outcome (queryGatewayForIface env bits iface) h) = rev (u32_bytes addr)"
proof -
  have "first_gateway bits iface (before @ line # after) = htonl addr"
    using assms(3) by (induction before) (simp_all add: gateway_of_line_def assms(4,5))
  then have "outcome (queryGatewayForIface env bits iface) h = htonl addr"
    using assms(1,2) by (simp add: queryGatewayForIface_def run_simps extends_rules)
  then show ?thesis by (simp add: htonl_reverses)
qed

lemma lines_of_line:
  "CHR 0x0A \<notin> set l \<Longrightarrow> lines_of (l @ CHR 0x0A # rest) = l # lines_of rest"
  by (induction l) auto

lemma lines_of_unlines:
  "\<forall>l \<in> set ls. CHR 0x0A \<notin> set l \<Longrightarrow> lines_of (concat (map (\<lambda>l. l @ [CHR 0x0A]) ls)) = ls"
  by (induction ls) (simp_all add: lines_of_line)

definition route_file :: string where
  "route_file = concat (map (\<lambda>l. l @ [CHR 0x0A])
     [''Iface Destination Gateway'', ''eth0 00000000 0100000A 0003'',
      ''wlan0 0001A8C0 00000000 0001'', ''wlan0 00000000 0101A8C0 0003''])"

theorem gateway_bytes_reversed_witness:
  "u32_bytes (outcome (queryGatewayForIface
     (\<lambda>h c. (reply 1 EAGAIN)\<lparr>content := route_file\<rparr>) 32 ''wlan0'') []) = map char_of [1, 1, 168, 192 :: nat]"
proof -
  let ?env = "\<lambda>h c. (reply 1 EAGAIN)\<lparr>content := route_file\<rparr>"
  have lines: "lines_of route_file = ''Iface Destination Gateway'' #
      [''eth0 00000000 0100000A 0003'', ''wlan0 0001A8C0 00000000 0001''] @
      ''wlan0 00000000 0101A8C0 0003'' # []"
    unfolding route_file_def by (subst lines_of_unlines) simp_all
  have others: "\<forall>l \<in> set [''eth0 00000000 0100000A 0003'', ''wlan0 0001A8C0 00000000 0001''].
      gateway_of_line 32 ''wlan0'' l = None"
    by code_simp
  have line: "words_of ''wlan0 00000000 0101A8C0 0003'' =
      ''wlan0'' # default_destination # ''0101A8C0'' # [''0003'']"
    by code_simp
  have number: "stoul 32 ''0101A8C0'' 16 = Inr (unat (0x0101A8C0 :: u32))"
    by (simp add: stoul_def sign_split_def base_split_def has_hex_prefix_def is_digit_def
        digit_val_def is_space_def Let_def)
  have four: "(4 :: nat) = Suc (Suc (Suc (Suc 0)))"
    by simp
  have "u32_bytes (outcome (queryGatewayForIface ?env 32 ''wlan0'') []) =
      rev (u32_bytes 0x0101A8C0)"
    by (rule gateway_bytes_reversed[OF _ _ others line number]) (simp_all add: lines)
  also have "\<dots> = map char_of [1, 1, 168, 192 :: nat]"
    unfolding u32_bytes_def four le_bytes.simps by simp
  finally show ?thesis .
qed

end
