(* ===== verification/Iptables_Rules.thy ===== *)
theory Iptables_Rules
  imports Syscalls
begin

unbundle bit_operations_syntax

text \<open>
  The firewall half of \<^verbatim>\<open>routing/routing_policy_manager.cpp\<close>: the entries that mark the packets
  of a cgroup and that drop the packets of one class on the interfaces of another, and the
  installation and removal of the two chains through libiptc. The sizes of the kernel's
  structures are parameters. A table is changed in a private copy, which \<^verbatim>\<open>iptc_commit\<close> makes
  effective at once.
\<close>

subsection \<open>Entries\<close>

record xt_sizes =
  xt_alignof :: u32
  sz_ipt_entry :: u32
  sz_entry_match :: u32
  sz_cgroup_info :: u32
  sz_mark_mtinfo :: u32
  sz_entry_target :: u32
  sz_mark_tginfo :: u32
  sz_standard_target :: u32

definition xtAlign :: "xt_sizes \<Rightarrow> u32 \<Rightarrow> u32" where
  "xtAlign sz n = (n + xt_alignof sz - 1) AND NOT (xt_alignof sz - 1)"

definition kMangleTable :: string where "kMangleTable = ''mangle''"
definition kFilterTable :: string where "kFilterTable = ''filter''"
definition kOutputChain :: string where "kOutputChain = ''OUTPUT''"
definition kNetserviceChain :: string where "kNetserviceChain = ''NETSERVICE-MARK''"
definition kIsoChain :: string where "kIsoChain = ''NETSERVICE-ISO''"

lemmas chain_names = kMangleTable_def kFilterTable_def kOutputChain_def kNetserviceChain_def
  kIsoChain_def

text \<open>\<^verbatim>\<open>XT_EXTENSION_MAXNAMELEN - 1\<close> and \<^verbatim>\<open>IFNAMSIZ\<close>.\<close>

definition name_max :: nat where "name_max = 28"
definition IFNAMSIZ :: nat where "IFNAMSIZ = 16"

definition buildMarkEntry :: "xt_sizes \<Rightarrow> u32 \<Rightarrow> u32 \<Rightarrow> ipt_entry" where
  "buildMarkEntry sz class_id pkt_mark =
     (let kMatchSz = xtAlign sz (sz_entry_match sz + sz_cgroup_info sz);
          kTargetSz = xtAlign sz (sz_entry_target sz + sz_mark_tginfo sz);
          kHdrSz = xtAlign sz (sz_ipt_entry sz);
          kTotal = kHdrSz + kMatchSz + kTargetSz
      in \<lparr>outiface = [], outiface_mask = replicate IFNAMSIZ False,
          ent_match = Some \<lparr>match_name = take name_max ''cgroup'', match_revision = 2,
            match_size = ucast kMatchSz,
            match_info = CgroupInfoV2 True False False False class_id\<rparr>,
          ent_target = \<lparr>target_name = take name_max ''MARK'', target_revision = 2,
            target_size = ucast kTargetSz, target_info = MarkTginfo2 pkt_mark 0xFFFFFFFF\<rparr>,
          target_offset = ucast (kHdrSz + kMatchSz), next_offset = ucast kTotal\<rparr>)"

definition buildJumpEntry :: "xt_sizes \<Rightarrow> string \<Rightarrow> ipt_entry" where
  "buildJumpEntry sz toChain =
     (let kTargetSz = xtAlign sz (sz_standard_target sz);
          kHdrSz = xtAlign sz (sz_ipt_entry sz);
          kTotal = kHdrSz + kTargetSz
      in \<lparr>outiface = [], outiface_mask = replicate IFNAMSIZ False, ent_match = None,
          ent_target = \<lparr>target_name = take name_max toChain, target_revision = 0,
            target_size = ucast kTargetSz, target_info = Verdict 0\<rparr>,
          target_offset = ucast kHdrSz, next_offset = ucast kTotal\<rparr>)"

definition buildDropEntry :: "xt_sizes \<Rightarrow> string \<Rightarrow> u32 \<Rightarrow> ipt_entry" where
  "buildDropEntry sz iface pkt_mark =
     (let kMatchSz = xtAlign sz (sz_entry_match sz + sz_mark_mtinfo sz);
          kTargetSz = xtAlign sz (sz_standard_target sz);
          kHdrSz = xtAlign sz (sz_ipt_entry sz);
          kTotal = kHdrSz + kMatchSz + kTargetSz;
          ifLen = min (length iface) (IFNAMSIZ - 1)
      in \<lparr>outiface = take ifLen iface,
          outiface_mask = replicate (ifLen + 1) True @ replicate (IFNAMSIZ - (ifLen + 1)) False,
          ent_match = Some \<lparr>match_name = take name_max ''mark'', match_revision = 1,
            match_size = ucast kMatchSz, match_info = MarkMtinfo1 pkt_mark 0xFFFFFFFF False\<rparr>,
          ent_target = \<lparr>target_name = take name_max ''DROP'', target_revision = 0,
            target_size = ucast kTargetSz, target_info = Verdict (- 1)\<rparr>,
          target_offset = ucast (kHdrSz + kMatchSz), next_offset = ucast kTotal\<rparr>)"

subsection \<open>Installation\<close>

text \<open>A libiptc call that returns zero on failure.\<close>

definition iptc :: "env \<Rightarrow> ipt_call \<Rightarrow> RoutingError status os" where
  "iptc env c = do { a \<leftarrow> perform env (Ipt c); return (if rc a = 0 then Inl IptablesError else ok) }"

text \<open>Create the chain, or flush the one that is there.\<close>

definition prepare_chain :: "env \<Rightarrow> string \<Rightarrow> RoutingError status os" where
  "prepare_chain env chain = do {
     a \<leftarrow> perform env (Ipt (IptcIsChain chain));
     (if rc a \<noteq> 0 then iptc env (IptcFlush chain) else iptc env (IptcCreateChain chain)) }"

text \<open>The walk over the rules of \<^verbatim>\<open>OUTPUT\<close> reads their target names.\<close>

definition ensure_jump :: "env \<Rightarrow> xt_sizes \<Rightarrow> string \<Rightarrow> RoutingError status os" where
  "ensure_jump env sz chain = do {
     a \<leftarrow> perform env (Ipt (IptcTargets kOutputChain));
     (if chain \<in> set (targets a) then return ok
      else iptc env (IptcAppend kOutputChain (buildJumpEntry sz chain))) }"

text \<open>Open a table, work on it, free the handle on every path.\<close>

definition with_table ::
  "env \<Rightarrow> string \<Rightarrow> RoutingError status os \<Rightarrow> RoutingError status os" where
  "with_table env table p = do {
     raw \<leftarrow> perform env (Ipt (IptcInit table));
     (if rc raw = 0 then return (Inl IptablesError) else finally_call env (Ipt IptcFree) p) }"

text \<open>The common course of \<^verbatim>\<open>addIptablesMarkRules\<close> and \<^verbatim>\<open>addDropRules\<close>; \<open>fill\<close> appends the rules.\<close>

definition install_chain ::
  "env \<Rightarrow> xt_sizes \<Rightarrow> string \<Rightarrow> string \<Rightarrow> RoutingError status os \<Rightarrow> RoutingError status os" where
  "install_chain env sz table chain fill =
     with_table env table
       (on_ok (prepare_chain env chain)
       (on_ok (ensure_jump env sz chain)
       (on_ok fill (iptc env IptcCommit))))"

definition add_mark :: "env \<Rightarrow> xt_sizes \<Rightarrow> PathClassConfig \<Rightarrow> RoutingError status os" where
  "add_mark env sz cls =
     iptc env (IptcAppend kNetserviceChain (buildMarkEntry sz (classid cls) (mark cls)))"

definition addIptablesMarkRules ::
  "env \<Rightarrow> xt_sizes \<Rightarrow> PathClassConfig list \<Rightarrow> RoutingError status os" where
  "addIptablesMarkRules env sz classes =
     install_chain env sz kMangleTable kNetserviceChain (for_each (add_mark env sz) classes)"

text \<open>The interfaces of all classes, each once, in the order of their first mention.\<close>

definition allIfaces :: "PathClassConfig list \<Rightarrow> string list" where
  "allIfaces classes =
     fold (\<lambda>iface acc. if iface \<in> set acc then acc else acc @ [iface])
       (concat (map interfaces classes)) []"

text \<open>The pairs that the nested loops pass to \<^verbatim>\<open>appendDrop\<close>, in their order.\<close>

definition drops_of :: "PathClassConfig list \<Rightarrow> PathClassConfig \<Rightarrow> (string \<times> u32) list" where
  "drops_of classes S =
     (if \<not> strictIsolation S then []
      else map (\<lambda>iface. (iface, mark S))
             (filter (\<lambda>iface. iface \<notin> set (interfaces S)) (allIfaces classes)) @
           concat (map (\<lambda>B. map (\<lambda>iface. (iface, mark B)) (interfaces S))
             (filter (\<lambda>B. cls_id B \<noteq> cls_id S) classes)))"

definition drop_list :: "PathClassConfig list \<Rightarrow> (string \<times> u32) list" where
  "drop_list classes = concat (map (drops_of classes) classes)"

definition appendDrop :: "env \<Rightarrow> xt_sizes \<Rightarrow> string \<times> u32 \<Rightarrow> RoutingError status os" where
  "appendDrop env sz d = iptc env (IptcAppend kIsoChain (buildDropEntry sz (fst d) (snd d)))"

definition addDropRules ::
  "env \<Rightarrow> xt_sizes \<Rightarrow> PathClassConfig list \<Rightarrow> RoutingError status os" where
  "addDropRules env sz classes =
     (if \<not> list_ex strictIsolation classes then return ok
      else install_chain env sz kFilterTable kIsoChain
             (for_each (appendDrop env sz) (drop_list classes)))"

subsection \<open>Removal\<close>

fun index_of :: "'a \<Rightarrow> 'a list \<Rightarrow> nat option" where
  "index_of x [] = None"
| "index_of x (y # ys) = (if y = x then Some 0 else map_option Suc (index_of x ys))"

text \<open>The common body of \<^verbatim>\<open>removeDropRules\<close> and \<^verbatim>\<open>removeIptablesMarkRules\<close>: failures only warn.\<close>

definition remove_chain :: "env \<Rightarrow> string \<Rightarrow> unit os" where
  "remove_chain env chain = do {
     c \<leftarrow> perform env (Ipt (IptcIsChain chain));
     (if rc c = 0 then return ()
      else do {
        a \<leftarrow> perform env (Ipt (IptcTargets kOutputChain));
        _ \<leftarrow> (case index_of chain (targets a) of
               None \<Rightarrow> return ()
             | Some n \<Rightarrow> do { _ \<leftarrow> perform env (Ipt (IptcDeleteNum kOutputChain n)); return () });
        _ \<leftarrow> perform env (Ipt (IptcFlush chain));
        _ \<leftarrow> perform env (Ipt (IptcDeleteChain chain));
        _ \<leftarrow> perform env (Ipt IptcCommit);
        return () }) }"

definition remove_from_table :: "env \<Rightarrow> string \<Rightarrow> string \<Rightarrow> unit os" where
  "remove_from_table env table chain = do {
     raw \<leftarrow> perform env (Ipt (IptcInit table));
     (if rc raw = 0 then return ()
      else finally_call env (Ipt IptcFree) (remove_chain env chain)) }"

definition removeDropRules :: "env \<Rightarrow> unit os" where
  "removeDropRules env = remove_from_table env kFilterTable kIsoChain"

definition removeIptablesMarkRules :: "env \<Rightarrow> unit os" where
  "removeIptablesMarkRules env = remove_from_table env kMangleTable kNetserviceChain"

end
