(* ===== verification/Iptables_Correct.thy ===== *)
theory Iptables_Correct
  imports Iptables_Rules Config_Loader
begin

unbundle bit_operations_syntax

text \<open>
  What the firewall entries do to a packet, and what the installation does to a table:
  marking gives each class its mark, dropping implements the isolation policy exactly,
  installing is idempotent and removing undoes it.
\<close>

subsection \<open>Packets\<close>

text \<open>The kernel's comparison of interface names, byte by byte under the mask, and the two
  matches and two targets of the entries.\<close>

definition name_byte :: "string \<Rightarrow> nat \<Rightarrow> char" where
  "name_byte s k = (if k < length s then s ! k else CHR 0x00)"

definition iface_matches :: "ipt_entry \<Rightarrow> string \<Rightarrow> bool" where
  "iface_matches e iface \<longleftrightarrow>
     list_all (\<lambda>k. outiface_mask e ! k \<longrightarrow> name_byte (outiface e) k = name_byte iface k)
       [0..<IFNAMSIZ]"

fun info_matches :: "match_data \<Rightarrow> u32 \<Rightarrow> u32 \<Rightarrow> bool" where
  "info_matches (CgroupInfoV2 hc hp ic ip c) class_id m \<longleftrightarrow> (hc \<and> (c = class_id) \<noteq> ic)"
| "info_matches (MarkMtinfo1 v msk invt) class_id m \<longleftrightarrow> ((m AND msk) = v) \<noteq> invt"

definition entry_matches :: "ipt_entry \<Rightarrow> string \<Rightarrow> u32 \<Rightarrow> u32 \<Rightarrow> bool" where
  "entry_matches e iface class_id m \<longleftrightarrow>
     iface_matches e iface \<and>
     (case ent_match e of None \<Rightarrow> True | Some x \<Rightarrow> info_matches (match_info x) class_id m)"

text \<open>A \<^verbatim>\<open>MARK\<close> target changes the mark and goes on; the walk through the marking chain.\<close>

fun apply_target :: "target_data \<Rightarrow> u32 \<Rightarrow> u32" where
  "apply_target (MarkTginfo2 v msk) m = (m AND NOT msk) XOR v"
| "apply_target (Verdict v) m = m"

definition marked :: "ipt_entry list \<Rightarrow> string \<Rightarrow> u32 \<Rightarrow> u32 \<Rightarrow> u32" where
  "marked entries iface class_id m =
     fold (\<lambda>e m. if entry_matches e iface class_id m
                 then apply_target (target_info (ent_target e)) m else m) entries m"

text \<open>The verdict -1 is \<^verbatim>\<open>NF_DROP\<close>; a packet is dropped by the first entry of that verdict that
  matches it.\<close>

definition dropped :: "ipt_entry list \<Rightarrow> string \<Rightarrow> u32 \<Rightarrow> bool" where
  "dropped entries iface m \<longleftrightarrow>
     list_ex (\<lambda>e. target_info (ent_target e) = Verdict (- 1) \<and> entry_matches e iface 0 m) entries"

text \<open>Names that fit the kernel's interface name buffer.\<close>

definition iface_name :: "string \<Rightarrow> bool" where
  "iface_name s \<longleftrightarrow> length s < IFNAMSIZ \<and> CHR 0x00 \<notin> set s"

lemma full_mask: "(0xFFFFFFFF :: u32) = - 1"
  by code_simp

lemma name_bytes_eq:
  assumes "iface_name s" and "iface_name t"
    and "\<forall>k < Suc (length s). name_byte s k = name_byte t k"
  shows "s = t"
proof -
  have len: "length s = length t"
  proof (rule ccontr)
    assume "length s \<noteq> length t"
    then consider "length s < length t" | "length t < length s" by linarith
    then show False
    proof cases
      case 1
      with assms(3) have "t ! length s = CHR 0x00"
        by (auto simp: name_byte_def split: if_splits dest!: spec[of _ "length s"])
      with 1 assms(2) show False
        by (metis iface_name_def nth_mem)
    next
      case 2
      with assms(3) have "s ! length t = CHR 0x00"
        by (auto simp: name_byte_def split: if_splits dest!: spec[of _ "length t"])
      with 2 assms(1) show False
        by (metis iface_name_def nth_mem)
    qed
  qed
  with assms(3) show ?thesis
    by (intro nth_equalityI) (auto simp: name_byte_def split: if_splits)
qed

lemma drop_entry_matches:
  assumes "iface_name name" and "iface_name iface"
  shows "entry_matches (buildDropEntry sz name v) iface c m \<longleftrightarrow> iface = name \<and> m = v"
proof -
  have len: "length name < 16"
    using assms(1) by (simp add: iface_name_def IFNAMSIZ_def)
  have mask: "outiface_mask (buildDropEntry sz name v) ! k \<longleftrightarrow> k < Suc (length name)" if "k < 16" for k
    using len that by (auto simp: buildDropEntry_def Let_def IFNAMSIZ_def nth_append nth_Cons' min_def)
  have out: "outiface (buildDropEntry sz name v) = name"
    using len by (simp add: buildDropEntry_def Let_def IFNAMSIZ_def)
  have "iface_matches (buildDropEntry sz name v) iface \<longleftrightarrow> name = iface"
  proof
    assume "iface_matches (buildDropEntry sz name v) iface"
    then have "\<forall>k < Suc (length name). name_byte name k = name_byte iface k"
      using len by (auto simp: iface_matches_def list_all_iff out mask IFNAMSIZ_def)
    then show "name = iface"
      by (rule name_bytes_eq[OF assms])
  next
    assume "name = iface"
    then show "iface_matches (buildDropEntry sz name v) iface"
      unfolding iface_matches_def out by (simp add: list_all_iff)
  qed
  then show ?thesis
    by (auto simp: entry_matches_def buildDropEntry_def Let_def full_mask)
qed

lemma mark_entry_matches: "entry_matches (buildMarkEntry sz cid v) iface c m \<longleftrightarrow> cid = c"
  by (simp add: entry_matches_def iface_matches_def buildMarkEntry_def Let_def list_all_iff)

lemma mark_entry_target: "apply_target (target_info (ent_target (buildMarkEntry sz cid v))) m = v"
  by (simp add: buildMarkEntry_def Let_def full_mask)

lemma drop_entry_target: "target_info (ent_target (buildDropEntry sz name v)) = Verdict (- 1)"
  by (simp add: buildDropEntry_def Let_def)

text \<open>The marking chain of a list of classes.\<close>

definition mark_chain :: "xt_sizes \<Rightarrow> PathClassConfig list \<Rightarrow> ipt_entry list" where
  "mark_chain sz classes = map (\<lambda>cls. buildMarkEntry sz (classid cls) (mark cls)) classes"

lemma marked_chain:
  "marked (mark_chain sz classes) iface c m =
     (case find (\<lambda>cls. classid cls = c) (rev classes) of None \<Rightarrow> m | Some cls \<Rightarrow> mark cls)"
proof (induction classes rule: rev_induct)
  case Nil
  then show ?case by (simp add: marked_def mark_chain_def)
next
  case (snoc cls classes)
  then show ?case
    by (simp add: marked_def mark_chain_def mark_entry_matches mark_entry_target)
qed

lemma find_snoc:
  "find P (xs @ [y]) =
     (case find P xs of None \<Rightarrow> if P y then Some y else None | Some x \<Rightarrow> Some x)"
  by (induction xs) simp_all

lemma find_rev_distinct:
  "distinct (map k xs) \<Longrightarrow> find (\<lambda>x. k x = c) (rev xs) = find (\<lambda>x. k x = c) xs"
proof (induction xs)
  case (Cons x xs)
  then have "k x \<notin> k ` set xs"
    by simp
  then have "k x = c \<Longrightarrow> find (\<lambda>y. k y = c) (rev xs) = None"
    by (auto simp: find_None_iff image_iff)
  with Cons show ?case
    by (auto simp: find_snoc split: option.split)
qed simp

subsection \<open>The isolation policy\<close>

text \<open>
  The comment over \<^verbatim>\<open>addDropRules\<close>: packets of a strictly isolated class must not leave through any
  interface that is not in its own list, and packets of another class not through those.
\<close>

definition forbidden :: "PathClassConfig list \<Rightarrow> string \<Rightarrow> u32 \<Rightarrow> bool" where
  "forbidden classes iface m \<longleftrightarrow>
     (\<exists>S \<in> set classes. strictIsolation S \<and>
        (m = mark S \<and> iface \<notin> set (interfaces S) \<or>
         iface \<in> set (interfaces S) \<and>
           (\<exists>B \<in> set classes. cls_id B \<noteq> cls_id S \<and> m = mark B)))"

lemma allIfaces_set: "set (allIfaces classes) = (\<Union>cls \<in> set classes. set (interfaces cls))"
proof -
  have "set (fold (\<lambda>iface acc. if iface \<in> set acc then acc else acc @ [iface]) xs acc) =
      set xs \<union> set acc" for xs acc :: "string list"
    by (induction xs arbitrary: acc) auto
  then show ?thesis by (auto simp: allIfaces_def)
qed

lemma allIfaces_distinct: "distinct (allIfaces classes)"
proof -
  have "distinct acc \<Longrightarrow>
      distinct (fold (\<lambda>iface acc. if iface \<in> set acc then acc else acc @ [iface]) xs acc)"
    for xs acc :: "string list"
    by (induction xs arbitrary: acc) auto
  then show ?thesis by (simp add: allIfaces_def)
qed

lemma drop_list_forbidden:
  "(iface, m) \<in> set (drop_list classes) \<longleftrightarrow>
     iface \<in> set (allIfaces classes) \<and> forbidden classes iface m"
  by (auto simp: drop_list_def drops_of_def forbidden_def allIfaces_set split: if_splits)

definition drop_chain :: "xt_sizes \<Rightarrow> PathClassConfig list \<Rightarrow> ipt_entry list" where
  "drop_chain sz classes = map (\<lambda>d. buildDropEntry sz (fst d) (snd d)) (drop_list classes)"

lemma dropped_chain:
  assumes "\<forall>cls \<in> set classes. list_all iface_name (interfaces cls)" and "iface_name iface"
  shows "dropped (drop_chain sz classes) iface m \<longleftrightarrow>
    iface \<in> set (allIfaces classes) \<and> forbidden classes iface m"
proof -
  have names: "iface_name (fst d)" if "d \<in> set (drop_list classes)" for d
    using that assms(1)
    by (fastforce simp: drop_list_def drops_of_def allIfaces_set list_all_iff split: if_splits)
  have "dropped (drop_chain sz classes) iface m \<longleftrightarrow>
      (\<exists>d \<in> set (drop_list classes). entry_matches (buildDropEntry sz (fst d) (snd d)) iface 0 m)"
    by (auto simp: dropped_def drop_chain_def list_ex_iff drop_entry_target)
  also have "\<dots> \<longleftrightarrow> (\<exists>d \<in> set (drop_list classes). iface = fst d \<and> m = snd d)"
    using names assms(2) by (auto simp: drop_entry_matches)
  also have "\<dots> \<longleftrightarrow> (iface, m) \<in> set (drop_list classes)"
    by force
  finally show ?thesis by (simp add: drop_list_forbidden)
qed

subsection \<open>Tables\<close>

text \<open>
  The documented behaviour of libiptc on the copy of a table: its chains with their entries,
  and the target names of \<^verbatim>\<open>OUTPUT\<close>, to which a jump adds the name of its chain. \<open>sane_table\<close>: the
  calls succeed and the questions are answered from the copy, which starts as \<open>T\<close> and has
  been through the calls \<open>h\<close>.
\<close>

record ipt_table =
  out_targets :: "string list"
  chains :: "string \<Rightarrow> ipt_entry list option"

definition delete_nth :: "nat \<Rightarrow> 'a list \<Rightarrow> 'a list" where
  "delete_nth n xs = take n xs @ drop (Suc n) xs"

fun table_call :: "ipt_call \<Rightarrow> ipt_table \<Rightarrow> ipt_table" where
  "table_call (IptcFlush c) T = T\<lparr>chains := (chains T)(c \<mapsto> [])\<rparr>"
| "table_call (IptcCreateChain c) T = T\<lparr>chains := (chains T)(c \<mapsto> [])\<rparr>"
| "table_call (IptcDeleteChain c) T = T\<lparr>chains := (chains T)(c := None)\<rparr>"
| "table_call (IptcAppend c e) T =
     (if c = kOutputChain then T\<lparr>out_targets := out_targets T @ [target_name (ent_target e)]\<rparr>
      else T\<lparr>chains := (chains T)(c := map_option (\<lambda>es. es @ [e]) (chains T c))\<rparr>)"
| "table_call (IptcDeleteNum c n) T = T\<lparr>out_targets := delete_nth n (out_targets T)\<rparr>"
| "table_call _ T = T"

fun on_table :: "call \<Rightarrow> ipt_table \<Rightarrow> ipt_table" where
  "on_table (Ipt c) T = table_call c T"
| "on_table _ T = T"

definition table_after :: "ipt_table \<Rightarrow> call list \<Rightarrow> ipt_table" where
  "table_after T h = fold on_table h T"

lemma table_after_simps [simp]:
  "table_after T [] = T"
  "table_after T (h @ cs) = table_after (table_after T h) cs"
  "table_after T (c # cs) = table_after (on_table c T) cs"
  by (simp_all add: table_after_def)

definition sane_table :: "ipt_table \<Rightarrow> env \<Rightarrow> bool" where
  "sane_table T env \<longleftrightarrow>
     (\<forall>h. (\<forall>c. (\<forall>ch. c \<noteq> IptcIsChain ch) \<longrightarrow> rc (env h (Ipt c)) \<noteq> 0) \<and>
          (\<forall>ch. rc (env h (Ipt (IptcIsChain ch))) \<noteq> 0 \<longleftrightarrow> chains (table_after T h) ch \<noteq> None) \<and>
          (\<forall>ch. targets (env h (Ipt (IptcTargets ch))) = out_targets (table_after T h)))"

definition table_env :: "ipt_table \<Rightarrow> env" where
  "table_env T h c =
     (case c of
        Ipt (IptcIsChain ch) \<Rightarrow>
          reply (if chains (table_after T h) ch = None then 0 else 1) EAGAIN
      | Ipt (IptcTargets ch) \<Rightarrow> (reply 1 EAGAIN)\<lparr>targets := out_targets (table_after T h)\<rparr>
      | _ \<Rightarrow> reply 1 EAGAIN)"

lemma sane_table_env: "sane_table T (table_env T)"
proof -
  have "rc (table_env T h (Ipt c)) \<noteq> 0" if "\<forall>ch. c \<noteq> IptcIsChain ch" for h c
    using that by (cases c) (simp_all add: table_env_def)
  then show ?thesis
    by (simp add: sane_table_def table_env_def)
qed

subsection \<open>Installation on a table\<close>

lemma extends_iptc [extends_rules]: "extends (iptc env c)"
  unfolding iptc_def by (intro extends_rules)

lemma extends_prepare_chain [extends_rules]: "extends (prepare_chain env ch)"
  unfolding prepare_chain_def by (intro extends_rules)

lemma extends_ensure_jump [extends_rules]: "extends (ensure_jump env sz ch)"
  unfolding ensure_jump_def by (intro extends_rules)

lemma extends_with_table [extends_rules]: "extends p \<Longrightarrow> extends (with_table env t p)"
  unfolding with_table_def by (intro extends_rules)

lemma extends_install_chain [extends_rules]:
  "extends fill \<Longrightarrow> extends (install_chain env sz t ch fill)"
  unfolding install_chain_def by (intro extends_rules)

lemma extends_add_mark [extends_rules]: "extends (add_mark env sz cls)"
  unfolding add_mark_def by (intro extends_rules)

lemma extends_appendDrop [extends_rules]: "extends (appendDrop env sz d)"
  unfolding appendDrop_def by (intro extends_rules)

lemma extends_addIptablesMarkRules [extends_rules]: "extends (addIptablesMarkRules env sz classes)"
  unfolding addIptablesMarkRules_def by (intro extends_rules)

lemma extends_addDropRules [extends_rules]: "extends (addDropRules env sz classes)"
  unfolding addDropRules_def by (intro extends_rules)

lemma extends_remove_chain [extends_rules]: "extends (remove_chain env ch)"
  unfolding remove_chain_def by (intro extends_rules)

lemma extends_remove_from_table [extends_rules]: "extends (remove_from_table env t ch)"
  unfolding remove_from_table_def by (intro extends_rules)

lemma iptc_run: "outcome (iptc env c) h = (if rc (env h (Ipt c)) = 0 then Inl IptablesError else ok)"
  "calls (iptc env c) h = [Ipt c]"
  by (simp_all add: iptc_def run_simps extends_rules)

lemma sane_ok:
  assumes "sane_table T env" and "\<forall>ch. c \<noteq> IptcIsChain ch"
  shows "outcome (iptc env c) h = ok"
  using assms by (simp add: iptc_run sane_table_def)

text \<open>The first two stages and the appends, on any table.\<close>

lemma prepare_chain_sane:
  assumes "sane_table T env"
  shows "outcome (prepare_chain env ch) h = ok"
    and "table_after S (calls (prepare_chain env ch) h) = S\<lparr>chains := (chains S)(ch \<mapsto> [])\<rparr>"
  using assms by (simp_all add: prepare_chain_def run_simps extends_rules sane_ok iptc_run(2))

lemma ensure_jump_sane:
  assumes "sane_table T env" and "length ch \<le> name_max"
  shows "outcome (ensure_jump env sz ch) h = ok"
    and "table_after S (calls (ensure_jump env sz ch) h) =
      (if ch \<in> set (out_targets (table_after T h)) then S
       else S\<lparr>out_targets := out_targets S @ [ch]\<rparr>)"
proof -
  have "targets (env h (Ipt (IptcTargets kOutputChain))) = out_targets (table_after T h)"
    using assms(1) by (simp add: sane_table_def)
  then show "outcome (ensure_jump env sz ch) h = ok"
    and "table_after S (calls (ensure_jump env sz ch) h) =
      (if ch \<in> set (out_targets (table_after T h)) then S
       else S\<lparr>out_targets := out_targets S @ [ch]\<rparr>)"
    using assms by (simp_all add: ensure_jump_def run_simps extends_rules sane_ok iptc_run(2)
        buildJumpEntry_def Let_def)
qed

lemma append_all_sane:
  assumes "sane_table T env" and "ch \<noteq> kOutputChain"
    and "\<And>x. body x = iptc env (IptcAppend ch (entry x))" and "chains S ch = Some es"
  shows "outcome (for_each body xs) h = ok \<and>
    table_after S (calls (for_each body xs) h) = S\<lparr>chains := (chains S)(ch \<mapsto> es @ map entry xs)\<rparr>"
  using assms(4)
proof (induction xs arbitrary: h S es)
  case Nil
  then show ?case by (simp add: fun_upd_idem)
next
  case (Cons x xs)
  have "extends (body y)" for y
    by (simp add: assms(3) extends_iptc)
  moreover have "outcome (body x) h = ok" "calls (body x) h = [Ipt (IptcAppend ch (entry x))]"
    using assms(1) by (simp_all add: assms(3) sane_ok iptc_run(2))
  ultimately show ?case
    using Cons.IH[of "S\<lparr>chains := (chains S)(ch \<mapsto> es @ [entry x])\<rparr>" "es @ [entry x]"
        "h @ [Ipt (IptcAppend ch (entry x))]"] Cons.prems assms(2)
    by (simp add: for_each_Cons_outcome for_each_Cons_calls del: for_each.simps)
      (intro arg_cong[where f = "\<lambda>x. S\<lparr>chains := x\<rparr>"], auto)
qed

text \<open>A whole installation: the chain holds exactly the entries, the jump to it is there, and
  nothing else has changed.\<close>

definition installed :: "string \<Rightarrow> ipt_entry list \<Rightarrow> ipt_table \<Rightarrow> ipt_table" where
  "installed ch es T =
     T\<lparr>out_targets := out_targets T @ (if ch \<in> set (out_targets T) then [] else [ch]),
       chains := (chains T)(ch \<mapsto> es)\<rparr>"

lemma install_sane:
  assumes sane: "sane_table T env" and ch: "ch \<noteq> kOutputChain" "length ch \<le> name_max"
    and body: "\<And>x. body x = iptc env (IptcAppend ch (entry x))"
  shows "outcome (install_chain env sz tbl ch (for_each body xs)) h = ok \<and>
    table_after (table_after T h) (calls (install_chain env sz tbl ch (for_each body xs)) h) =
      installed ch (map entry xs) (table_after T h)"
proof -
  define h1 where "h1 = h @ [Ipt (IptcInit tbl)]"
  define h2 where "h2 = h1 @ calls (prepare_chain env ch) h1"
  define h3 where "h3 = h2 @ calls (ensure_jump env sz ch) h2"
  have ext: "extends (for_each body xs)"
    by (intro extends_rules) (simp add: body extends_iptc)
  have T1: "table_after T h1 = table_after T h"
    by (simp add: h1_def)
  have T2: "table_after T h2 = (table_after T h)\<lparr>chains := (chains (table_after T h))(ch \<mapsto> [])\<rparr>"
    by (simp add: h2_def prepare_chain_sane[OF sane] T1)
  have T3: "table_after T h3 = (if ch \<in> set (out_targets (table_after T h)) then table_after T h2
      else (table_after T h2)\<lparr>out_targets := out_targets (table_after T h) @ [ch]\<rparr>)"
    using ensure_jump_sane(2)[OF sane ch(2)] T2 by (simp add: h3_def)
  have "chains (table_after T h3) ch = Some []"
    by (simp add: T3 T2)
  from append_all_sane[OF sane ch(1) body this, where xs = xs and h = h3]
  have fill: "outcome (for_each body xs) h3 = ok"
    "table_after (table_after T h3) (calls (for_each body xs) h3) =
      installed ch (map entry xs) (table_after T h)"
    by (simp_all add: T3 T2 installed_def)
  have init: "rc (env h (Ipt (IptcInit tbl))) \<noteq> 0"
    using sane by (simp add: sane_table_def)
  have "outcome (install_chain env sz tbl ch (for_each body xs)) h = ok"
    using init by (simp add: install_chain_def with_table_def run_simps extends_rules ext
        prepare_chain_sane(1)[OF sane] ensure_jump_sane(1)[OF sane ch(2)]
        fill(1)[unfolded h3_def h2_def h1_def, simplified] sane_ok[OF sane])
  moreover have "calls (install_chain env sz tbl ch (for_each body xs)) h =
      [Ipt (IptcInit tbl)] @ calls (prepare_chain env ch) h1 @ calls (ensure_jump env sz ch) h2 @
      calls (for_each body xs) h3 @ [Ipt IptcCommit, Ipt IptcFree]"
    using init by (simp add: install_chain_def with_table_def run_simps extends_rules ext
        prepare_chain_sane(1)[OF sane] ensure_jump_sane(1)[OF sane ch(2)] iptc_run(2)
        fill(1)[unfolded h3_def h2_def h1_def, simplified] h1_def h2_def h3_def)
  ultimately show ?thesis
    using fill(2) by (simp add: h3_def h2_def h1_def)
qed

lemma add_mark_body:
  "add_mark env sz cls =
     iptc env (IptcAppend kNetserviceChain (buildMarkEntry sz (classid cls) (mark cls)))"
  by (simp add: add_mark_def)

lemma chain_facts [simp]:
  "kNetserviceChain \<noteq> kOutputChain" "kIsoChain \<noteq> kOutputChain"
  "length kNetserviceChain \<le> name_max" "length kIsoChain \<le> name_max"
  by (simp_all add: chain_names name_max_def)

lemma mark_install:
  "sane_table T env \<Longrightarrow>
     outcome (addIptablesMarkRules env sz classes) h = ok \<and>
     table_after (table_after T h) (calls (addIptablesMarkRules env sz classes) h) =
       installed kNetserviceChain (mark_chain sz classes) (table_after T h)"
  using install_sane[OF _ chain_facts(1,3) add_mark_body, where T = T and env = env and
      sz = sz and tbl = kMangleTable and xs = classes and h = h]
  by (simp add: addIptablesMarkRules_def mark_chain_def)

lemma drop_install:
  "sane_table T env \<Longrightarrow> list_ex strictIsolation classes \<Longrightarrow>
     outcome (addDropRules env sz classes) h = ok \<and>
     table_after (table_after T h) (calls (addDropRules env sz classes) h) =
       installed kIsoChain (drop_chain sz classes) (table_after T h)"
  using install_sane[OF _ chain_facts(2,4) appendDrop_def, where T = T and env = env and
      sz = sz and tbl = kFilterTable and xs = "drop_list classes" and h = h]
  by (simp add: addDropRules_def drop_chain_def)

lemma installed_sel [simp]:
  "chains (installed ch es T) ch = Some es" "ch \<in> set (out_targets (installed ch es T))"
  by (simp_all add: installed_def)

subsection \<open>Removal on a table\<close>

definition uninstalled :: "string \<Rightarrow> ipt_table \<Rightarrow> ipt_table" where
  "uninstalled ch T =
     (if chains T ch = None then T
      else T\<lparr>out_targets := remove1 ch (out_targets T), chains := (chains T)(ch := None)\<rparr>)"

lemma index_of_remove:
  "(case index_of x xs of None \<Rightarrow> xs | Some n \<Rightarrow> delete_nth n xs) = remove1 x xs"
  by (induction xs) (auto simp: delete_nth_def split: option.splits)

lemma sane_answers:
  assumes "sane_table T env"
  shows "\<forall>ch. c \<noteq> IptcIsChain ch \<Longrightarrow> rc (env h (Ipt c)) \<noteq> 0"
    and "rc (env h (Ipt (IptcIsChain ch))) = 0 \<longleftrightarrow> chains (table_after T h) ch = None"
    and "targets (env h (Ipt (IptcTargets ch))) = out_targets (table_after T h)"
  using assms unfolding sane_table_def by blast+

lemma remove_sane:
  assumes "sane_table T env"
  shows "table_after (table_after T h) (calls (remove_from_table env tbl ch) h) =
    uninstalled ch (table_after T h)"
proof -
  let ?T = "table_after T h"
  let ?h = "h @ [Ipt (IptcInit tbl)]"
  have init: "rc (env h (Ipt (IptcInit tbl))) \<noteq> 0"
    and is_chain: "rc (env ?h (Ipt (IptcIsChain ch))) = 0 \<longleftrightarrow> chains ?T ch = None"
    and outs: "targets (env (?h @ [Ipt (IptcIsChain ch)]) (Ipt (IptcTargets kOutputChain))) = out_targets ?T"
    using sane_answers[OF assms] by simp_all
  show ?thesis
    using init is_chain outs index_of_remove[where x = ch and xs = "out_targets ?T"]
    by (cases "index_of ch (out_targets ?T)")
      (simp_all add: remove_from_table_def remove_chain_def run_simps extends_rules uninstalled_def)
qed

lemma remove1_append_new: "x \<notin> set xs \<Longrightarrow> remove1 x (xs @ [x]) = xs"
  by (induction xs) auto

lemma uninstall_install:
  "ch \<notin> set (out_targets T) \<Longrightarrow> chains T ch = None \<Longrightarrow> uninstalled ch (installed ch es T) = T"
  by (simp add: uninstalled_def installed_def remove1_append_new fun_upd_idem)

lemma install_twice: "installed ch es (installed ch es' T) = installed ch es T"
  by (simp add: installed_def)

subsection \<open>Properties of the rules\<close>

text \<open>C15: with distinct class ids, installing the marking rules succeeds on any table; then the
  chain is jumped to from \<^verbatim>\<open>OUTPUT\<close> and gives every packet of a class the class's mark,
  whatever mark it had, and leaves all other packets alone.\<close>

theorem mark_rules_mark_packets:
  assumes "sane_table T env" and "distinct (map classid classes)"
  shows "let T' = table_after T (h @ calls (addIptablesMarkRules env sz classes) h)
    in outcome (addIptablesMarkRules env sz classes) h = ok \<and>
       kNetserviceChain \<in> set (out_targets T') \<and>
       (\<exists>es. chains T' kNetserviceChain = Some es \<and>
          (\<forall>iface c m. marked es iface c m =
             (case map_of (map (\<lambda>cls. (classid cls, mark cls)) classes) c of
                None \<Rightarrow> m | Some v \<Rightarrow> v)))"
proof -
  have "find (\<lambda>cls. classid cls = c) (rev classes) = find (\<lambda>cls. classid cls = c) classes" for c
    using assms(2) by (rule find_rev_distinct)
  moreover have "map_of (map (\<lambda>cls. (classid cls, mark cls)) classes) c =
      map_option mark (find (\<lambda>cls. classid cls = c) classes)" for c
    by (induction classes) auto
  ultimately have "marked (mark_chain sz classes) iface c m =
      (case map_of (map (\<lambda>cls. (classid cls, mark cls)) classes) c of None \<Rightarrow> m | Some v \<Rightarrow> v)"
    for iface c m
    by (simp add: marked_chain split: option.split)
  then show ?thesis
    using mark_install[OF assms(1), of sz classes h] by (simp add: Let_def)
qed

definition sample_sizes :: xt_sizes where
  "sample_sizes = \<lparr>xt_alignof = 8, sz_ipt_entry = 112, sz_entry_match = 32, sz_cgroup_info = 520,
     sz_mark_mtinfo = 12, sz_entry_target = 32, sz_mark_tginfo = 8, sz_standard_target = 40\<rparr>"

definition empty_table :: ipt_table where
  "empty_table = \<lparr>out_targets = [], chains = (\<lambda>c. None)\<rparr>"

theorem mark_rules_mark_packets_witness:
  "\<exists>es. chains (table_after empty_table
      (calls (addIptablesMarkRules (table_env empty_table) sample_sizes shipped_classes) []))
      kNetserviceChain = Some es \<and> marked es ''eth0'' 0x00100001 5 = 0x10"
proof -
  have "distinct (map classid shipped_classes)"
    using shipped_valid by (simp add: valid_config_def keys_distinct_def)
  from mark_rules_mark_packets[OF sane_table_env this, of empty_table "[]" sample_sizes]
  show ?thesis
    by (auto simp: Let_def shipped_classes_def)
qed

text \<open>C14: when some class is strictly isolated, and the configured names fit the kernel's buffer as
  all interface names do, installing the drop rules succeeds on any table; then the chain is
  jumped to from \<^verbatim>\<open>OUTPUT\<close>. On the interfaces that the configuration names for any class it drops
  exactly the packets that the policy forbids, decided by the whole interface name and the
  whole mark. On every other interface it drops nothing, although the policy forbids the
  packets of an isolated class there.\<close>

theorem drop_rules_enforce_policy:
  assumes "sane_table T env" and "list_ex strictIsolation classes"
    and "\<forall>cls \<in> set classes. list_all iface_name (interfaces cls)"
  shows "let T' = table_after T (h @ calls (addDropRules env sz classes) h)
    in outcome (addDropRules env sz classes) h = ok \<and>
       kIsoChain \<in> set (out_targets T') \<and>
       (\<exists>es. chains T' kIsoChain = Some es \<and>
          (\<forall>iface m. iface \<in> set (allIfaces classes) \<longrightarrow>
             dropped es iface m = forbidden classes iface m) \<and>
          (\<forall>iface m. iface_name iface \<and> iface \<notin> set (allIfaces classes) \<longrightarrow>
             \<not> dropped es iface m \<and>
             (forbidden classes iface m \<longleftrightarrow> (\<exists>S \<in> set classes. strictIsolation S \<and> m = mark S))))"
proof -
  have "iface_name iface" if "iface \<in> set (allIfaces classes)" for iface
    using assms(3) that by (auto simp: allIfaces_set list_all_iff)
  moreover have "forbidden classes iface m \<longleftrightarrow> (\<exists>S \<in> set classes. strictIsolation S \<and> m = mark S)"
    if "iface \<notin> set (allIfaces classes)" for iface m
    using that by (auto simp: forbidden_def allIfaces_set)
  ultimately show ?thesis
    using drop_install[OF assms(1,2), of sz h] dropped_chain[OF assms(3)]
    by (simp add: Let_def)
qed

lemma shipped_names: "\<forall>cls \<in> set shipped_classes. list_all iface_name (interfaces cls)"
  by (simp add: shipped_classes_def iface_name_def IFNAMSIZ_def)

theorem drop_rules_enforce_policy_witness:
  "\<exists>es. chains (table_after empty_table
      (calls (addDropRules (table_env empty_table) sample_sizes shipped_classes) []))
      kIsoChain = Some es \<and>
      dropped es ''eth0.300'' 0x10 \<and> dropped es ''eth0.100'' 0x30 \<and> \<not> dropped es ''eth0.300'' 0x30 \<and>
      forbidden shipped_classes ''wlan1'' 0x30 \<and> \<not> dropped es ''wlan1'' 0x30"
proof -
  have "list_ex strictIsolation shipped_classes"
    by (simp add: shipped_classes_def)
  from drop_rules_enforce_policy[OF sane_table_env this shipped_names, of empty_table "[]" sample_sizes]
  show ?thesis
    by (auto simp: Let_def iface_name_def IFNAMSIZ_def forbidden_def shipped_classes_def allIfaces_def)
qed

text \<open>In a valid configuration a strictly isolated class has its packets dropped on every
  configured interface that is not its own, keeps its own interfaces unless another isolated
  class claims them too, and every other class's packets are dropped there.\<close>

theorem strict_class_isolated:
  assumes "valid_config classes" and "S \<in> set classes" and "strictIsolation S"
    and "\<forall>cls \<in> set classes. list_all iface_name (interfaces cls)"
    and "iface \<in> set (allIfaces classes)" and "B \<in> set classes" and "cls_id B \<noteq> cls_id S"
  shows "(iface \<notin> set (interfaces S) \<longrightarrow> dropped (drop_chain sz classes) iface (mark S)) \<and>
    (iface \<in> set (interfaces S) \<longrightarrow> dropped (drop_chain sz classes) iface (mark B)) \<and>
    (iface \<in> set (interfaces S) \<and>
       (\<forall>S' \<in> set classes. strictIsolation S' \<and> cls_id S' \<noteq> cls_id S \<longrightarrow>
          iface \<notin> set (interfaces S')) \<longrightarrow>
     \<not> dropped (drop_chain sz classes) iface (mark S))"
proof -
  have name: "iface_name iface"
    using assms(4,5) by (auto simp: allIfaces_set list_all_iff)
  have marks: "X = Y" if "X \<in> set classes" "Y \<in> set classes" "mark X = mark Y" for X Y
    using assms(1) that by (auto simp: valid_config_def keys_distinct_def distinct_map inj_on_def)
  have "iface \<notin> set (interfaces S) \<Longrightarrow> forbidden classes iface (mark S)"
    using assms(2,3) unfolding forbidden_def by blast
  moreover have "iface \<in> set (interfaces S) \<Longrightarrow> forbidden classes iface (mark B)"
    using assms(2,3,6,7) unfolding forbidden_def by blast
  moreover have "\<exists>S' \<in> set classes. strictIsolation S' \<and> cls_id S' \<noteq> cls_id S \<and>
      iface \<in> set (interfaces S')"
    if "iface \<in> set (interfaces S)" and bad: "forbidden classes iface (mark S)"
  proof -
    obtain S' where S': "S' \<in> set classes" "strictIsolation S'"
      and "mark S = mark S' \<and> iface \<notin> set (interfaces S') \<or>
        iface \<in> set (interfaces S') \<and> (\<exists>X \<in> set classes. cls_id X \<noteq> cls_id S' \<and> mark S = mark X)"
      using bad unfolding forbidden_def by blast
    then show ?thesis
      using marks[OF assms(2)] that(1) by metis
  qed
  ultimately show ?thesis
    unfolding dropped_chain[OF assms(4) name] using assms(5) by blast
qed

theorem strict_class_isolated_witness:
  "dropped (drop_chain sample_sizes shipped_classes) ''eth0.300'' 0x20"
  using strict_class_isolated[OF shipped_valid _ _ shipped_names, of "shipped_classes ! 2"
      "''eth0.300''" "shipped_classes ! 1" sample_sizes]
  by (simp add: shipped_classes_def allIfaces_def)

text \<open>Installing a second time, after any first installation, leaves the same table as
  installing once, with a single jump; and on a table without the chain, removing undoes the
  installation completely. This holds for the marking and for the dropping rules.\<close>

theorem rules_idempotent_and_removable:
  assumes "sane_table T env" and "list_ex strictIsolation classes"
  shows "let mark_run = (\<lambda>h. h @ calls (addIptablesMarkRules env sz classes) h);
             drop_run = (\<lambda>h. h @ calls (addDropRules env sz classes) h);
             mark_undo = (\<lambda>h. h @ calls (removeIptablesMarkRules env) h);
             drop_undo = (\<lambda>h. h @ calls (removeDropRules env) h);
             fresh = (\<lambda>ch. chains (table_after T h) ch = None \<and>
                           ch \<notin> set (out_targets (table_after T h)))
    in table_after T (mark_run (mark_run h)) = table_after T (mark_run h) \<and>
       table_after T (drop_run (drop_run h)) = table_after T (drop_run h) \<and>
       (fresh kNetserviceChain \<longrightarrow> table_after T (mark_undo (mark_run h)) = table_after T h) \<and>
       (fresh kIsoChain \<longrightarrow> table_after T (drop_undo (drop_run h)) = table_after T h)"
proof -
  have runs: "table_after T (h @ calls (addIptablesMarkRules env sz classes) h) =
      installed kNetserviceChain (mark_chain sz classes) (table_after T h)"
    "table_after T (h @ calls (addDropRules env sz classes) h) =
      installed kIsoChain (drop_chain sz classes) (table_after T h)"
    "table_after T (h @ calls (removeIptablesMarkRules env) h) =
      uninstalled kNetserviceChain (table_after T h)"
    "table_after T (h @ calls (removeDropRules env) h) = uninstalled kIsoChain (table_after T h)" for h
    using mark_install[OF assms(1)] drop_install[OF assms] remove_sane[OF assms(1)]
    by (simp_all add: removeIptablesMarkRules_def removeDropRules_def)
  show ?thesis
    by (simp del: table_after_simps append_assoc add: Let_def runs install_twice uninstall_install)
qed

theorem rules_idempotent_and_removable_witness:
  "table_after empty_table
     (let h1 = calls (addDropRules (table_env empty_table) sample_sizes shipped_classes) []
      in h1 @ calls (removeDropRules (table_env empty_table)) h1) = empty_table"
proof -
  have "list_ex strictIsolation shipped_classes"
    by (simp add: shipped_classes_def)
  from rules_idempotent_and_removable[OF sane_table_env this, where T = empty_table and h = "[]" and
      sz = sample_sizes]
  show ?thesis
    by (simp add: Let_def empty_table_def)
qed

subsection \<open>Properties for any answers\<close>

text \<open>The commits and the table handles of a run: \<open>Some True\<close> a commit that took effect,
  \<open>Some False\<close> one that did not.\<close>

fun commit_result :: "call \<times> answer \<Rightarrow> bool option" where
  "commit_result (Ipt IptcCommit, a) = Some (rc a \<noteq> 0)"
| "commit_result _ = None"

fun handle_event :: "call \<times> answer \<Rightarrow> bool option" where
  "handle_event (Ipt (IptcInit t), a) = (if rc a = 0 then None else Some True)"
| "handle_event (Ipt IptcFree, a) = Some False"
| "handle_event _ = None"

definition quiet :: "env \<Rightarrow> call list \<Rightarrow> call list \<Rightarrow> bool" where
  "quiet env h cs \<longleftrightarrow>
     view commit_result (exchanges env h cs) = [] \<and> view handle_event (exchanges env h cs) = []"

lemma quiet_append: "quiet env h cs \<Longrightarrow> quiet env (h @ cs) ds \<Longrightarrow> quiet env h (cs @ ds)"
  by (simp add: quiet_def exchanges_append)

lemma quiet_Nil: "quiet env h []"
  by (simp add: quiet_def)

lemma quiet_stages:
  "quiet env h (calls (prepare_chain env ch) h)" "quiet env h (calls (ensure_jump env sz ch) h)"
  "quiet env h (calls (iptc env (IptcAppend ch e)) h)"
  by (simp_all add: quiet_def prepare_chain_def ensure_jump_def run_simps extends_rules iptc_run(2))

interpretation mark_quiet: call_discipline "add_mark env sz" "quiet env"
  by unfold_locales (simp_all add: quiet_append quiet_Nil extends_rules, simp add: add_mark_def quiet_stages)

interpretation drop_quiet: call_discipline "appendDrop env sz" "quiet env"
  by unfold_locales (simp_all add: quiet_append quiet_Nil extends_rules, simp add: appendDrop_def quiet_stages)

text \<open>A run that commits at most once, with success exactly when it reports success, and frees the
  handle it opened.\<close>

definition atomic_run :: "env \<Rightarrow> call list \<Rightarrow> RoutingError status os \<Rightarrow> bool" where
  "atomic_run env h p \<longleftrightarrow>
     (view commit_result (exchanges env h (calls p h)) = [outcome p h = ok] \<or>
      view commit_result (exchanges env h (calls p h)) = [] \<and> outcome p h \<noteq> ok) \<and>
     view handle_event (exchanges env h (calls p h)) \<in> {[], [True, False]}"

lemma iptc_commit:
  "view commit_result (exchanges env h (calls (iptc env IptcCommit) h)) =
     [outcome (iptc env IptcCommit) h = ok]"
  "view handle_event (exchanges env h (calls (iptc env IptcCommit) h)) = []"
  by (simp_all add: iptc_run)

lemma commits_on_ok:
  assumes "extends p" and "extends q" and "\<And>h. quiet env h (calls p h)"
    and "view handle_event (exchanges env (h @ calls p h) (calls q (h @ calls p h))) = []"
    and "view commit_result (exchanges env (h @ calls p h) (calls q (h @ calls p h))) =
           [outcome q (h @ calls p h) = ok] \<or>
         view commit_result (exchanges env (h @ calls p h) (calls q (h @ calls p h))) = [] \<and>
           outcome q (h @ calls p h) \<noteq> ok"
  shows "view handle_event (exchanges env h (calls (on_ok p q) h)) = []"
    and "view commit_result (exchanges env h (calls (on_ok p q) h)) = [outcome (on_ok p q) h = ok] \<or>
         view commit_result (exchanges env h (calls (on_ok p q) h)) = [] \<and> outcome (on_ok p q) h \<noteq> ok"
  using assms(3)[of h] assms(4,5)
  by (auto simp: run_simps assms(1,2) exchanges_append quiet_def split: sum.splits)

lemma install_atomic:
  assumes "extends fill" and "\<And>h. quiet env h (calls fill h)"
  shows "atomic_run env h (install_chain env sz tbl ch fill)"
proof -
  let ?p3 = "on_ok fill (iptc env IptcCommit)"
  let ?p2 = "on_ok (ensure_jump env sz ch) ?p3"
  let ?p1 = "on_ok (prepare_chain env ch) ?p2"
  have ext: "extends ?p3" "extends ?p2" "extends ?p1"
    using assms(1) by (simp_all add: extends_rules)
  note step = commits_on_ok[OF _ _ quiet_stages(1)] commits_on_ok[OF _ _ quiet_stages(2)]
  have s3: "view handle_event (exchanges env h (calls ?p3 h)) = []"
    "view commit_result (exchanges env h (calls ?p3 h)) = [outcome ?p3 h = ok] \<or>
     view commit_result (exchanges env h (calls ?p3 h)) = [] \<and> outcome ?p3 h \<noteq> ok" for h
    by (rule commits_on_ok[OF assms(1) extends_iptc assms(2)], simp_all add: iptc_commit)+
  have s2: "view handle_event (exchanges env h (calls ?p2 h)) = []"
    "view commit_result (exchanges env h (calls ?p2 h)) = [outcome ?p2 h = ok] \<or>
     view commit_result (exchanges env h (calls ?p2 h)) = [] \<and> outcome ?p2 h \<noteq> ok" for h
    by (rule commits_on_ok[OF extends_ensure_jump ext(1) quiet_stages(2) s3])+
  have s1: "view handle_event (exchanges env h (calls ?p1 h)) = []"
    "view commit_result (exchanges env h (calls ?p1 h)) = [outcome ?p1 h = ok] \<or>
     view commit_result (exchanges env h (calls ?p1 h)) = [] \<and> outcome ?p1 h \<noteq> ok" for h
    by (rule commits_on_ok[OF extends_prepare_chain ext(2) quiet_stages(1) s2])+
  show ?thesis
    using s1[of "h @ [Ipt (IptcInit tbl)]"]
    by (auto simp: atomic_run_def install_chain_def with_table_def run_simps extends_rules ext
        exchanges_append)
qed

text \<open>C16: whatever the kernel answers, installing either set of rules commits at most once, and
  reports success exactly when that commit took effect (or, for the drop rules, when no
  class is isolated and nothing was touched); the table handle is freed on every path.\<close>

theorem rules_installed_atomically:
  "atomic_run env h (addIptablesMarkRules env sz classes) \<and>
   (if list_ex strictIsolation classes then atomic_run env h (addDropRules env sz classes)
    else outcome (addDropRules env sz classes) h = ok \<and> calls (addDropRules env sz classes) h = [])"
proof -
  have "atomic_run env h (addIptablesMarkRules env sz classes)"
    unfolding addIptablesMarkRules_def
    by (rule install_atomic) (auto intro: extends_rules mark_quiet.loop_good)
  moreover have "atomic_run env h (install_chain env sz kFilterTable kIsoChain
      (for_each (appendDrop env sz) (drop_list classes)))"
    by (rule install_atomic) (auto intro: extends_rules drop_quiet.loop_good)
  ultimately show ?thesis
    by (simp add: addDropRules_def)
qed

subsection \<open>Layout\<close>

lemma align8:
  assumes "xt_alignof sz = 8" and "unat n < 2 ^ 31"
  shows "unat (xtAlign sz n) = (unat n + 7) div 8 * 8"
proof -
  have seven: "(7 :: u32) = mask 3"
    by code_simp
  have "w AND NOT (mask 3) = push_bit 3 (drop_bit 3 w)" for w :: u32
    by (rule bit_word_eqI) (auto simp: bit_simps)
  then have "xtAlign sz n = push_bit 3 (drop_bit 3 (n + 7))"
    using assms(1) by (simp add: xtAlign_def add.commute flip: seven)
  moreover have "unat (n + 7) = unat n + 7"
    using assms(2) by (simp add: unat_word_ariths)
  moreover have "unat (push_bit 3 (drop_bit 3 w)) = unat w div 8 * 8" for w :: u32
  proof -
    have "unat w div 8 * 8 < 2 ^ 32"
      using unsigned_less[of w] by (intro le_less_trans[OF div_times_less_eq_dividend]) simp
    then show ?thesis
      by (simp only: unsigned_push_bit_eq unsigned_drop_bit_eq)
        (simp add: push_bit_eq_mult drop_bit_eq_div take_bit_nat_eq_self)
  qed
  ultimately show ?thesis by simp
qed

definition sizes_fit :: "xt_sizes \<Rightarrow> bool" where
  "sizes_fit sz \<longleftrightarrow> xt_alignof sz = 8 \<and>
     list_all (\<lambda>w. unat w \<le> 8000) [sz_ipt_entry sz, sz_entry_match sz, sz_cgroup_info sz,
       sz_mark_mtinfo sz, sz_entry_target sz, sz_mark_tginfo sz, sz_standard_target sz]"

text \<open>The layout of an entry whose match and target hold so many bytes.\<close>

definition laid_out :: "xt_sizes \<Rightarrow> ipt_entry \<Rightarrow> nat \<Rightarrow> nat \<Rightarrow> bool" where
  "laid_out sz e match_bytes target_bytes \<longleftrightarrow>
     (let al = (\<lambda>n. (n + 7) div 8 * 8);
          m = (case ent_match e of None \<Rightarrow> 0 | Some x \<Rightarrow> unat (match_size x))
      in m = al match_bytes \<and> unat (target_size (ent_target e)) = al target_bytes \<and>
         unat (target_offset e) = al (unat (sz_ipt_entry sz)) + m \<and>
         unat (next_offset e) = unat (target_offset e) + unat (target_size (ent_target e)))"

lemma unat_plus_small: "unat (a :: u32) \<le> 50000 \<Longrightarrow> unat b \<le> 50000 \<Longrightarrow> unat (a + b) = unat a + unat b"
  by (simp add: unat_word_ariths)

lemma unat_ucast16: "unat (a :: u32) < 65536 \<Longrightarrow> unat (ucast a :: u16) = unat a"
  by (simp add: unsigned_ucast_eq take_bit_nat_eq_self)

lemma align_small:
  assumes "xt_alignof sz = 8" and "unat n \<le> 16000"
  shows "unat (xtAlign sz n) = (unat n + 7) div 8 * 8" and "unat (xtAlign sz n) \<le> 16007"
  using align8[OF assms(1), of n] assms(2) by simp_all

lemma offset_fit1: "unat (a :: u32) \<le> 16007 \<Longrightarrow> unat (ucast a :: u16) = unat a"
  by (simp add: unat_ucast16)

lemma offset_fit2:
  "unat (a :: u32) \<le> 16007 \<Longrightarrow> unat b \<le> 16007 \<Longrightarrow> unat (ucast (a + b) :: u16) = unat a + unat b"
  by (simp add: unat_ucast16 unat_plus_small)

lemma offset_fit3:
  "unat (a :: u32) \<le> 16007 \<Longrightarrow> unat b \<le> 16007 \<Longrightarrow> unat c \<le> 16007 \<Longrightarrow>
     unat (ucast (a + b + c) :: u16) = unat a + unat b + unat c"
  by (simp add: unat_ucast16 unat_plus_small)

text \<open>C17: On an 8-byte aligned target with structures that fit, every entry is laid out without
  gaps or overlap: header, match and target are multiples of 8 bytes, each at least as long as
  what it holds and less than 8 bytes longer, and the offsets say where target and entry end.\<close>

theorem entries_laid_out:
  assumes "sizes_fit sz"
  shows "laid_out sz (buildMarkEntry sz c m)
      (unat (sz_entry_match sz) + unat (sz_cgroup_info sz))
      (unat (sz_entry_target sz) + unat (sz_mark_tginfo sz)) \<and>
    laid_out sz (buildDropEntry sz iface m)
      (unat (sz_entry_match sz) + unat (sz_mark_mtinfo sz)) (unat (sz_standard_target sz)) \<and>
    laid_out sz (buildJumpEntry sz chain) 0 (unat (sz_standard_target sz))"
proof -
  have al: "xt_alignof sz = 8" and fit: "unat (sz_ipt_entry sz) \<le> 8000"
    "unat (sz_entry_match sz) \<le> 8000" "unat (sz_cgroup_info sz) \<le> 8000"
    "unat (sz_mark_mtinfo sz) \<le> 8000" "unat (sz_entry_target sz) \<le> 8000"
    "unat (sz_mark_tginfo sz) \<le> 8000" "unat (sz_standard_target sz) \<le> 8000"
    using assms by (simp_all add: sizes_fit_def)
  have sums: "unat (sz_entry_match sz + sz_cgroup_info sz) =
      unat (sz_entry_match sz) + unat (sz_cgroup_info sz)"
    "unat (sz_entry_match sz + sz_mark_mtinfo sz) =
      unat (sz_entry_match sz) + unat (sz_mark_mtinfo sz)"
    "unat (sz_entry_target sz + sz_mark_tginfo sz) =
      unat (sz_entry_target sz) + unat (sz_mark_tginfo sz)"
    using fit by (simp_all add: unat_plus_small)
  note small = align_small[OF al]
  show ?thesis
    using fit
    by (simp add: laid_out_def buildMarkEntry_def buildDropEntry_def buildJumpEntry_def Let_def
        offset_fit1 offset_fit2 offset_fit3 small sums del: add.assoc)
qed

theorem entries_laid_out_witness:
  "laid_out sample_sizes (buildDropEntry sample_sizes ''eth0.300'' 0x10) 44 40 \<and>
   next_offset (buildDropEntry sample_sizes ''eth0.300'' 0x10) = 200"
proof -
  have "sizes_fit sample_sizes"
    by (simp add: sizes_fit_def sample_sizes_def)
  from entries_laid_out[OF this] have
    "laid_out sample_sizes (buildDropEntry sample_sizes ''eth0.300'' 0x10) 44 40"
    by (simp add: sample_sizes_def)
  then show ?thesis
    by (simp add: laid_out_def Let_def sample_sizes_def word_unat_eq_iff)
qed

end
