(* ===== verification/Routing_Setup.thy ===== *)
theory Routing_Setup
  imports Ip_Rules Iptables_Correct
begin

text \<open>
  The cgroup part of \<^verbatim>\<open>routing/routing_policy_manager.cpp\<close>: the directory and the class id file
  of every path class, and \<^verbatim>\<open>cleanup\<close>, which takes down everything the manager set up.
\<close>

subsection \<open>Paths\<close>

text \<open>\<^verbatim>\<open>std::filesystem::path\<close>: the part after the last slash, the part before it without its
  trailing slashes (the root for a name in the root), and \<^verbatim>\<open>operator/\<close> with a relative name.\<close>

definition filename :: "string \<Rightarrow> string" where
  "filename p = rev (takeWhile (\<lambda>c. c \<noteq> CHR ''/'') (rev p))"

definition parent_path :: "string \<Rightarrow> string" where
  "parent_path p =
     (if CHR ''/'' \<in> set p then
        let d = rev (dropWhile (\<lambda>c. c = CHR ''/'') (dropWhile (\<lambda>c. c \<noteq> CHR ''/'') (rev p)))
        in if d = [] then ''/'' else d
      else [])"

definition path_append :: "string \<Rightarrow> string \<Rightarrow> string" where
  "path_append p f =
     (if p = [] \<or> last p = CHR ''/'' then p @ f else p @ CHR ''/'' # f)"

subsection \<open>Cgroups\<close>

text \<open>Write the class id; the stream is closed by its destructor, which reports nothing.\<close>

definition write_classid :: "env \<Rightarrow> string \<Rightarrow> u32 \<Rightarrow> RoutingError status os" where
  "write_classid env path cid = do {
     ofs \<leftarrow> perform env (File (OpenTrunc path));
     (if rc ofs = 0 then return (Inl CgroupWriteFailed)
      else finally_call env (File (CloseStream path)) (do {
        w \<leftarrow> perform env (File (StreamPut path (format_hex08 cid @ [CHR 0x0A])));
        return (if rc w = 0 then Inl CgroupWriteFailed else ok) })) }"

definition setupOneClass :: "env \<Rightarrow> PathClassConfig \<Rightarrow> RoutingError status os" where
  "setupOneClass env cls = do {
     p \<leftarrow> perform env (File (Canonical (parent_path (cgroupPath cls))));
     (if rc p \<noteq> 0 then return (Inl CgroupCreateFailed)
      else do {
        let realCgroupDir = path_append (content p) (filename (cgroupPath cls));
        d \<leftarrow> perform env (File (CreateDirectories realCgroupDir));
        (if rc d \<noteq> 0 then return (Inl CgroupCreateFailed)
         else do {
           let classidFile = path_append realCgroupDir ''net_cls.classid'';
           f \<leftarrow> perform env (File (ReadFile classidFile));
           let existing = (if rc f = 0 then 0 else read_hex32 (content f));
           (if existing \<noteq> classid cls then write_classid env classidFile (classid cls)
            else return ok) }) }) }"

definition createCgroupHierarchy :: "env \<Rightarrow> PathClassConfig list \<Rightarrow> RoutingError status os" where
  "createCgroupHierarchy env classes = for_each (setupOneClass env) classes"

subsection \<open>Cleanup\<close>

definition remove_cgroup :: "env \<Rightarrow> PathClassConfig \<Rightarrow> unit os" where
  "remove_cgroup env cls = do {
     p \<leftarrow> perform env (File (Canonical (parent_path (cgroupPath cls))));
     (if rc p \<noteq> 0 then return ()
      else do {
        let realCgroupDir = path_append (content p) (filename (cgroupPath cls));
        e \<leftarrow> perform env (File (PathExists realCgroupDir));
        (if rc e = 0 then return ()
         else do { _ \<leftarrow> perform env (File (RemovePath realCgroupDir)); return () }) }) }"

definition cleanup :: "env \<Rightarrow> PathClassConfig list \<Rightarrow> unit os" where
  "cleanup env classes = do {
     _ \<leftarrow> removeIpRules env classes;
     _ \<leftarrow> removeDropRules env;
     _ \<leftarrow> removeIptablesMarkRules env;
     for_do (remove_cgroup env) (rev classes) }"

subsection \<open>Lemmas\<close>

lemma extends_write_classid [extends_rules]: "extends (write_classid env p c)"
  unfolding write_classid_def by (intro extends_rules)

lemma extends_setupOneClass [extends_rules]: "extends (setupOneClass env cls)"
  unfolding setupOneClass_def Let_def by (intro extends_rules)

lemma extends_createCgroupHierarchy [extends_rules]: "extends (createCgroupHierarchy env classes)"
  unfolding createCgroupHierarchy_def by (intro extends_rules)

lemma extends_remove_cgroup [extends_rules]: "extends (remove_cgroup env cls)"
  unfolding remove_cgroup_def Let_def by (intro extends_rules)

lemma extends_removeDropRules [extends_rules]: "extends (removeDropRules env)"
  unfolding removeDropRules_def by (intro extends_rules)

lemma extends_removeIptablesMarkRules [extends_rules]: "extends (removeIptablesMarkRules env)"
  unfolding removeIptablesMarkRules_def by (intro extends_rules)

lemma extends_cleanup [extends_rules]: "extends (cleanup env classes)"
  unfolding cleanup_def by (intro extends_rules)

text \<open>
  The net_cls controller: a number written to a class id file, in a base that its prefix tells, is
  the cgroup's class id, and reading the file gives the class id in decimal and a line feed.
  \<open>ids\<close> are the class ids at the start, \<open>canon\<close> resolves the parent directories, and the
  calls succeed; opening the file for writing changes nothing.
\<close>

fun netcls_step :: "call \<Rightarrow> (string \<Rightarrow> u32) \<Rightarrow> string \<Rightarrow> u32" where
  "netcls_step (File (StreamPut p t)) ids =
     (case stoul 64 t 0 of Inl e \<Rightarrow> ids | Inr n \<Rightarrow> ids(p := of_nat n))"
| "netcls_step _ ids = ids"

definition class_ids :: "(string \<Rightarrow> u32) \<Rightarrow> call list \<Rightarrow> string \<Rightarrow> u32" where
  "class_ids ids h = fold netcls_step h ids"

lemma class_ids_append [simp]: "class_ids ids (h @ cs) = fold netcls_step cs (class_ids ids h)"
  by (simp add: class_ids_def)

definition decimal_line :: "u32 \<Rightarrow> string" where
  "decimal_line w = nat_text 10 (unat w) @ [CHR 0x0A]"

definition classid_file_in :: "string \<Rightarrow> string" where
  "classid_file_in dir = path_append dir ''net_cls.classid''"

definition netcls_files :: "(string \<Rightarrow> string) \<Rightarrow> (string \<Rightarrow> u32) \<Rightarrow> env \<Rightarrow> bool" where
  "netcls_files canon ids env \<longleftrightarrow>
     (\<forall>h p t. rc (env h (File (Canonical p))) = 0 \<and> content (env h (File (Canonical p))) = canon p \<and>
        rc (env h (File (CreateDirectories p))) = 0 \<and> rc (env h (File (OpenTrunc p))) \<noteq> 0 \<and>
        rc (env h (File (StreamPut p t))) \<noteq> 0 \<and>
        rc (env h (File (ReadFile (classid_file_in p)))) \<noteq> 0 \<and>
        content (env h (File (ReadFile (classid_file_in p)))) =
          decimal_line (class_ids ids h (classid_file_in p)))"

definition netcls_env :: "(string \<Rightarrow> string) \<Rightarrow> (string \<Rightarrow> u32) \<Rightarrow> env" where
  "netcls_env canon ids h c =
     (case c of
        File (Canonical p) \<Rightarrow> (reply 0 EAGAIN)\<lparr>content := canon p\<rparr>
      | File (CreateDirectories p) \<Rightarrow> reply 0 EAGAIN
      | File (ReadFile p) \<Rightarrow> (reply 1 EAGAIN)\<lparr>content := decimal_line (class_ids ids h p)\<rparr>
      | _ \<Rightarrow> reply 1 EAGAIN)"

lemma netcls_files_env: "netcls_files canon ids (netcls_env canon ids)"
  by (simp add: netcls_files_def netcls_env_def)

text \<open>A class id as the code reads it back: the decimal digits taken for hexadecimal ones.\<close>

definition read_back :: "u32 \<Rightarrow> u32" where
  "read_back w = read_hex32 (decimal_line w)"

lemma decimal_digits_grow:
  "n \<le> digits_value 16 0 (nat_text 10 n) \<and> (10 \<le> n \<longrightarrow> n < digits_value 16 0 (nat_text 10 n)) \<and>
     (n < 10 \<longrightarrow> digits_value 16 0 (nat_text 10 n) = n)"
proof (induction n rule: less_induct)
  case (less n)
  show ?case
  proof (cases "n < 10")
    case True
    then show ?thesis
      by (subst (1 2 3) nat_text.simps) (simp add: digit_val_hex_char)
  next
    case False
    have all: "list_all (is_digit 16) (nat_text 10 k)" for k
      using nat_text_digits[of 10 k] by (auto simp: list_all_iff is_digit_def split: option.splits)
    have last: "n mod 10 < 16"
      using mod_less_divisor[of 10 n] by linarith
    then have "digit_val (hex_char (n mod 10)) = Some (n mod 10)"
      by (rule digit_val_hex_char)
    with last have "digits_value 16 0 (nat_text 10 n) =
        digits_value 16 0 (nat_text 10 (n div 10)) * 16 + n mod 10"
      using False by (subst nat_text.simps) (simp add: digits_value_append[OF all])
    moreover have "n div 10 \<le> digits_value 16 0 (nat_text 10 (n div 10))"
      using less[of "n div 10"] False by simp
    moreover have "n div 10 * 10 + n mod 10 = n"
      by (rule div_mult_mod_eq)
    moreover have "1 \<le> n div 10"
      using False by linarith
    ultimately have "n < digits_value 16 0 (nat_text 10 n)"
      by linarith
    then show ?thesis
      using False by simp
  qed
qed

lemma read_back_value:
  "read_back w = (let v = digits_value 16 0 (nat_text 10 (unat w)) in
     if v \<ge> 2 ^ 32 then 2 ^ 32 - 1 else of_nat v)"
proof -
  obtain c cs where ds: "nat_text 10 (unat w) = c # cs"
    by (cases "nat_text 10 (unat w)") simp_all
  have ten: "list_all (is_digit 10) (c # cs)"
    using nat_text_digits[of 10 "unat w"] by (simp add: ds)
  then have hex: "list_all (is_digit 16) (c # cs)"
    by (auto simp: list_all_iff is_digit_def split: option.splits)
  have line: "digits_value 16 0 (c # cs @ [CHR 0x0A]) = digits_value 16 0 (c # cs)"
    using digits_value_stop[OF hex, of "[CHR 0x0A]" 0] by (simp add: is_digit_def digit_val_def)
  have c: "\<not> is_space c" "c \<noteq> CHR ''-''" "c \<noteq> CHR ''+''"
    using ten by (auto simp: is_digit_def digit_val_def is_space_def Let_def split: if_splits)
  have "\<not> has_hex_prefix (c # cs @ [CHR 0x0A])"
    using ten by (cases cs) (auto simp: has_hex_prefix_def is_digit_def digit_val_def split: list.splits)
  then show ?thesis
    using c hex line
    by (simp add: read_back_def read_hex32_def decimal_line_def ds sign_split_def Let_def
        del: digits_value.simps)
qed

text \<open>Only ids of one digit, and the largest one, for which the number overflows, are recognised.\<close>

lemma read_back_same: "read_back w = w \<longleftrightarrow> w \<le> 9 \<or> w = 0xFFFFFFFF"
proof -
  let ?v = "digits_value 16 0 (nat_text 10 (unat w))"
  have small: "w \<le> 9 \<longleftrightarrow> unat w < 10"
    by (auto simp: word_le_nat_alt)
  have large: "w = 0xFFFFFFFF \<longleftrightarrow> unat w = 2 ^ 32 - 1"
    by (simp add: word_unat_eq_iff)
  have max: "(2 ^ 32 - 1 :: u32) = 0xFFFFFFFF"
    by simp
  have bound: "unat w < 2 ^ 32"
    by (rule unat32_bound)
  note grow = decimal_digits_grow[of "unat w"]
  show ?thesis
  proof (cases "?v \<ge> 2 ^ 32")
    case True
    then have "read_back w = 0xFFFFFFFF"
      by (simp add: read_back_value Let_def max)
    moreover have "\<not> unat w < 10"
      using True grow by auto
    ultimately show ?thesis
      using small by auto
  next
    case False
    then have "read_back w = of_nat ?v" and "unat (of_nat ?v :: u32) = ?v"
      by (simp_all add: read_back_value Let_def unsigned_of_nat take_bit_nat_eq_self)
    then have "read_back w = w \<longleftrightarrow> ?v = unat w"
      by (metis word_unat_eq_iff)
    moreover have "unat w \<noteq> 2 ^ 32 - 1"
      using False grow by auto
    ultimately show ?thesis
      using grow small large by auto
  qed
qed

text \<open>The class id file of a class, and whether the setup leaves its id as it is.\<close>

definition classid_path :: "(string \<Rightarrow> string) \<Rightarrow> PathClassConfig \<Rightarrow> string" where
  "classid_path canon cls =
     classid_file_in (path_append (canon (parent_path (cgroupPath cls))) (filename (cgroupPath cls)))"

definition left_as_is :: "(string \<Rightarrow> string) \<Rightarrow> (string \<Rightarrow> u32) \<Rightarrow> PathClassConfig \<Rightarrow> bool" where
  "left_as_is canon ids cls \<longleftrightarrow> read_back (ids (classid_path canon cls)) = classid cls"

fun opened_for_writing :: "call \<Rightarrow> string option" where
  "opened_for_writing (File (OpenTrunc p)) = Some p"
| "opened_for_writing _ = None"

lemma classid_text: "stoul 64 (format_hex08 w @ [CHR 0x0A]) 0 = Inr (unat w)"
  by (rule stoul_format_hex08) (simp_all add: no_digit_next_def is_digit_def digit_val_def)

lemma netcls_simps:
  assumes "netcls_files canon ids env"
  shows "rc (env h (File (Canonical p))) = 0" "content (env h (File (Canonical p))) = canon p"
    "rc (env h (File (CreateDirectories p))) = 0" "rc (env h (File (OpenTrunc p))) \<noteq> 0"
    "rc (env h (File (StreamPut p t))) \<noteq> 0" "rc (env h (File (ReadFile (classid_file_in p)))) \<noteq> 0"
    "content (env h (File (ReadFile (classid_file_in p)))) =
       decimal_line (class_ids ids h (classid_file_in p))"
  using assms unfolding netcls_files_def by blast+

lemma setupOneClass_netcls:
  assumes "netcls_files canon ids env"
  shows "outcome (setupOneClass env cls) h = ok"
    and "fold netcls_step (calls (setupOneClass env cls) h) (class_ids ids h) =
      (if left_as_is canon (class_ids ids h) cls then class_ids ids h
       else (class_ids ids h)(classid_path canon cls := classid cls))"
    and "view opened_for_writing (calls (setupOneClass env cls) h) =
      (if left_as_is canon (class_ids ids h) cls then [] else [classid_path canon cls])"
  by (simp_all add: setupOneClass_def write_classid_def run_simps extends_rules Let_def
      netcls_simps[OF assms] left_as_is_def classid_path_def read_back_def classid_text
      flip: classid_file_in_def)

lemma left_as_is_cong:
  "ids (classid_path canon cls) = ids' (classid_path canon cls) \<Longrightarrow>
     left_as_is canon ids cls = left_as_is canon ids' cls"
  by (simp add: left_as_is_def)

lemma hierarchy_ids:
  assumes "netcls_files canon ids env" and "distinct (map (classid_path canon) classes)"
  shows "outcome (createCgroupHierarchy env classes) h = ok \<and>
    (\<forall>cls \<in> set classes.
       class_ids ids (h @ calls (createCgroupHierarchy env classes) h) (classid_path canon cls) =
         (if left_as_is canon (class_ids ids h) cls then class_ids ids h (classid_path canon cls)
          else classid cls)) \<and>
    (\<forall>p. p \<notin> classid_path canon ` set classes \<longrightarrow>
       class_ids ids (h @ calls (createCgroupHierarchy env classes) h) p = class_ids ids h p) \<and>
    view opened_for_writing (calls (createCgroupHierarchy env classes) h) =
      map (classid_path canon) (filter (\<lambda>cls. \<not> left_as_is canon (class_ids ids h) cls) classes)"
  using assms(2) unfolding createCgroupHierarchy_def
proof (induction classes arbitrary: h)
  case (Cons cls classes)
  let ?h = "h @ calls (setupOneClass env cls) h"
  let ?h' = "?h @ calls (for_each (setupOneClass env) classes) ?h"
  note one = setupOneClass_netcls[OF assms(1), of cls h]
  have run: "outcome (for_each (setupOneClass env) (cls # classes)) h =
      outcome (for_each (setupOneClass env) classes) ?h"
    "h @ calls (for_each (setupOneClass env) (cls # classes)) h = ?h'"
    "view opened_for_writing (calls (for_each (setupOneClass env) (cls # classes)) h) =
      (if left_as_is canon (class_ids ids h) cls then [] else [classid_path canon cls]) @
      view opened_for_writing (calls (for_each (setupOneClass env) classes) ?h)"
    using one by (simp_all add: for_each_Cons_outcome for_each_Cons_calls extends_rules del: for_each.simps)
  have new: "classid_path canon cls \<notin> classid_path canon ` set classes"
    and d: "distinct (map (classid_path canon) classes)"
    using Cons.prems by simp_all
  have step: "class_ids ids ?h = (if left_as_is canon (class_ids ids h) cls then class_ids ids h
      else (class_ids ids h)(classid_path canon cls := classid cls))"
    by (simp add: one(2))
  then have same: "class_ids ids ?h p = class_ids ids h p" if "p \<noteq> classid_path canon cls" for p
    using that by simp
  have left: "left_as_is canon (class_ids ids ?h) c = left_as_is canon (class_ids ids h) c"
    and other: "class_ids ids ?h (classid_path canon c) = class_ids ids h (classid_path canon c)"
    if "c \<in> set classes" for c
  proof -
    have "classid_path canon c \<noteq> classid_path canon cls"
      using new imageI[OF that, of "classid_path canon"] by metis
    then show "class_ids ids ?h (classid_path canon c) = class_ids ids h (classid_path canon c)"
      by (rule same)
    then show "left_as_is canon (class_ids ids ?h) c = left_as_is canon (class_ids ids h) c"
      by (rule left_as_is_cong)
  qed
  then have kept: "filter (\<lambda>c. \<not> left_as_is canon (class_ids ids ?h) c) classes =
      filter (\<lambda>c. \<not> left_as_is canon (class_ids ids h) c) classes"
    by (intro filter_cong) simp_all
  note IH = Cons.IH[OF d, of ?h]
  have "class_ids ids ?h' (classid_path canon cls) =
      (if left_as_is canon (class_ids ids h) cls then class_ids ids h (classid_path canon cls)
       else classid cls)"
    using IH new step by (simp del: class_ids_append)
  moreover have "class_ids ids ?h' p = class_ids ids h p"
    if "p \<notin> classid_path canon ` set (cls # classes)" for p
    using IH same[of p] that by (simp del: class_ids_append)
  ultimately show ?case
    unfolding run using IH kept left other by (simp del: class_ids_append)
qed simp

subsection \<open>Properties\<close>

text \<open>C36: with a directory of its own for every class, setting up the cgroups succeeds on the kernel's
  net_cls controller and afterwards every class's cgroup has the class's id, unless the id it had
  before looks like it: the kernel reports ids in decimal and the setup reads the digits as
  hexadecimal ones, so it takes some other ids for the class's and leaves them. No other cgroup is
  touched. For the same reason a second setup writes all the ids again that the first one
  wrote, other than those of one digit and the largest one.\<close>

theorem cgroup_ids_written:
  assumes "netcls_files canon ids env" and "distinct (map (classid_path canon) classes)"
  shows "let h' = h @ calls (createCgroupHierarchy env classes) h;
             before = class_ids ids h; after = class_ids ids h';
             others = filter (\<lambda>cls. read_back (before (classid_path canon cls)) \<noteq> classid cls) classes
    in outcome (createCgroupHierarchy env classes) h = ok \<and>
       (\<forall>cls \<in> set classes. after (classid_path canon cls) =
          (if cls \<in> set others then classid cls else before (classid_path canon cls))) \<and>
       (\<forall>p. p \<in> classid_path canon ` set classes \<or> after p = before p) \<and>
       view opened_for_writing (calls (createCgroupHierarchy env classes) h) =
         map (classid_path canon) others \<and>
       view opened_for_writing (calls (createCgroupHierarchy env classes) h') =
         map (classid_path canon)
           (filter (\<lambda>cls. \<not> (classid cls \<le> 9 \<or> classid cls = 0xFFFFFFFF)) others)"
proof -
  let ?h = "h @ calls (createCgroupHierarchy env classes) h"
  note first = hierarchy_ids[OF assms, of h] and second = hierarchy_ids[OF assms, of ?h]
  have again: "left_as_is canon (class_ids ids ?h) cls \<longleftrightarrow>
      left_as_is canon (class_ids ids h) cls \<or> classid cls \<le> 9 \<or> classid cls = 0xFFFFFFFF"
    if "cls \<in> set classes" for cls
    using first that read_back_same[of "classid cls"]
    by (auto simp: left_as_is_def simp del: class_ids_append)
  have "filter (\<lambda>cls. \<not> left_as_is canon (class_ids ids ?h) cls) classes =
      filter (\<lambda>cls. \<not> (classid cls \<le> 9 \<or> classid cls = 0xFFFFFFFF))
        (filter (\<lambda>cls. \<not> left_as_is canon (class_ids ids h) cls) classes)"
    unfolding filter_filter by (rule filter_cong) (auto simp: again simp del: class_ids_append)
  then show ?thesis
    using first second
    unfolding Let_def left_as_is_def[symmetric] by (auto simp del: class_ids_append)
qed

text \<open>Three new cgroups of the shipped classes: their ids are set, and set again.\<close>

theorem cgroup_ids_written_witness:
  "let cs = calls (createCgroupHierarchy (netcls_env (\<lambda>p. p) (\<lambda>p. 0)) shipped_classes) [];
       again = calls (createCgroupHierarchy (netcls_env (\<lambda>p. p) (\<lambda>p. 0)) shipped_classes) cs
   in map (\<lambda>cls. class_ids (\<lambda>p. 0) cs (classid_path (\<lambda>p. p) cls)) shipped_classes = map classid shipped_classes \<and>
      view opened_for_writing again = map (classid_path (\<lambda>p. p)) shipped_classes"
proof -
  have "distinct (map (classid_path (\<lambda>p. p)) shipped_classes)"
    by (simp add: shipped_classes_def classid_path_def classid_file_in_def path_append_def
        parent_path_def filename_def Let_def)
  moreover have "read_back 0 = 0"
    by (simp add: read_back_same)
  moreover have "list_all (\<lambda>cls. 9 < classid cls \<and> classid cls \<noteq> 0xFFFFFFFF) shipped_classes"
    by (simp add: shipped_classes_def)
  ultimately show ?thesis
    using cgroup_ids_written[OF netcls_files_env, where canon = "\<lambda>p. p" and ids = "\<lambda>p. 0" and
        classes = shipped_classes and h = "[]"]
    by (simp add: Let_def class_ids_def shipped_classes_def)
qed

text \<open>The id 100001, in hexadecimal 186A1, reads like the id 100001 in hexadecimal of a class.\<close>

lemma other_id_left: "read_back 100001 = 0x100001"
  by (simp add: read_back_value digits_value.simps nat_text.simps digit_val_def hex_char_def)

text \<open>The cgroups are set up in order up to the first that fails, which alone decides the
  error; classes after it are not touched.\<close>

theorem cgroup_setup_stops_at_first_error:
  assumes "outcome (createCgroupHierarchy env before) h = ok"
    and "outcome (setupOneClass env cls) (h @ calls (createCgroupHierarchy env before) h) = Inl e"
  shows "outcome (createCgroupHierarchy env (before @ cls # after)) h = Inl e \<and>
    calls (createCgroupHierarchy env (before @ cls # after)) h =
      calls (createCgroupHierarchy env before) h @
      calls (setupOneClass env cls) (h @ calls (createCgroupHierarchy env before) h) \<and>
    e \<in> {CgroupCreateFailed, CgroupWriteFailed}"
proof -
  have "e \<in> {CgroupCreateFailed, CgroupWriteFailed}"
    using assms(2)
    by (auto simp: setupOneClass_def write_classid_def run_simps extends_rules Let_def
        split: if_splits)
  then show ?thesis
    using assms unfolding createCgroupHierarchy_def
    by (auto simp: for_each_append_ok extends_rules for_each_Cons_outcome for_each_Cons_calls
        simp del: for_each.simps)
qed

theorem cgroup_setup_stops_at_first_error_witness:
  "outcome (createCgroupHierarchy (\<lambda>h c. reply (if c = File (Canonical ''/b'') then 2 else 0) EAGAIN)
     [empty_config, empty_config\<lparr>cgroupPath := ''/b/c''\<rparr>, empty_config]) [] = Inl CgroupCreateFailed"
  by (rule cgroup_setup_stops_at_first_error[where before = "[empty_config]" and
        cls = "empty_config\<lparr>cgroupPath := ''/b/c''\<rparr>" and after = "[empty_config]",
        simplified append_Cons append_Nil, THEN conjunct1])
    (simp_all add: createCgroupHierarchy_def setupOneClass_def run_simps extends_rules Let_def
      empty_config_def parent_path_def)

end
