(* ===== verification/Mptcp_Manager.thy ===== *)
theory Mptcp_Manager
  imports Ip_Rules
begin

text \<open>
  \<^verbatim>\<open>mptcp/mptcp_manager.cpp\<close>: the MPTCP endpoints of the classes that use it, managed over
  generic netlink. The numeric id of the kernel's family is resolved first; every command
  then goes out on a socket of its own. The parsed answers of libmnl are the \<open>attrs\<close> of
  an answer, as pairs of attribute type and 16-bit value.
\<close>

subsection \<open>Addresses and attributes\<close>

text \<open>\<^verbatim>\<open>ifaceAddr4\<close>: the first IPv4 entry of the interface; the list has the name, whether the
  entry is an IPv4 address, and the address. \<^verbatim>\<open>getifaddrs\<close> returns zero on success.\<close>

definition ifaceAddr4 :: "env \<Rightarrow> string \<Rightarrow> u32 os" where
  "ifaceAddr4 env ifname = do {
     a \<leftarrow> perform env (Nl GetIfAddrs);
     return
       (if rc a \<noteq> 0 then 0
        else case find (\<lambda>(name, is_ipv4, addr). is_ipv4 \<and> name = ifname) (ifaddrs a) of
               None \<Rightarrow> 0
             | Some (name, is_ipv4, addr) \<Rightarrow> addr) }"

text \<open>\<^verbatim>\<open>CTRL_ATTR_FAMILY_ID\<close> and the callback that looks for it, keeping the old id if there is
  none.\<close>

definition CTRL_ATTR_FAMILY_ID :: nat where "CTRL_ATTR_FAMILY_ID = 1"

definition genlFamilyParseId :: "(nat \<times> nat) list \<Rightarrow> int \<Rightarrow> int" where
  "genlFamilyParseId as familyId =
     (case find (\<lambda>a. fst a = CTRL_ATTR_FAMILY_ID) as of
        None \<Rightarrow> familyId | Some a \<Rightarrow> int (snd a mod 2 ^ 16))"

subsection \<open>Receiving\<close>

text \<open>
  The loop that reads answers until libmnl says stop (\<^verbatim>\<open>MNL_CB_STOP\<close> is 0) or an error. \<open>cb\<close>
  gives the new user data for the messages of one answer. The kernel ends an answer with an
  acknowledgement; \<open>fuel\<close> bounds the number of datagrams before it, and running out is \<open>None\<close>.
  The result is the last return value, the \<^verbatim>\<open>errno\<close> beside it, and the data.
\<close>

fun recv_replies ::
  "env \<Rightarrow> nat \<Rightarrow> u32 \<Rightarrow> u32 \<Rightarrow> ((nat \<times> nat) list \<Rightarrow> int \<Rightarrow> int) \<Rightarrow> int \<Rightarrow> (int \<times> errno \<times> int) option os" where
  "recv_replies env 0 seq portid cb d = return None"
| "recv_replies env (Suc fuel) seq portid cb d = do {
     r \<leftarrow> perform env (Nl NlRecv);
     (if rc r \<le> 0 then return (Some (rc r, err r, d))
      else do {
        v \<leftarrow> perform env (Nl (NlCbRun (nat (rc r)) seq portid));
        let d' = fold cb (attrs v) d;
        (if rc v \<le> 0 then return (Some (rc v, err v, d'))
         else recv_replies env fuel seq portid cb d') }) }"

text \<open>Open a generic netlink socket, bind it, and leave it closed on every path.\<close>

definition with_genl ::
  "env \<Rightarrow> (u32 \<Rightarrow> u32 \<Rightarrow> (RoutingError + 'a) os) \<Rightarrow> (RoutingError + 'a) os" where
  "with_genl env body = do {
     raw \<leftarrow> perform env (Nl (NlOpen NETLINK_GENERIC));
     (if rc raw = 0 then return (Inl NetlinkError)
      else finally_call env (Nl NlClose) (do {
        b \<leftarrow> perform env (Nl NlBind);
        (if rc b < 0 then return (Inl NetlinkError)
         else do {
           t \<leftarrow> perform env (Nl TimeNow);
           p \<leftarrow> perform env (Nl NlPortid);
           body (word_of_int (rc t)) (word_of_int (rc p)) }) })) }"

definition genl_msg :: "nl_type \<Rightarrow> genl_cmd \<Rightarrow> nl_attr list \<Rightarrow> u32 \<Rightarrow> nlmsg" where
  "genl_msg t cmd as seq =
     \<lparr>nlmsg_type = t, nlmsg_flags = {NLM_F_REQUEST, NLM_F_ACK}, nlmsg_seq = seq,
      nlmsg_hdr = Genlmsg cmd, nlmsg_attrs = as\<rparr>"

definition MPTCP_PM_NAME :: string where "MPTCP_PM_NAME = ''mptcp_pm''"

definition resolveGenlFamily :: "env \<Rightarrow> nat \<Rightarrow> (RoutingError + int) os" where
  "resolveGenlFamily env fuel =
     with_genl env (\<lambda>seq portid. do {
       s \<leftarrow> perform env (Nl (NlSend
             (genl_msg GENL_ID_CTRL CTRL_CMD_GETFAMILY [CTRL_ATTR_FAMILY_NAME MPTCP_PM_NAME] seq)));
       (if rc s < 0 then return (Inl NetlinkError)
        else do {
          r \<leftarrow> recv_replies env fuel seq portid genlFamilyParseId (- 1);
          return (case r of
              None \<Rightarrow> Inl NetlinkError
            | Some (ret, e, familyId) \<Rightarrow>
                if ret < 0 \<or> familyId < 0 then Inl NetlinkError else Inr familyId) }) })"

subsection \<open>Commands\<close>

text \<open>The attributes of an endpoint; only adding needs the flags and the interface.\<close>

definition endpoint_attrs :: "genl_cmd \<Rightarrow> u32 \<Rightarrow> u32 \<Rightarrow> nl_attr list" where
  "endpoint_attrs cmd addr4 ifindex =
     [MPTCP_PM_ATTR_ADDR
       ([MPTCP_PM_ADDR_ATTR_FAMILY AF_INET, MPTCP_PM_ADDR_ATTR_ADDR4 addr4] @
        (if cmd = MPTCP_PM_CMD_ADD_ADDR
         then [MPTCP_PM_ADDR_FLAG_SUBFLOW_ATTR, MPTCP_PM_ADDR_ATTR_IF_IDX ifindex] else []))]"

definition endpoint_tolerated :: "genl_cmd \<Rightarrow> errno \<Rightarrow> bool" where
  "endpoint_tolerated cmd e \<longleftrightarrow>
     (cmd = MPTCP_PM_CMD_ADD_ADDR \<and> e = EEXIST) \<or> (cmd = MPTCP_PM_CMD_DEL_ADDR \<and> e = ENOENT)"

definition send_endpoint ::
  "env \<Rightarrow> nat \<Rightarrow> int \<Rightarrow> genl_cmd \<Rightarrow> u32 \<Rightarrow> u32 \<Rightarrow> u32 \<Rightarrow> u32 \<Rightarrow> RoutingError status os" where
  "send_endpoint env fuel familyId cmd addr4 ifindex seq portid = do {
     s \<leftarrow> perform env (Nl (NlSend
           (genl_msg (GenlFamily (word_of_int familyId)) cmd (endpoint_attrs cmd addr4 ifindex) seq)));
     (if rc s < 0 then return (Inl NetlinkError)
      else do {
        r \<leftarrow> recv_replies env fuel seq portid (\<lambda>_ d. d) 0;
        return (case r of
            None \<Rightarrow> Inl NetlinkError
          | Some (ret, e, _) \<Rightarrow>
              if ret < 0 \<and> \<not> endpoint_tolerated cmd e then Inl NetlinkError else ok) }) }"

definition sendEndpointCmd ::
  "env \<Rightarrow> nat \<Rightarrow> int \<Rightarrow> genl_cmd \<Rightarrow> string \<Rightarrow> u32 \<Rightarrow> RoutingError status os" where
  "sendEndpointCmd env fuel familyId cmd iface addr4 =
     with_genl env (\<lambda>seq portid.
       if cmd = MPTCP_PM_CMD_ADD_ADDR then do {
         i \<leftarrow> perform env (Nl (IfNameToIndex iface));
         (if rc i = 0 then return (Inl NetlinkError)
          else send_endpoint env fuel familyId cmd addr4 (word_of_int (rc i)) seq portid) }
       else send_endpoint env fuel familyId cmd addr4 0 seq portid)"

text \<open>The inner loop's body, and the two nested loops over the classes that use MPTCP.\<close>

definition add_endpoint :: "env \<Rightarrow> nat \<Rightarrow> int \<Rightarrow> string \<Rightarrow> RoutingError status os" where
  "add_endpoint env fuel familyId iface = do {
     addr4 \<leftarrow> ifaceAddr4 env iface;
     (if addr4 = 0 then return ok
      else sendEndpointCmd env fuel familyId MPTCP_PM_CMD_ADD_ADDR iface addr4) }"

definition add_class_endpoints :: "env \<Rightarrow> nat \<Rightarrow> int \<Rightarrow> PathClassConfig \<Rightarrow> RoutingError status os" where
  "add_class_endpoints env fuel familyId cls =
     (if \<not> mptcpEnabled cls then return ok
      else for_each (add_endpoint env fuel familyId) (interfaces cls))"

definition addEndpoints :: "env \<Rightarrow> nat \<Rightarrow> PathClassConfig list \<Rightarrow> RoutingError status os" where
  "addEndpoints env fuel classes = do {
     f \<leftarrow> resolveGenlFamily env fuel;
     (case f of
        Inl e \<Rightarrow> return (Inl e)
      | Inr familyId \<Rightarrow> for_each (add_class_endpoints env fuel familyId) classes) }"

text \<open>\<^verbatim>\<open>removeEndpoints\<close> flushes all endpoints; what it reads back is only logged.\<close>

definition flush_attrs :: "nl_attr list" where
  "flush_attrs = [MPTCP_PM_ATTR_ADDR [MPTCP_PM_ADDR_ATTR_FAMILY AF_INET]]"

definition flush_endpoints :: "env \<Rightarrow> nat \<Rightarrow> int \<Rightarrow> RoutingError status os" where
  "flush_endpoints env fuel familyId =
     with_genl env (\<lambda>seq portid. do {
       s \<leftarrow> perform env (Nl (NlSend
             (genl_msg (GenlFamily (word_of_int familyId)) MPTCP_PM_CMD_FLUSH_ADDRS flush_attrs seq)));
       (if rc s < 0 then return (Inl NetlinkError)
        else do {
          r \<leftarrow> recv_replies env fuel seq portid (\<lambda>_ d. d) 0;
          return (case r of
              None \<Rightarrow> Inl NetlinkError
            | Some (ret, e, _) \<Rightarrow> if ret < 0 \<and> e \<noteq> ENOENT then Inl NetlinkError else ok) }) })"

definition removeEndpoints :: "env \<Rightarrow> nat \<Rightarrow> unit os" where
  "removeEndpoints env fuel = do {
     f \<leftarrow> resolveGenlFamily env fuel;
     (case f of
        Inl e \<Rightarrow> return ()
      | Inr familyId \<Rightarrow> do { _ \<leftarrow> flush_endpoints env fuel familyId; return () }) }"

subsection \<open>Lemmas\<close>

lemma extends_ifaceAddr4 [extends_rules]: "extends (ifaceAddr4 env i)"
  unfolding ifaceAddr4_def by (intro extends_rules)

lemma extends_recv_replies [extends_rules]: "extends (recv_replies env fuel seq p cb d)"
  by (induction fuel arbitrary: d) (auto simp: Let_def intro!: extends_rules)

lemma extends_with_genl [extends_rules]:
  "(\<And>s p. extends (body s p)) \<Longrightarrow> extends (with_genl env body)"
  unfolding with_genl_def by (intro extends_rules)

lemma extends_resolveGenlFamily [extends_rules]: "extends (resolveGenlFamily env fuel)"
  unfolding resolveGenlFamily_def by (intro extends_rules)

lemma extends_send_endpoint [extends_rules]: "extends (send_endpoint env fuel f cmd a i s p)"
  unfolding send_endpoint_def by (intro extends_rules)

lemma extends_sendEndpointCmd [extends_rules]: "extends (sendEndpointCmd env fuel f cmd i a)"
  unfolding sendEndpointCmd_def by (intro extends_rules)

lemma extends_add_endpoint [extends_rules]: "extends (add_endpoint env fuel f i)"
  unfolding add_endpoint_def by (intro extends_rules)

lemma extends_add_class_endpoints [extends_rules]: "extends (add_class_endpoints env fuel f cls)"
  unfolding add_class_endpoints_def by (intro extends_rules)

lemma extends_addEndpoints [extends_rules]: "extends (addEndpoints env fuel classes)"
  unfolding addEndpoints_def by (intro extends_rules)

lemma extends_flush_endpoints [extends_rules]: "extends (flush_endpoints env fuel f)"
  unfolding flush_endpoints_def by (intro extends_rules)

lemma extends_removeEndpoints [extends_rules]: "extends (removeEndpoints env fuel)"
  unfolding removeEndpoints_def by (intro extends_rules)

text \<open>One round of the loop.\<close>

lemma recv_replies_round:
  "outcome (recv_replies env (Suc fuel) s p cb d) h =
     (let r = env h (Nl NlRecv);
          v = env (h @ [Nl NlRecv]) (Nl (NlCbRun (nat (rc r)) s p));
          d' = fold cb (attrs v) d
      in if rc r \<le> 0 then Some (rc r, err r, d)
         else if rc v \<le> 0 then Some (rc v, err v, d')
         else outcome (recv_replies env fuel s p cb d')
                (h @ [Nl NlRecv, Nl (NlCbRun (nat (rc r)) s p)]))"
  by (simp add: run_simps extends_rules Let_def)

text \<open>Receiving sends nothing and touches no socket.\<close>

lemma recv_replies_quiet:
  "view nl_sent (calls (recv_replies env fuel s p cb d) h) = []"
  "view nl_socket (exchanges env h (calls (recv_replies env fuel s p cb d) h)) = []"
  by (induction fuel arbitrary: d h) (simp_all add: run_simps extends_rules Let_def)

lemma with_genl_sockets:
  assumes "\<And>s p. extends (body s p)"
    and "\<And>s p h. view nl_socket (exchanges env h (calls (body s p) h)) = []"
  shows "sockets_closed env h (calls (with_genl env body) h)"
  by (simp add: with_genl_def run_simps extends_rules assms sockets_closed_def exchanges_append)

lemma send_endpoint_sockets:
  "view nl_socket (exchanges env h (calls (send_endpoint env fuel f cmd a i s p) h)) = []"
  by (simp add: send_endpoint_def run_simps extends_rules exchanges_append recv_replies_quiet)

lemma resolve_sockets: "sockets_closed env h (calls (resolveGenlFamily env fuel) h)"
  unfolding resolveGenlFamily_def
  by (rule with_genl_sockets)
    (simp_all add: run_simps extends_rules exchanges_append recv_replies_quiet)

lemma flush_sockets: "sockets_closed env h (calls (flush_endpoints env fuel f) h)"
  unfolding flush_endpoints_def
  by (rule with_genl_sockets)
    (simp_all add: run_simps extends_rules exchanges_append recv_replies_quiet)

lemma sendEndpointCmd_sockets: "sockets_closed env h (calls (sendEndpointCmd env fuel f cmd i a) h)"
  unfolding sendEndpointCmd_def
  by (rule with_genl_sockets)
    (simp_all add: run_simps extends_rules exchanges_append send_endpoint_sockets)

lemma sockets_closed_Nil [simp]: "sockets_closed env h []"
  by (simp add: sockets_closed_def)

lemma add_endpoint_sockets: "sockets_closed env h (calls (add_endpoint env fuel f i) h)"
proof -
  have "sockets_closed env h [Nl GetIfAddrs]"
    by (simp add: sockets_closed_def)
  from sockets_closed_append[OF this sendEndpointCmd_sockets] this show ?thesis
    by (simp add: add_endpoint_def ifaceAddr4_def run_simps extends_rules)
qed

interpretation endpoint_sockets: call_discipline "add_endpoint env fuel f" "sockets_closed env"
  by unfold_locales (simp_all add: sockets_closed_append extends_rules add_endpoint_sockets)

interpretation class_sockets: call_discipline "add_class_endpoints env fuel f" "sockets_closed env"
  by unfold_locales
    (simp_all add: sockets_closed_append extends_rules add_class_endpoints_def
      endpoint_sockets.loop_good)

text \<open>The request for one endpoint.\<close>

definition endpoint_request :: "int \<Rightarrow> u32 \<Rightarrow> u32 \<Rightarrow> nl_type \<times> nl_flag set \<times> nl_attr list" where
  "endpoint_request f addr4 ifindex =
     (GenlFamily (word_of_int f), {NLM_F_REQUEST, NLM_F_ACK},
      endpoint_attrs MPTCP_PM_CMD_ADD_ADDR addr4 ifindex)"

text \<open>Interfaces whose addresses and indices do not change during a run.\<close>

definition stable_ifaces :: "env \<Rightarrow> (string \<Rightarrow> u32) \<Rightarrow> (string \<Rightarrow> u32) \<Rightarrow> bool" where
  "stable_ifaces env addr_of index_of \<longleftrightarrow>
     (\<forall>h i. outcome (ifaceAddr4 env i) h = addr_of i \<and>
            word_of_int (rc (env h (Nl (IfNameToIndex i)))) = index_of i)"

definition iface_requests ::
  "int \<Rightarrow> (string \<Rightarrow> u32) \<Rightarrow> (string \<Rightarrow> u32) \<Rightarrow> string \<Rightarrow>
     (nl_type \<times> nl_flag set \<times> nl_attr list) list" where
  "iface_requests f addr_of index_of i =
     (if addr_of i = 0 then [] else [endpoint_request f (addr_of i) (index_of i)])"

definition class_requests ::
  "int \<Rightarrow> (string \<Rightarrow> u32) \<Rightarrow> (string \<Rightarrow> u32) \<Rightarrow> PathClassConfig \<Rightarrow>
     (nl_type \<times> nl_flag set \<times> nl_attr list) list" where
  "class_requests f addr_of index_of cls =
     (if mptcpEnabled cls then concat (map (iface_requests f addr_of index_of) (interfaces cls))
      else [])"

lemma with_genl_sent:
  assumes "\<And>s p. extends (body s p)"
    and "\<And>s p h. outcome (body s p) h = Inr r \<Longrightarrow> view nl_sent (calls (body s p) h) = out"
    and "\<And>s p h. prefix (view nl_sent (calls (body s p) h)) out"
  shows "outcome (with_genl env body) h = Inr r \<Longrightarrow> view nl_sent (calls (with_genl env body) h) = out"
    and "prefix (view nl_sent (calls (with_genl env body) h)) out"
  using assms(2,3)
  by (auto simp: with_genl_def run_simps extends_rules assms(1) split: if_splits)

lemma add_endpoint_observed:
  assumes "stable_ifaces env addr_of index_of"
  shows "observed_body (add_endpoint env fuel f) nl_sent (iface_requests f addr_of index_of)"
proof
  fix i :: string and h
  note stable = assms[unfolded stable_ifaces_def, rule_format]
  have look: "view nl_sent (calls (ifaceAddr4 env i) h) = []"
    by (simp add: ifaceAddr4_def run_simps extends_rules)
  have sent: "(outcome (sendEndpointCmd env fuel f MPTCP_PM_CMD_ADD_ADDR i (addr_of i)) h = ok \<longrightarrow>
      view nl_sent (calls (sendEndpointCmd env fuel f MPTCP_PM_CMD_ADD_ADDR i (addr_of i)) h) =
        [endpoint_request f (addr_of i) (index_of i)]) \<and>
    prefix (view nl_sent (calls (sendEndpointCmd env fuel f MPTCP_PM_CMD_ADD_ADDR i (addr_of i)) h))
        [endpoint_request f (addr_of i) (index_of i)]" for h
    unfolding sendEndpointCmd_def
    by (intro conjI impI; rule with_genl_sent)
      (auto simp: send_endpoint_def run_simps extends_rules recv_replies_quiet genl_msg_def
        endpoint_request_def stable split: if_splits)
  show "extends (add_endpoint env fuel f i)"
    by (rule extends_add_endpoint)
  show "outcome (add_endpoint env fuel f i) h = ok \<Longrightarrow>
      view nl_sent (calls (add_endpoint env fuel f i) h) = iface_requests f addr_of index_of i"
    using sent by (auto simp: add_endpoint_def run_simps extends_rules look stable iface_requests_def
        split: if_splits)
  show "prefix (view nl_sent (calls (add_endpoint env fuel f i) h)) (iface_requests f addr_of index_of i)"
    using sent by (auto simp: add_endpoint_def run_simps extends_rules look stable iface_requests_def)
qed

lemma add_class_observed:
  assumes "stable_ifaces env addr_of index_of"
  shows "observed_body (add_class_endpoints env fuel f) nl_sent (class_requests f addr_of index_of)"
proof
  fix cls :: PathClassConfig and h
  note inner = add_endpoint_observed[OF assms, of fuel f]
  show "extends (add_class_endpoints env fuel f cls)"
    by (rule extends_add_class_endpoints)
  show "outcome (add_class_endpoints env fuel f cls) h = ok \<Longrightarrow>
      view nl_sent (calls (add_class_endpoints env fuel f cls) h) = class_requests f addr_of index_of cls"
    using observed_body.loop_ok[OF inner, of "interfaces cls" h]
    by (auto simp: add_class_endpoints_def class_requests_def split: if_splits)
  show "prefix (view nl_sent (calls (add_class_endpoints env fuel f cls) h))
      (class_requests f addr_of index_of cls)"
    using observed_body.loop_prefix[OF inner] by (simp add: add_class_endpoints_def class_requests_def)
qed

subsection \<open>Properties\<close>

definition family_request :: "nl_type \<times> nl_flag set \<times> nl_attr list" where
  "family_request = (GENL_ID_CTRL, {NLM_F_REQUEST, NLM_F_ACK}, [CTRL_ATTR_FAMILY_NAME ''mptcp_pm''])"

lemma resolve_sent:
  "outcome (resolveGenlFamily env fuel) h = Inr f \<Longrightarrow>
     view nl_sent (calls (resolveGenlFamily env fuel) h) = [family_request]"
  unfolding resolveGenlFamily_def
  by (rule with_genl_sent(1)[where r = f])
    (auto simp: run_simps extends_rules recv_replies_quiet genl_msg_def family_request_def
      MPTCP_PM_NAME_def split: if_splits)

lemma resolve_nonneg: "outcome (resolveGenlFamily env fuel) h = Inr f \<Longrightarrow> 0 \<le> f"
  by (auto simp: resolveGenlFamily_def with_genl_def run_simps extends_rules
      split: if_splits option.splits)

text \<open>C37: with interfaces that do not change meanwhile, registering endpoints that succeeds asks
  for the family once and then adds, in configuration order, one subflow endpoint for each
  interface of each class that uses MPTCP, with the address and index of the interface;
  interfaces without an address and classes without MPTCP are skipped.\<close>

theorem endpoints_requested:
  assumes "stable_ifaces env addr_of index_of"
    and "outcome (addEndpoints env fuel classes) h = ok"
  shows "\<exists>f \<ge> 0. view nl_sent (calls (addEndpoints env fuel classes) h) =
    family_request # concat (map (class_requests f addr_of index_of) classes)"
proof -
  obtain f where f: "outcome (resolveGenlFamily env fuel) h = Inr f"
    using assms(2) by (auto simp: addEndpoints_def run_simps extends_rules split: sum.splits)
  let ?h = "h @ calls (resolveGenlFamily env fuel) h"
  have "outcome (for_each (add_class_endpoints env fuel f) classes) ?h = ok"
    using assms(2) f by (simp add: addEndpoints_def run_simps extends_rules)
  from observed_body.loop_ok[OF add_class_observed[OF assms(1)] this]
  have "view nl_sent (calls (addEndpoints env fuel classes) h) =
      family_request # concat (map (class_requests f addr_of index_of) classes)"
    using resolve_sent[OF f] f by (simp add: addEndpoints_def run_simps extends_rules)
  then show ?thesis
    using resolve_nonneg[OF f] by blast
qed

text \<open>A kernel with the family 29 and one address, on \<^verbatim>\<open>eth0.100\<close>.\<close>

definition mptcp_kernel :: env where
  "mptcp_kernel h c =
     (case c of
        Nl GetIfAddrs \<Rightarrow> (reply 0 EAGAIN)\<lparr>ifaddrs := [(''eth0.100'', True, 0x0100A8C0)]\<rparr>
      | Nl (NlCbRun n s p) \<Rightarrow> (reply 0 EAGAIN)\<lparr>attrs := [[(2, 7), (1, 29)]]\<rparr>
      | _ \<Rightarrow> reply 3 EAGAIN)"

theorem endpoints_requested_witness:
  "\<exists>f \<ge> 0. view nl_sent (calls (addEndpoints mptcp_kernel 1
      [empty_config\<lparr>mptcpEnabled := True, interfaces := [''eth0.200'', ''eth0.100'']\<rparr>]) []) =
    [family_request, endpoint_request f 0x0100A8C0 3]"
proof -
  let ?addr = "\<lambda>i. if i = ''eth0.100'' then 0x0100A8C0 else 0"
  let ?cs = "[empty_config\<lparr>mptcpEnabled := True, interfaces := [''eth0.200'', ''eth0.100'']\<rparr>]"
  have stable: "stable_ifaces mptcp_kernel ?addr (\<lambda>i. 3)"
    by (auto simp: stable_ifaces_def ifaceAddr4_def mptcp_kernel_def run_simps)
  have "outcome (addEndpoints mptcp_kernel 1 ?cs) [] = ok"
    by (simp add: addEndpoints_def resolveGenlFamily_def with_genl_def add_class_endpoints_def
        add_endpoint_def ifaceAddr4_def sendEndpointCmd_def send_endpoint_def run_simps extends_rules
        mptcp_kernel_def genlFamilyParseId_def CTRL_ATTR_FAMILY_ID_def empty_config_def
        recv_replies_round Let_def del: recv_replies.simps(2))
  from endpoints_requested[OF stable this] show ?thesis
    by (simp add: class_requests_def iface_requests_def empty_config_def)
qed

text \<open>Whatever fails, every generic netlink socket that is opened to register or to flush
  endpoints is closed before the next one is opened, and none is left open.\<close>

theorem endpoint_sockets_closed:
  "sockets_closed env h (calls (addEndpoints env fuel classes) h) \<and>
   sockets_closed env h (calls (removeEndpoints env fuel) h)"
  using sockets_closed_append[OF resolve_sockets class_sockets.loop_good]
    sockets_closed_append[OF resolve_sockets flush_sockets] resolve_sockets
  by (auto simp: addEndpoints_def removeEndpoints_def run_simps extends_rules split: sum.splits)

text \<open>An environment in which the verdict on the \<open>n\<close>-th answer, or an earlier one, ends the loop.\<close>

definition ends_within :: "env \<Rightarrow> nat \<Rightarrow> bool" where
  "ends_within env n \<longleftrightarrow>
     (\<forall>h k s p. n \<le> Suc (length (filter (\<lambda>c. c = Nl NlRecv) h)) \<longrightarrow>
        rc (env h (Nl (NlCbRun k s p))) \<le> 0)"

text \<open>The receive loop returns as soon as libmnl reports the end of the answer or an error:
  if one of the first \<open>n\<close> verdicts is not positive, \<open>n\<close> rounds are enough, and more rounds do
  not change the result.\<close>

theorem recv_replies_returns:
  assumes "ends_within env n"
    and "n \<le> length (filter (\<lambda>c. c = Nl NlRecv) h) + fuel" and "0 < fuel"
  shows "outcome (recv_replies env fuel s p cb d) h \<noteq> None \<and>
    outcome (recv_replies env (fuel + extra) s p cb d) h = outcome (recv_replies env fuel s p cb d) h"
  using assms(2,3)
proof (induction fuel arbitrary: h d)
  case (Suc fuel)
  let ?h = "h @ [Nl NlRecv]"
  let ?r = "env h (Nl NlRecv)"
  let ?v = "env ?h (Nl (NlCbRun (nat (rc ?r)) s p))"
  show ?case
  proof (cases "rc ?r \<le> 0 \<or> rc ?v \<le> 0")
    case True
    then show ?thesis by (auto simp: run_simps extends_rules Let_def)
  next
    case False
    then have "\<not> n \<le> Suc (length (filter (\<lambda>c. c = Nl NlRecv) ?h))"
      using assms(1) unfolding ends_within_def by blast
    then have "0 < fuel"
      using Suc.prems by simp
    with False Suc.IH[of "?h @ [Nl (NlCbRun (nat (rc ?r)) s p)]" "fold cb (attrs ?v) d"] Suc.prems
    show ?thesis
      by (simp add: run_simps extends_rules Let_def)
  qed
qed simp

theorem recv_replies_returns_witness:
  "outcome (recv_replies mptcp_kernel 1 0 0 genlFamilyParseId (- 1)) [] \<noteq> None"
  using recv_replies_returns[of mptcp_kernel 1 "[]" 1 0 0 genlFamilyParseId "- 1"]
  by (simp add: ends_within_def mptcp_kernel_def)

end
