(* ===== verification/Daemon.thy ===== *)
theory Daemon
  imports Config_Loader Path_Fsm Api_Lifecycle Routing_Setup Mptcp_Manager
begin

text \<open>
  \<^verbatim>\<open>main.cpp\<close>: the command line, the phases of the start with their clean-up on failure, the
  callbacks that join the state machines to the routes, the MPTCP endpoints and the server,
  the main loop and the shutdown.

  The threads of the daemon (one per supplicant, the server's, the main one) are modelled as
  one sequence of events, any interleaving of them being a list: a monitor handles one line,
  or the server handles one readable or closed descriptor, before the next event.
\<close>

subsection \<open>Signals and arguments\<close>

datatype signal = SIGTERM | SIGINT | SIGHUP

record flags =
  gShutdown :: bool
  gReloadConfig :: bool

definition handleSignal :: "signal \<Rightarrow> flags \<Rightarrow> flags" where
  "handleSignal sig f = (if sig = SIGHUP then f\<lparr>gReloadConfig := True\<rparr> else f\<lparr>gShutdown := True\<rparr>)"

definition kDefaultConfigPath :: string where
  "kDefaultConfigPath = ''/etc/netservice/path-policies.json''"

fun parse_args_from :: "string \<Rightarrow> string list \<Rightarrow> string" where
  "parse_args_from path [] = path"
| "parse_args_from path [arg] = path"
| "parse_args_from path (arg # val # rest) =
     (if arg = ''--config'' then parse_args_from val rest else parse_args_from path (val # rest))"

definition parseArgs :: "string list \<Rightarrow> string" where
  "parseArgs argv = parse_args_from kDefaultConfigPath (drop 1 argv)"

subsection \<open>Callbacks\<close>

text \<open>What the callbacks act on: the server and the calls made so far.\<close>

type_synonym world = "ConsumerApiServer \<times> call list"

definition on_path_up ::
  "env \<Rightarrow> nat \<Rightarrow> nat \<Rightarrow> PathClassConfig list \<Rightarrow> PathClassConfig \<Rightarrow> string \<Rightarrow> u32 \<Rightarrow> unit os" where
  "on_path_up env bits fuel classes cls iface table = do {
     gw \<leftarrow> queryGatewayForIface env bits iface;
     _ \<leftarrow> (if gw \<noteq> 0 then addDefaultRoute env iface gw table else return ok);
     _ \<leftarrow> (if mptcpEnabled cls then addEndpoints env fuel classes else return ok);
     return () }"

definition on_path_down :: "env \<Rightarrow> string \<Rightarrow> u32 \<Rightarrow> unit os" where
  "on_path_down env iface table = do { _ \<leftarrow> removeDefaultRoute env iface table; return () }"

definition on_state_changed ::
  "env \<Rightarrow> PathClassConfig \<Rightarrow> PathState \<Rightarrow> string \<Rightarrow> int \<Rightarrow> ConsumerApiServer \<Rightarrow> ConsumerApiServer os" where
  "on_state_changed env cls to iface rssi s = do {
     s' \<leftarrow> broadcastPathEvent env (cls_id cls) to iface rssi s;
     return (updateCurrentState (cls_id cls) to s') }"

definition class_callbacks ::
  "env \<Rightarrow> nat \<Rightarrow> nat \<Rightarrow> PathClassConfig list \<Rightarrow> PathClassConfig \<Rightarrow> world Callbacks" where
  "class_callbacks env bits fuel classes cls =
     \<lparr>onPathUp = Some (\<lambda>iface table (s, h).
        (s, snd (run_state (on_path_up env bits fuel classes cls iface table) h))),
      onPathDown = Some (\<lambda>iface table (s, h).
        (s, snd (run_state (on_path_down env iface table) h))),
      onStateChanged = Some (\<lambda>from to iface rssi (s, h).
        run_state (on_state_changed env cls to iface rssi s) h)\<rparr>"

subsection \<open>The running daemon\<close>

text \<open>One monitor with its machine, and everything that runs.\<close>

record watch =
  w_ctrlPath :: string
  w_iface :: string
  w_fsm :: "world PathStateFsm"

record daemon =
  d_classes :: "PathClassConfig list"
  d_watches :: "watch list"
  d_world :: world

definition make_watch ::
  "env \<Rightarrow> nat \<Rightarrow> nat \<Rightarrow> PathClassConfig list \<Rightarrow> PathClassConfig \<Rightarrow> watch" where
  "make_watch env bits fuel classes cls =
     \<lparr>w_ctrlPath = ''/var/run/wpa_supplicant/'' @ hd (interfaces cls), w_iface = hd (interfaces cls),
      w_fsm = new_fsm cls (class_callbacks env bits fuel classes cls)\<rparr>"

definition make_watches :: "env \<Rightarrow> nat \<Rightarrow> nat \<Rightarrow> PathClassConfig list \<Rightarrow> watch list" where
  "make_watches env bits fuel classes =
     map (make_watch env bits fuel classes) (filter (\<lambda>cls. interfaces cls \<noteq> []) classes)"

definition kSocketPath :: string where
  "kSocketPath = ''/var/run/netservice/control.sock''"

definition new_daemon ::
  "env \<Rightarrow> nat \<Rightarrow> nat \<Rightarrow> PathClassConfig list \<Rightarrow> call list \<Rightarrow> daemon" where
  "new_daemon env bits fuel classes h =
     \<lparr>d_classes = classes, d_watches = make_watches env bits fuel classes,
      d_world = (new_server classes kSocketPath, h)\<rparr>"

datatype daemon_event = WpaLine nat string | ClientReady int | ClientGone int

definition daemon_step :: "env \<Rightarrow> daemon_event \<Rightarrow> daemon \<Rightarrow> daemon" where
  "daemon_step env ev d =
     (case ev of
        WpaLine i raw \<Rightarrow>
          if i < length (d_watches d) then
            let w = d_watches d ! i;
                (ended, (fsm, world)) =
                  handleEvent (Some onWpaEvent) (w_iface w) raw (w_fsm w, d_world d)
            in d\<lparr>d_watches := (d_watches d)[i := w\<lparr>w_fsm := fsm\<rparr>], d_world := world\<rparr>
          else d
      | ClientReady fd \<Rightarrow> d\<lparr>d_world := serve env (Readable fd) (d_world d)\<rparr>
      | ClientGone fd \<Rightarrow> d\<lparr>d_world := serve env (HungUp fd) (d_world d)\<rparr>)"

subsection \<open>Lemmas\<close>

lemma extends_queryGatewayForIface [extends_rules]: "extends (queryGatewayForIface env bits i)"
  unfolding queryGatewayForIface_def by (intro extends_rules)

lemma extends_on_path_up [extends_rules]: "extends (on_path_up env bits fuel classes cls i t)"
  unfolding on_path_up_def by (intro extends_rules)

lemma extends_on_path_down [extends_rules]: "extends (on_path_down env i t)"
  unfolding on_path_down_def by (intro extends_rules)

text \<open>Setting and removing a route, and registering endpoints, only talk to the kernel over netlink
  and read files.\<close>

lemmas route_defs = addDefaultRoute_def removeDefaultRoute_def sendRouteMsg_def nl_exchange_def
  nl_talk_def nl_answer_def queryGatewayForIface_def

lemmas endpoint_defs = addEndpoints_def resolveGenlFamily_def add_class_endpoints_def
  add_endpoint_def ifaceAddr4_def sendEndpointCmd_def send_endpoint_def with_genl_def

lemma silent_on_path:
  assumes "\<And>c s. step (Nl c) s = s" and "\<And>c s. step (File c) s = s"
  shows "silent step (on_path_up env bits fuel classes cls i t)"
    and "silent step (on_path_down env i t)"
proof -
  have replies: "silent step (recv_replies env fuel s p cb d)" for s p cb d
  proof (induction fuel arbitrary: d)
    case (Suc fuel)
    show ?case
      unfolding recv_replies.simps Let_def by (intro silent_rules Suc; simp add: assms)
  qed (simp add: silent_return)
  have endpoints: "silent step (addEndpoints env fuel classes)"
    unfolding endpoint_defs by (intro silent_rules replies; simp add: genl_msg_def assms)
  have "silent step (addDefaultRoute env i gw t)" and down: "silent step (removeDefaultRoute env i t)"
    and "silent step (queryGatewayForIface env bits i)" for gw
    unfolding route_defs by (intro silent_rules; simp add: assms)+
  then show "silent step (on_path_up env bits fuel classes cls i t)"
    unfolding on_path_up_def using endpoints by (intro silent_rules)
  show "silent step (on_path_down env i t)"
    unfolding on_path_down_def using down by (intro silent_rules)
qed

lemma extends_on_state_changed [extends_rules]: "extends (on_state_changed env cls to i r s)"
  unfolding on_state_changed_def by (intro extends_rules)

lemma class_callbacks_sel [simp]:
  "act (class_callbacks env bits fuel classes cls) (RouteUp i t) (s, h) =
     (s, h @ calls (on_path_up env bits fuel classes cls i t) h)"
  "act (class_callbacks env bits fuel classes cls) (RouteDown i t) (s, h) =
     (s, h @ calls (on_path_down env i t) h)"
  "act (class_callbacks env bits fuel classes cls) (StateChanged from to i r) (s, h) =
     (outcome (on_state_changed env cls to i r s) h, h @ calls (on_state_changed env cls to i r s) h)"
  by (simp_all add: class_callbacks_def run_as_calls extends_rules)

text \<open>Announcing a change replaces what the server has cached of the class.\<close>

lemma cached_updateCurrentState:
  "cached (updateCurrentState c st s) c' =
     (if c' = c then map_option (\<lambda>x. (st, snd x)) (cached s c) else cached s c')"
  by (cases "findClass (classStates s) c")
    (auto simp: cached_def updateCurrentState_def class_table.lookup_modify)

lemma cached_cache_event:
  "cached (cache_event c st i r s) c' =
     (if c' = c \<and> cached s c \<noteq> None then Some (st, i, r) else cached s c')"
  by (cases "findClass (classStates s) c") (auto simp: cached_def findClass_cache_event)

lemma cached_classStates: "classStates s = classStates s' \<Longrightarrow> cached s = cached s'"
  by (simp add: cached_def fun_eq_iff)

lemma cached_on_state_changed:
  "cached (outcome (on_state_changed env cls to i r s) h) c =
     (if c = cls_id cls \<and> cached s c \<noteq> None then Some (to, i, r) else cached s c)"
proof -
  have "cached (outcome (broadcastPathEvent env (cls_id cls) to i r s) h) =
      cached (cache_event (cls_id cls) to i r s)"
    by (rule cached_classStates) (simp add: outcome_broadcastPathEvent)
  then show ?thesis
    by (cases "cached s (cls_id cls)")
      (auto simp: on_state_changed_def run_simps extends_rules cached_updateCurrentState
        cached_cache_event)
qed

lemma cached_transition_actions:
  "map_option fst (cached (fst (fold (act (class_callbacks env bits fuel classes cls))
       (transition_actions config prev active new i r) (s, h))) c) =
     (if c = cls_id cls \<and> new \<noteq> prev \<and> cached s c \<noteq> None then Some new
      else map_option fst (cached s c))"
  by (cases "cached s (cls_id cls)")
    (auto simp add: transition_actions_def cached_on_state_changed simp del: act.simps)

text \<open>One line changes the machine of its monitor and the cached state of its class.\<close>

lemma daemon_step_line:
  assumes "i < length (d_watches d)"
  shows "daemon_step env (WpaLine i raw) d =
    (let w = d_watches d ! i; mw = onWpaEvent (parseEvent raw (w_iface w)) (w_fsm w, d_world d)
     in d\<lparr>d_watches := (d_watches d)[i := w\<lparr>w_fsm := fst mw\<rparr>], d_world := snd mw\<rparr>)"
  using assms by (simp add: daemon_step_def handleEvent_def Let_def split: prod.split)

lemma daemon_step_keeps [simp]:
  "length (d_watches (daemon_step env ev d)) = length (d_watches d)"
  "d_classes (daemon_step env ev d) = d_classes d"
  by (cases ev; simp add: daemon_step_def Let_def split: prod.split)+

text \<open>The lines of one monitor, as the events its machine sees.\<close>

fun monitor_events :: "nat \<Rightarrow> string \<Rightarrow> daemon_event list \<Rightarrow> WpaEvent list" where
  "monitor_events i iface [] = []"
| "monitor_events i iface (WpaLine j raw # evs) =
     (if j = i then parseEvent raw iface # monitor_events i iface evs else monitor_events i iface evs)"
| "monitor_events i iface (_ # evs) = monitor_events i iface evs"

lemma watch_step:
  assumes "i < length (d_watches d)"
  shows "w_iface (d_watches (daemon_step env ev d) ! i) = w_iface (d_watches d ! i)"
    and "w_fsm (d_watches (daemon_step env ev d) ! i) =
      fst (fold onWpaEvent (monitor_events i (w_iface (d_watches d ! i)) [ev])
        (w_fsm (d_watches d ! i), d_world d))"
proof -
  have "w_iface (d_watches (daemon_step env ev d) ! i) = w_iface (d_watches d ! i) \<and>
    w_fsm (d_watches (daemon_step env ev d) ! i) =
      fst (fold onWpaEvent (monitor_events i (w_iface (d_watches d ! i)) [ev])
        (w_fsm (d_watches d ! i), d_world d))"
  proof (cases ev)
    case (WpaLine j raw)
    then show ?thesis
      using assms
      by (cases "j < length (d_watches d)")
        (auto simp: daemon_step_line Let_def, simp_all add: daemon_step_def)
  qed (simp_all add: daemon_step_def)
  then show "w_iface (d_watches (daemon_step env ev d) ! i) = w_iface (d_watches d ! i)"
    and "w_fsm (d_watches (daemon_step env ev d) ! i) =
      fst (fold onWpaEvent (monitor_events i (w_iface (d_watches d ! i)) [ev])
        (w_fsm (d_watches d ! i), d_world d))"
    by simp_all
qed

lemma monitor_events_Cons:
  "monitor_events i iface (ev # evs) = monitor_events i iface [ev] @ monitor_events i iface evs"
  by (cases ev) simp_all

text \<open>So a machine goes through the events of its own monitor only.\<close>

lemma watch_run:
  assumes "i < length (d_watches d)"
  shows "w_fsm (d_watches (fold (daemon_step env) evs d) ! i) =
    fst (fold onWpaEvent (monitor_events i (w_iface (d_watches d ! i)) evs)
      (w_fsm (d_watches d ! i), w))"
  using assms
proof (induction evs arbitrary: d w)
  case (Cons ev evs)
  let ?own = "monitor_events i (w_iface (d_watches d ! i)) [ev]"
  let ?before = "fold onWpaEvent ?own (w_fsm (d_watches d ! i), w)"
  have "w_fsm (d_watches (daemon_step env ev d) ! i) = fst ?before"
    using watch_step(2)[OF Cons.prems] fold_onWpaEvent_machine by metis
  then show ?case
    using Cons.prems Cons.IH[of "daemon_step env ev d" "snd ?before"] watch_step(1)[OF Cons.prems]
    by (simp add: monitor_events_Cons[of i _ ev evs])
qed simp

text \<open>Every watched class has a state in the server, the one of its machine.\<close>

abbreviation watch_id :: "watch \<Rightarrow> string" where
  "watch_id w \<equiv> cls_id (fsm_config (w_fsm w))"

definition agrees :: "daemon \<Rightarrow> watch \<Rightarrow> bool" where
  "agrees d w \<longleftrightarrow> map_option fst (cached (fst (d_world d)) (watch_id w)) = Some (fsm_state (w_fsm w))"

definition daemon_inv :: "env \<Rightarrow> nat \<Rightarrow> nat \<Rightarrow> daemon \<Rightarrow> bool" where
  "daemon_inv env bits fuel d \<longleftrightarrow>
     distinct (map watch_id (d_watches d)) \<and>
     (\<forall>w \<in> set (d_watches d).
        fsm_callbacks (w_fsm w) = class_callbacks env bits fuel (d_classes d) (fsm_config (w_fsm w)) \<and>
        agrees d w)"

lemma agrees_line:
  assumes "daemon_inv env bits fuel d" and "i < length (d_watches d)"
    and "j < length (d_watches d)"
  shows "agrees (daemon_step env (WpaLine i raw) d) (d_watches (daemon_step env (WpaLine i raw) d) ! j)"
proof -
  let ?w = "d_watches d ! i"
  let ?ev = "parseEvent raw (w_iface ?w)"
  let ?next = "nextState (fsm_state (w_fsm ?w)) ?ev (rssi_cfg (fsm_config (w_fsm ?w)))"
  obtain s h where world: "d_world d = (s, h)"
    by (cases "d_world d")
  have callbacks: "fsm_callbacks (w_fsm ?w) =
      class_callbacks env bits fuel (d_classes d) (fsm_config (w_fsm ?w))"
    and old: "agrees d ?w" "agrees d (d_watches d ! j)"
    and ids: "watch_id (d_watches d ! j) = watch_id ?w \<longleftrightarrow> j = i"
    using assms nth_eq_iff_index_eq[of "map watch_id (d_watches d)" j i]
    by (simp_all add: daemon_inv_def)
  have "map_option fst (cached (fst (snd (onWpaEvent ?ev (w_fsm ?w, d_world d)))) c) =
      (if c = watch_id ?w \<and> ?next \<noteq> fsm_state (w_fsm ?w) \<and> cached s c \<noteq> None then Some ?next
       else map_option fst (cached s c))" for c
    by (simp only: onWpaEvent_world callbacks world fst_conv snd_conv cached_transition_actions)
  then show ?thesis
    using old ids assms(2,3)
    by (auto simp: agrees_def daemon_step_line Let_def onWpaEvent_machine world nth_list_update)
qed

lemma daemon_inv_step:
  assumes "daemon_inv env bits fuel d"
  shows "daemon_inv env bits fuel (daemon_step env ev d)"
proof (cases ev)
  case (WpaLine i raw)
  show ?thesis
  proof (cases "i < length (d_watches d)")
    case True
    have frame: "fsm_config (w_fsm (d_watches (daemon_step env (WpaLine i raw) d) ! j)) =
        fsm_config (w_fsm (d_watches d ! j)) \<and>
      fsm_callbacks (w_fsm (d_watches (daemon_step env (WpaLine i raw) d) ! j)) =
        fsm_callbacks (w_fsm (d_watches d ! j))" if "j < length (d_watches d)" for j
      using that by (simp add: watch_step(2))
    then have "map watch_id (d_watches (daemon_step env (WpaLine i raw) d)) = map watch_id (d_watches d)"
      by (auto intro: nth_equalityI)
    moreover have "fsm_callbacks (w_fsm (d_watches d ! j)) =
        class_callbacks env bits fuel (d_classes d) (fsm_config (w_fsm (d_watches d ! j)))"
      if "j < length (d_watches d)" for j
      using assms that by (simp add: daemon_inv_def)
    ultimately show ?thesis
      using assms agrees_line[OF assms True] frame
      by (auto simp: WpaLine daemon_inv_def in_set_conv_nth)
  qed (use assms WpaLine in \<open>simp add: daemon_step_def\<close>)
next
  case (ClientReady fd)
  then show ?thesis
    using assms cached_serve[of env "Readable fd" "fst (d_world d)" "snd (d_world d)"]
    by (simp add: daemon_step_def daemon_inv_def agrees_def)
next
  case (ClientGone fd)
  then show ?thesis
    using assms cached_serve[of env "HungUp fd" "fst (d_world d)" "snd (d_world d)"]
    by (simp add: daemon_step_def daemon_inv_def agrees_def)
qed

interpretation daemon_runs: event_machine "daemon_step env" "\<lambda>ev. True" "daemon_inv env bits fuel"
  by unfold_locales (rule daemon_inv_step)

text \<open>The daemon of a valid configuration has a monitor for every class.\<close>

lemma valid_watches:
  "valid_config classes \<Longrightarrow>
     make_watches env bits fuel classes = map (make_watch env bits fuel classes) classes"
  by (auto simp: make_watches_def valid_config_def valid_class_def list_all_iff filter_id_conv)

lemma new_daemon_inv: "valid_config classes \<Longrightarrow> daemon_inv env bits fuel (new_daemon env bits fuel classes h)"
  by (auto simp: daemon_inv_def new_daemon_def valid_watches make_watch_def comp_def agrees_def
      cached_new_server valid_config_def keys_distinct_def)

lemma run_daemon_inv:
  "valid_config classes \<Longrightarrow>
     daemon_inv env bits fuel (fold (daemon_step env) evs (new_daemon env bits fuel classes h))"
  by (rule daemon_runs.run_inv) (simp_all add: new_daemon_inv list_all_iff)

lemma fold_daemon_step_keeps [simp]:
  "length (d_watches (fold (daemon_step env) evs d)) = length (d_watches d)"
  "d_classes (fold (daemon_step env) evs d) = d_classes d"
  by (induction evs arbitrary: d) simp_all

lemma queryCurrentState_cached:
  "queryCurrentState s c = (case cached s c of None \<Rightarrow> Idle | Some x \<Rightarrow> fst x)"
  by (simp add: queryCurrentState_def cached_def split: option.split)

subsection \<open>Properties\<close>

text \<open>C1: with a valid configuration, after any interleaving of supplicant lines of all classes,
  client requests and hang-ups, the state that the server reports for a class is the state of
  that class's machine, which has seen exactly the lines of its own monitor, whatever the
  other monitors, the clients and the kernel did meanwhile.\<close>

theorem daemon_reports_machine_state:
  assumes "valid_config classes" and "i < length classes"
  shows "let d = fold (daemon_step env) evs (new_daemon env bits fuel classes h);
             cls = classes ! i;
             own = monitor_events i (hd (interfaces cls)) evs
         in queryCurrentState (fst (d_world d)) (cls_id cls) = fsm_state (fst (fsm_run cls own)) \<and>
            fsm_state (w_fsm (d_watches d ! i)) = fsm_state (fst (fsm_run cls own))"
proof -
  define d where "d = fold (daemon_step env) evs (new_daemon env bits fuel classes h)"
  define cls where "cls = classes ! i"
  define own where "own = monitor_events i (hd (interfaces cls)) evs"
  have watches: "d_watches (new_daemon env bits fuel classes h) =
      map (make_watch env bits fuel classes) classes"
    by (simp add: new_daemon_def valid_watches assms(1))
  then have i: "i < length (d_watches d)"
    using assms(2) by (simp add: d_def)
  have "w_fsm (d_watches d ! i) =
      fst (fold onWpaEvent own (new_fsm cls (class_callbacks env bits fuel classes cls), d_world d))"
    unfolding d_def using assms(2)
    by (subst watch_run[where w = "d_world d"])
      (simp_all add: watches make_watch_def own_def cls_def d_def)
  then have state: "fsm_state (w_fsm (d_watches d ! i)) = fsm_state (fst (fsm_run cls own))"
    and "fsm_config (w_fsm (d_watches d ! i)) = cls"
    by (simp_all add: log_simulation)
  moreover have "agrees d (d_watches d ! i)"
    using run_daemon_inv[OF assms(1)] i by (simp add: d_def daemon_inv_def)
  ultimately have "queryCurrentState (fst (d_world d)) (cls_id cls) = fsm_state (fst (fsm_run cls own))"
    by (auto simp: agrees_def queryCurrentState_cached)
  with state show ?thesis
    by (simp add: Let_def d_def cls_def own_def)
qed

theorem daemon_reports_machine_state_witness:
  "queryCurrentState (fst (d_world (fold (daemon_step (\<lambda>h c. reply (-1) EPIPE))
     [WpaLine 0 ''<3>CTRL-EVENT-CONNECTED - up'', ClientReady 9, WpaLine 1 ''CTRL-EVENT-DISCONNECTED '']
     (new_daemon (\<lambda>h c. reply (-1) EPIPE) 32 1 shipped_classes [])))) (cls_id (shipped_classes ! 0)) = PathUp"
proof -
  have "0 < length shipped_classes"
    by (simp add: shipped_classes_def)
  from daemon_reports_machine_state[OF shipped_valid this, where env = "\<lambda>h c. reply (-1) EPIPE" and bits = 32 and
      fuel = 1 and h = "[]" and evs = "[WpaLine 0 ''<3>CTRL-EVENT-CONNECTED - up'', ClientReady 9,
        WpaLine 1 ''CTRL-EVENT-DISCONNECTED '']"]
  show ?thesis
    by (simp add: Let_def fsm_run_def onWpaEvent_state nextState_def isDownState_def parseEvent_def
        stripPriority_def wpa_event_names shipped_classes_def)
qed

text \<open>The calls that one event adds.\<close>

definition new_calls :: "env \<Rightarrow> daemon_event \<Rightarrow> daemon \<Rightarrow> call list" where
  "new_calls env ev d = drop (length (snd (d_world d))) (snd (d_world (daemon_step env ev d)))"

definition connected_line :: "string \<Rightarrow> bool" where
  "connected_line raw \<longleftrightarrow> prefix WPA_EVENT_CONNECTED (stripPriority raw)"

lemma connected_line_event:
  "connected_line raw \<Longrightarrow>
     parseEvent raw iface =
       \<lparr>ev_type = Connected, ev_raw = raw, ev_iface = iface, ev_rssi = 0, ev_avgRssi = 0\<rparr>"
  by (simp add: connected_line_def parseEvent_def)

lemma calls_on_state_changed:
  "takes_all env \<Longrightarrow>
     calls (on_state_changed env cls to i r s) h =
       map (\<lambda>e. msg_call (ent_fd e) (path_event (cls_id cls) to i r))
         (filter (\<lambda>e. ent_classId e = cls_id cls) (registry s))"
  by (simp add: on_state_changed_def broadcastPathEvent_def run_simps extends_rules
      send_to_class_takes_all Let_def)

lemma on_path_up_route:
  assumes "outcome (queryGatewayForIface env bits iface) h = gw" and "gw \<noteq> 0"
    and "outcome (addDefaultRoute env iface gw table) (h @ [File (ReadFile ''/proc/net/route'')]) = ok"
  shows "prefix [(RTM_NEWROUTE, {NLM_F_REQUEST, NLM_F_ACK, NLM_F_CREATE, NLM_F_REPLACE},
      [RTA_GATEWAY gw,
       RTA_OIF (word_of_int (rc (env (h @ [File (ReadFile ''/proc/net/route'')]) (Nl (IfNameToIndex iface))))),
       RTA_TABLE table])]
    (view nl_sent (calls (on_path_up env bits fuel classes cls iface table) h))"
proof -
  have query: "calls (queryGatewayForIface env bits iface) h = [File (ReadFile ''/proc/net/route'')]"
    by (simp add: queryGatewayForIface_def run_simps)
  have "view nl_sent (calls (addDefaultRoute env iface gw table)
      (h @ [File (ReadFile ''/proc/net/route'')])) =
    [(RTM_NEWROUTE, {NLM_F_REQUEST, NLM_F_ACK, NLM_F_CREATE, NLM_F_REPLACE},
      [RTA_GATEWAY gw,
       RTA_OIF (word_of_int (rc (env (h @ [File (ReadFile ''/proc/net/route'')]) (Nl (IfNameToIndex iface))))),
       RTA_TABLE table])]"
    using assms(2,3) by (auto simp: addDefaultRoute_def sendRouteMsg_sent run_simps extends_rules
        split: if_splits)
  then show ?thesis
    using assms(1,2) by (simp add: on_path_up_def run_simps extends_rules query)
qed

lemma watch_of_class:
  assumes "valid_config classes" and "i < length classes"
    and "d = fold (daemon_step env) evs (new_daemon env bits fuel classes h)"
  shows "i < length (d_watches d)"
    and "w_iface (d_watches d ! i) = hd (interfaces (classes ! i))"
    and "fsm_config (w_fsm (d_watches d ! i)) = classes ! i"
    and "fsm_callbacks (w_fsm (d_watches d ! i)) = class_callbacks env bits fuel classes (classes ! i)"
    and "queryCurrentState (fst (d_world d)) (cls_id (classes ! i)) = fsm_state (w_fsm (d_watches d ! i))"
proof -
  let ?new = "new_daemon env bits fuel classes h"
  have watches: "d_watches ?new = map (make_watch env bits fuel classes) classes"
    by (simp add: new_daemon_def valid_watches assms(1))
  then show i: "i < length (d_watches d)"
    using assms(2) by (simp add: assms(3))
  have iface: "w_iface (d_watches (fold (daemon_step env) evs d0) ! i) = w_iface (d_watches d0 ! i)"
    if "i < length (d_watches d0)" for d0
    using that by (induction evs arbitrary: d0) (simp_all add: watch_step(1))
  show "w_iface (d_watches d ! i) = hd (interfaces (classes ! i))"
    using iface[of ?new] assms(2) by (simp add: assms(3) watches make_watch_def)
  have fsm: "w_fsm (d_watches d ! i) = fst (fold onWpaEvent
      (monitor_events i (w_iface (d_watches ?new ! i)) evs) (w_fsm (d_watches ?new ! i), d_world d))"
    unfolding assms(3) by (rule watch_run) (simp add: watches assms(2))
  show config: "fsm_config (w_fsm (d_watches d ! i)) = classes ! i"
    using assms(2) by (simp add: fsm watches make_watch_def)
  show "fsm_callbacks (w_fsm (d_watches d ! i)) = class_callbacks env bits fuel classes (classes ! i)"
    using assms(2) by (simp add: fsm watches make_watch_def)
  have "agrees d (d_watches d ! i)"
    using run_daemon_inv[OF assms(1)] i by (simp add: assms(3) daemon_inv_def)
  then show "queryCurrentState (fst (d_world d)) (cls_id (classes ! i)) = fsm_state (w_fsm (d_watches d ! i))"
    by (auto simp: agrees_def config queryCurrentState_cached)
qed

text \<open>C2: the connected line of a supplicant brings its path up end to end. In any reachable
  state where the path is down, with a warning threshold that the signal level 0 of such a
  line reaches and a gateway known for the class's first interface, the line makes the daemon
  first install the default route through that gateway in the table of the class and then
  send the new state to exactly the consumers of the class; the server reports the path up.\<close>

theorem connected_line_installs_route:
  assumes "valid_config classes" and "i < length classes"
    and "d = fold (daemon_step env) evs (new_daemon env bits fuel classes h)"
    and "cls = classes ! i" and "iface = hd (interfaces cls)"
    and "isDownState (queryCurrentState (fst (d_world d)) (cls_id cls))"
    and "warn (rssi_cfg cls) \<le> 0" and "connected_line raw" and "takes_all env"
    and "outcome (queryGatewayForIface env bits iface) (snd (d_world d)) = gw" and "gw \<noteq> 0"
    and "outcome (addDefaultRoute env iface gw (routingTable cls))
           (snd (d_world d) @ [File (ReadFile ''/proc/net/route'')]) = ok"
  shows "\<exists>up oif.
    new_calls env (WpaLine i raw) d =
      up @ map (\<lambda>e. msg_call (ent_fd e) (path_event (cls_id cls) PathUp iface 0))
             (filter (\<lambda>e. ent_classId e = cls_id cls) (registry (fst (d_world d)))) \<and>
    prefix [(RTM_NEWROUTE, {NLM_F_REQUEST, NLM_F_ACK, NLM_F_CREATE, NLM_F_REPLACE},
             [RTA_GATEWAY gw, RTA_OIF oif, RTA_TABLE (routingTable cls)])] (view nl_sent up) \<and>
    queryCurrentState (fst (d_world (daemon_step env (WpaLine i raw) d))) (cls_id cls) = PathUp"
proof -
  let ?w = "d_watches d ! i"
  let ?up = "calls (on_path_up env bits fuel classes cls iface (routingTable cls)) (snd (d_world d))"
  let ?out = "map (\<lambda>e. msg_call (ent_fd e) (path_event (cls_id cls) PathUp iface 0))
    (filter (\<lambda>e. ent_classId e = cls_id cls) (registry (fst (d_world d))))"
  note w = watch_of_class[OF assms(1-3), folded assms(4)]
  obtain s h0 where world: "d_world d = (s, h0)"
    by (cases "d_world d")
  have down: "isDownState (fsm_state (w_fsm ?w))"
    using assms(6) w(5) by simp
  then have next_up: "nextState (fsm_state (w_fsm ?w)) (parseEvent raw (w_iface ?w))
      (rssi_cfg (fsm_config (w_fsm ?w))) = PathUp"
    using assms(7,8) by (simp add: connected_line_event nextState_def w(3))
  have "fsm_state (w_fsm ?w) \<noteq> PathUp"
    using down by (auto simp: isDownState_def)
  then have actions: "transition_actions cls (fsm_state (w_fsm ?w)) (activeIface (w_fsm ?w)) PathUp iface 0 =
      [RouteUp iface (routingTable cls), StateChanged (fsm_state (w_fsm ?w)) PathUp iface 0]"
    by (simp add: transition_actions_def)
  have "snd (d_world (daemon_step env (WpaLine i raw) d)) = h0 @ ?up @ ?out"
    using actions w(2,3,4) next_up assms(8,9)
    by (simp add: daemon_step_line[OF w(1)] Let_def onWpaEvent_world connected_line_event assms(5)
        world calls_on_state_changed del: act.simps)
  then have calls: "new_calls env (WpaLine i raw) d = ?up @ ?out"
    by (simp add: new_calls_def world)
  have d': "daemon_step env (WpaLine i raw) d =
      fold (daemon_step env) (evs @ [WpaLine i raw]) (new_daemon env bits fuel classes h)"
    by (simp add: assms(3))
  have "queryCurrentState (fst (d_world (daemon_step env (WpaLine i raw) d))) (cls_id cls) =
      fsm_state (w_fsm (d_watches (daemon_step env (WpaLine i raw) d) ! i))"
    using watch_of_class(5)[OF assms(1,2) d'] by (simp add: assms(4))
  also have "\<dots> = PathUp"
    using next_up w(1) by (simp add: watch_step(2) onWpaEvent_state)
  finally show ?thesis
    using calls on_path_up_route[OF assms(10-12), of fuel classes cls] by blast
qed

text \<open>A kernel that takes everything and whose routing table has a gateway for \<^verbatim>\<open>eth0.200\<close>.\<close>

definition routed_env :: env where
  "routed_env h c =
     (case c of
        File (ReadFile p) \<Rightarrow>
          (reply 1 EAGAIN)\<lparr>content := ''Iface'' @ CHR 0x0A # ''eth0.200 00000000 0100A8C0 0003''\<rparr>
      | Sock (SockSend fd p) \<Rightarrow> reply (int (length p)) EAGAIN
      | _ \<Rightarrow> reply 1 EAGAIN)"

lemma routed_gateway: "outcome (queryGatewayForIface routed_env 32 ''eth0.200'') h = htonl 0x0100A8C0"
proof -
  have line: "words_of ''eth0.200 00000000 0100A8C0 0003'' =
      [''eth0.200'', default_destination, ''0100A8C0'', ''0003'']"
    by code_simp
  have number: "stoul 32 ''0100A8C0'' 16 = Inr 0x0100A8C0"
    by (simp add: stoul_def sign_split_def base_split_def has_hex_prefix_def is_digit_def
        digit_val_def is_space_def Let_def)
  show ?thesis
    by (simp add: queryGatewayForIface_def routed_env_def run_simps gateway_of_line_def line number
        del: words_of.simps)
qed

lemma routed_gateway_nonzero: "htonl 0x0100A8C0 \<noteq> 0"
proof
  assume "htonl 0x0100A8C0 = 0"
  then have "u32_bytes 0 = rev (u32_bytes 0x0100A8C0)"
    using htonl_reverses[of "0x0100A8C0"] by simp
  moreover have four: "(4 :: nat) = Suc (Suc (Suc (Suc 0)))"
    by simp
  have "u32_bytes 0 \<noteq> rev (u32_bytes 0x0100A8C0)"
    unfolding u32_bytes_def four le_bytes.simps by simp
  ultimately show False
    by simp
qed

theorem connected_line_installs_route_witness:
  "queryCurrentState (fst (d_world (daemon_step routed_env (WpaLine 1 ''CTRL-EVENT-CONNECTED '')
     (new_daemon routed_env 32 1 shipped_classes [])))) ''lte_b2c'' = PathUp"
proof -
  let ?d = "new_daemon routed_env 32 1 shipped_classes []"
  have fresh: "?d = fold (daemon_step routed_env) [] ?d"
    by simp
  have one: "1 < length shipped_classes"
    by (simp add: shipped_classes_def)
  have cls: "cls_id (shipped_classes ! 1) = ''lte_b2c''" "interfaces (shipped_classes ! 1) = [''eth0.200'']"
    "rssi_cfg (shipped_classes ! 1) = default_rssi"
    by (simp_all add: shipped_classes_def)
  have down: "isDownState (queryCurrentState (fst (d_world ?d)) (cls_id (shipped_classes ! 1)))"
    using nth_mem[OF one]
    by (simp add: new_daemon_def queryCurrentState_cached cached_new_server isDownState_def)
  have weak: "warn (rssi_cfg (shipped_classes ! 1)) \<le> 0"
    unfolding cls by (simp add: default_rssi_def)
  have line: "connected_line ''CTRL-EVENT-CONNECTED ''"
    by (simp add: connected_line_def stripPriority_def WPA_EVENT_CONNECTED_def)
  have takes: "takes_all routed_env"
    by (simp add: takes_all_def routed_env_def)
  have gateway: "outcome (queryGatewayForIface routed_env 32 (hd (interfaces (shipped_classes ! 1))))
      (snd (d_world ?d)) = htonl 0x0100A8C0"
    unfolding cls by (simp add: routed_gateway)
  have route: "outcome (addDefaultRoute routed_env iface gw t) h = ok" for iface gw t h
    by (simp add: addDefaultRoute_def sendRouteMsg_def nl_exchange_def nl_talk_def nl_answer_def
        run_simps extends_rules routed_env_def)
  from connected_line_installs_route[OF shipped_valid one fresh refl refl down weak line takes
      gateway routed_gateway_nonzero route]
  show ?thesis
    unfolding cls by blast
qed

end
