(* ===== verification/Daemon_Run.thy ===== *)
theory Daemon_Run
  imports Daemon
begin

text \<open>
  The course of \<^verbatim>\<open>main\<close> in \<^verbatim>\<open>main.cpp\<close>: the phases of the start with their clean-up on failure,
  the main loop that waits for signals while the other threads work, and the shutdown.
\<close>

subsection \<open>Start\<close>

text \<open>A phase after which a failure takes down what the manager set up so far.\<close>

definition or_cleanup ::
  "env \<Rightarrow> PathClassConfig list \<Rightarrow> RoutingError status os \<Rightarrow> RoutingError status os" where
  "or_cleanup env classes phase = do {
     r \<leftarrow> phase;
     (case r of
        Inl e \<Rightarrow> do { _ \<leftarrow> cleanup env classes; return (Inl e) }
      | Inr _ \<Rightarrow> return ok) }"

definition setup_network ::
  "env \<Rightarrow> xt_sizes \<Rightarrow> nat \<Rightarrow> PathClassConfig list \<Rightarrow> RoutingError status os" where
  "setup_network env sz fuel classes =
     on_ok (createCgroupHierarchy env classes)
     (on_ok (or_cleanup env classes (addIptablesMarkRules env sz classes))
     (on_ok (or_cleanup env classes (addIpRules env classes))
     (on_ok (or_cleanup env classes (addDropRules env sz classes))
       (or_cleanup env classes (addEndpoints env fuel classes)))))"

datatype exit_code = EXIT_SUCCESS | EXIT_FAILURE | Terminates

text \<open>The server's start, after the monitors' threads, which may already have handled \<open>early\<close>.\<close>

definition start_server :: "env \<Rightarrow> daemon_event list \<Rightarrow> daemon \<Rightarrow> (ApiError status \<times> daemon)" where
  "start_server env early d =
     (let d = fold (daemon_step env) early d;
          ((r, s), h) = run_state (start env (fst (d_world d))) (snd (d_world d))
      in (r, d\<lparr>d_world := (s, h)\<rparr>))"

subsection \<open>The main loop\<close>

datatype reload_note = Reloaded nat | CountChanged nat nat | ReloadFailed ConfigError

definition reload_notes ::
  "nat \<Rightarrow> ConfigError + PathClassConfig list \<Rightarrow> reload_note list" where
  "reload_notes old newCfg =
     (case newCfg of
        Inl e \<Rightarrow> [ReloadFailed e]
      | Inr newClasses \<Rightarrow>
          Reloaded (length newClasses) #
          (if length newClasses \<noteq> old then [CountChanged old (length newClasses)] else []))"

text \<open>
  What happens after the server's start: a step of another thread; the return of \<^verbatim>\<open>pause\<close> after the
  signals \<open>sigs\<close>, with the signals \<open>busy\<close> that come from then on and before the next test of the
  shutdown flag; or signals that are handled and do not end a \<^verbatim>\<open>pause\<close>, because they come between
  the test and the call. The main thread tests the flag before the first \<^verbatim>\<open>pause\<close> and after each; \<open>left\<close>
  says that it found it set. The other threads go on until it joins them.
\<close>

datatype main_event = Thread daemon_event | Wake "signal list" "signal list" | Missed "signal list"

fun main_loop ::
  "env \<Rightarrow> 'j json_api \<Rightarrow> (string \<Rightarrow> 'j option) \<Rightarrow> nat \<Rightarrow> string \<Rightarrow> main_event list \<Rightarrow> bool \<Rightarrow> flags \<Rightarrow> daemon \<Rightarrow>
     bool \<times> flags \<times> daemon \<times> reload_note list" where
  "main_loop env J json_parse bits path [] left f d = (left, f, d, [])"
| "main_loop env J json_parse bits path (Thread ev # later) left f d =
     main_loop env J json_parse bits path later left f (daemon_step env ev d)"
| "main_loop env J json_parse bits path (Missed sigs # later) left f d =
     main_loop env J json_parse bits path later left (fold handleSignal sigs f) d"
| "main_loop env J json_parse bits path (Wake sigs busy # later) left f d =
     (let f' = fold handleSignal sigs f
      in if left then
           main_loop env J json_parse bits path later left (fold handleSignal busy f') d
         else if gReloadConfig f' then
           let (newCfg, h) = run_state (loadFromFile env J json_parse bits path) (snd (d_world d));
               f'' = fold handleSignal busy (f'\<lparr>gReloadConfig := False\<rparr>);
               (left', f3, d', notes) =
                 main_loop env J json_parse bits path later (gShutdown f'') f''
                   (d\<lparr>d_world := (fst (d_world d), h)\<rparr>)
           in (left', f3, d', reload_notes (length (d_classes d)) newCfg @ notes)
         else
           let f'' = fold handleSignal busy f'
           in main_loop env J json_parse bits path later (gShutdown f'') f'' d)"

subsection \<open>Shutdown\<close>

text \<open>After the threads are joined; \<open>fuel\<close> is for the answers to the MPTCP requests.\<close>

definition shutdown ::
  "env \<Rightarrow> nat \<Rightarrow> PathClassConfig list \<Rightarrow> ConsumerApiServer \<Rightarrow> ConsumerApiServer os" where
  "shutdown env fuel classes s = do {
     s' \<leftarrow> stop env s;
     _ \<leftarrow> removeEndpoints env fuel;
     _ \<leftarrow> cleanup env classes;
     return s' }"

text \<open>
  From the end of the network setup to the end of the program: \<open>arrived\<close> are the signals since the
  handlers were installed, before the configuration is loaded, up to the first test of the flag,
  \<open>early\<close> the monitors' events before the server's start, \<open>evs\<close> what happens after it. \<open>None\<close> is a
  daemon that still runs. When the server does not start \<^verbatim>\<open>main\<close> returns without joining the
  monitors' threads, which terminates the process if there are any (theory Threads).
\<close>

definition run_daemon ::
  "env \<Rightarrow> 'j json_api \<Rightarrow> (string \<Rightarrow> 'j option) \<Rightarrow> nat \<Rightarrow> nat \<Rightarrow> string \<Rightarrow> PathClassConfig list \<Rightarrow>
     signal list \<Rightarrow> daemon_event list \<Rightarrow> main_event list \<Rightarrow> call list \<Rightarrow>
     exit_code option \<times> call list" where
  "run_daemon env J json_parse bits fuel path classes arrived early evs h =
     (let (started, d) = start_server env early (new_daemon env bits fuel classes h)
      in case started of
           Inl e \<Rightarrow>
             (Some (if d_watches d = [] then EXIT_FAILURE else Terminates),
              snd (run_state (cleanup env classes) (snd (d_world d))))
         | Inr _ \<Rightarrow>
             let f0 = fold handleSignal arrived \<lparr>gShutdown = False, gReloadConfig = False\<rparr>;
                 (left, f, d', notes) =
                   main_loop env J json_parse bits path evs (gShutdown f0) f0 d
             in if left then
                  (Some EXIT_SUCCESS,
                   snd (run_state (shutdown env fuel classes (fst (d_world d'))) (snd (d_world d'))))
                else (None, snd (d_world d')))"

definition main_daemon ::
  "env \<Rightarrow> 'j json_api \<Rightarrow> (string \<Rightarrow> 'j option) \<Rightarrow> xt_sizes \<Rightarrow> nat \<Rightarrow> nat \<Rightarrow> string list \<Rightarrow>
     signal list \<Rightarrow> daemon_event list \<Rightarrow> main_event list \<Rightarrow> exit_code option os" where
  "main_daemon env J json_parse sz bits fuel argv arrived early evs = do {
     configResult \<leftarrow> loadFromFile env J json_parse bits (parseArgs argv);
     (case configResult of
        Inl e \<Rightarrow> return (Some EXIT_FAILURE)
      | Inr classes \<Rightarrow> do {
          r \<leftarrow> setup_network env sz fuel classes;
          (case r of
             Inl e \<Rightarrow> return (Some EXIT_FAILURE)
           | Inr _ \<Rightarrow>
               State (run_daemon env J json_parse bits fuel (parseArgs argv) classes
                 arrived early evs)) }) }"

subsection \<open>Lemmas\<close>

lemma extends_or_cleanup [extends_rules]: "extends p \<Longrightarrow> extends (or_cleanup env classes p)"
  unfolding or_cleanup_def by (intro extends_rules)

lemma extends_setup_network [extends_rules]: "extends (setup_network env sz fuel classes)"
  unfolding setup_network_def by (intro extends_rules)

lemma extends_loadFromFile [extends_rules]: "extends (loadFromFile env J json_parse bits path)"
  unfolding loadFromFile_def by (intro extends_rules)

lemma or_cleanup_run:
  assumes "extends p"
  shows "outcome (or_cleanup env classes p) h = outcome p h"
    and "calls (or_cleanup env classes p) h = calls p h @
      (case outcome p h of Inl e \<Rightarrow> calls (cleanup env classes) (h @ calls p h) | Inr _ \<Rightarrow> [])"
  using assms by (auto simp: or_cleanup_def run_simps extends_rules split: sum.split)

text \<open>What does not touch the kernel's rules.\<close>

lemmas cgroup_defs = createCgroupHierarchy_def setupOneClass_def write_classid_def remove_cgroup_def
lemmas chain_defs = addIptablesMarkRules_def addDropRules_def install_chain_def with_table_def
  prepare_chain_def ensure_jump_def iptc_def add_mark_def appendDrop_def
lemmas unchain_defs = removeDropRules_def removeIptablesMarkRules_def remove_from_table_def
  remove_chain_def

lemma silent_cgroups [silent_rules]:
  "silent table_step (createCgroupHierarchy env classes)" "silent table_step (remove_cgroup env cls)"
  unfolding cgroup_defs Let_def by (intro silent_rules; simp)+

lemma silent_chains [silent_rules]:
  "silent table_step (addIptablesMarkRules env sz classes)"
  "silent table_step (addDropRules env sz classes)"
  unfolding chain_defs by (intro silent_rules; simp)+

lemma silent_unchain [silent_rules]:
  "silent table_step (removeDropRules env)" "silent table_step (removeIptablesMarkRules env)"
  unfolding unchain_defs by (intro silent_rules; simp)+

lemma silent_recv_replies [silent_rules]: "silent table_step (recv_replies env fuel s p cb d)"
proof (induction fuel arbitrary: d)
  case (Suc fuel)
  show ?case
    unfolding recv_replies.simps Let_def by (intro silent_rules Suc; simp)
qed (simp add: silent_return)

lemma silent_endpoints [silent_rules]:
  "silent table_step (addEndpoints env fuel classes)" "silent table_step (removeEndpoints env fuel)"
  unfolding addEndpoints_def removeEndpoints_def resolveGenlFamily_def flush_endpoints_def
    add_class_endpoints_def add_endpoint_def ifaceAddr4_def sendEndpointCmd_def send_endpoint_def
    with_genl_def
  by (intro silent_rules; simp add: genl_msg_def)+

text \<open>After a clean-up the table has none of the classes' rules, whatever came before.\<close>

lemma cleanup_rules:
  assumes "rule_kernel R env"
  shows "fold table_step (calls (cleanup env classes) h) T = T - class_rule ` set classes"
  unfolding cleanup_def
  by (simp add: run_simps extends_rules delete_rule_table[OF assms] silentD(2)[OF silent_unchain(1)]
      silentD(2)[OF silent_unchain(2)] silentD(2)[OF silent_for_do[OF silent_cgroups(2)]])

lemma rules_after_cleanup:
  "rule_kernel R env \<Longrightarrow>
     rules_after R (snd (run_state (cleanup env classes) h)) = rules_after R h - class_rule ` set classes"
  by (simp add: run_as_calls extends_rules cleanup_rules)

text \<open>Phases that end with a clean-up when they fail.\<close>

definition cleans_up :: "env \<Rightarrow> PathClassConfig list \<Rightarrow> RoutingError status os \<Rightarrow> bool" where
  "cleans_up env classes p \<longleftrightarrow>
     extends p \<and>
     (\<forall>h e. outcome p h = Inl e \<longrightarrow>
        (\<exists>pre. calls p h = pre @ calls (cleanup env classes) (h @ pre)))"

lemma cleans_up_or_cleanup: "extends p \<Longrightarrow> cleans_up env classes (or_cleanup env classes p)"
  by (auto simp: cleans_up_def extends_rules or_cleanup_run)

lemma cleans_up_on_ok:
  assumes "cleans_up env classes p" and "cleans_up env classes q"
  shows "cleans_up env classes (on_ok p q)"
  unfolding cleans_up_def
proof (intro conjI allI impI)
  have ext: "extends p" "extends q"
    using assms by (simp_all add: cleans_up_def)
  then show "extends (on_ok p q)"
    by (rule extends_on_ok)
  fix h e
  assume failed: "outcome (on_ok p q) h = Inl e"
  show "\<exists>pre. calls (on_ok p q) h = pre @ calls (cleanup env classes) (h @ pre)"
  proof (cases "outcome p h")
    case (Inl e')
    then show ?thesis
      using assms(1) ext by (simp add: cleans_up_def run_simps)
  next
    case (Inr u)
    then have "outcome q (h @ calls p h) = Inl e"
      using failed ext by (simp add: run_simps)
    then obtain pre where "calls q (h @ calls p h) =
        pre @ calls (cleanup env classes) ((h @ calls p h) @ pre)"
      using assms(2) unfolding cleans_up_def by blast
    then have "calls (on_ok p q) h = (calls p h @ pre) @ calls (cleanup env classes) (h @ calls p h @ pre)"
      using Inr ext by (simp add: run_simps)
    then show ?thesis by blast
  qed
qed

lemma setup_failure:
  assumes "outcome (setup_network env sz fuel classes) h = Inl e"
  shows "outcome (createCgroupHierarchy env classes) h = Inl e \<and>
      calls (setup_network env sz fuel classes) h = calls (createCgroupHierarchy env classes) h \<or>
    outcome (createCgroupHierarchy env classes) h = ok \<and>
      (\<exists>pre. calls (setup_network env sz fuel classes) h =
         pre @ calls (cleanup env classes) (h @ pre))"
proof -
  let ?rest = "on_ok (or_cleanup env classes (addIptablesMarkRules env sz classes))
     (on_ok (or_cleanup env classes (addIpRules env classes))
     (on_ok (or_cleanup env classes (addDropRules env sz classes))
       (or_cleanup env classes (addEndpoints env fuel classes))))"
  let ?first = "createCgroupHierarchy env classes"
  have rest: "cleans_up env classes ?rest"
    by (intro cleans_up_on_ok cleans_up_or_cleanup extends_rules)
  show ?thesis
  proof (cases "outcome ?first h")
    case (Inl e')
    then show ?thesis
      using assms by (simp add: setup_network_def run_simps extends_rules)
  next
    case (Inr u)
    then have "outcome ?rest (h @ calls ?first h) = Inl e"
      using assms by (simp add: setup_network_def outcome_on_ok[OF extends_createCgroupHierarchy])
    then obtain pre where "calls ?rest (h @ calls ?first h) =
        pre @ calls (cleanup env classes) ((h @ calls ?first h) @ pre)"
      using rest unfolding cleans_up_def by blast
    then have "calls (setup_network env sz fuel classes) h =
        (calls ?first h @ pre) @ calls (cleanup env classes) (h @ calls ?first h @ pre)"
      using Inr rest
      by (simp add: setup_network_def cleans_up_def calls_on_ok[OF extends_createCgroupHierarchy])
    then show ?thesis
      using Inr by (metis old.unit.exhaust)
  qed
qed

lemma setup_failure_rules:
  assumes "rule_kernel R env" and "outcome (setup_network env sz fuel classes) h = Inl e"
  shows "if outcome (createCgroupHierarchy env classes) h = ok
    then class_rule ` set classes \<inter> rules_after R (h @ calls (setup_network env sz fuel classes) h) = {}
    else rules_after R (h @ calls (setup_network env sz fuel classes) h) = rules_after R h"
  using setup_failure[OF assms(2)]
proof
  assume "outcome (createCgroupHierarchy env classes) h = Inl e \<and>
    calls (setup_network env sz fuel classes) h = calls (createCgroupHierarchy env classes) h"
  then show ?thesis
    by (simp add: silentD(2)[OF silent_cgroups(1)])
next
  assume "outcome (createCgroupHierarchy env classes) h = ok \<and>
    (\<exists>pre. calls (setup_network env sz fuel classes) h = pre @ calls (cleanup env classes) (h @ pre))"
  then show ?thesis
    using cleanup_rules[OF assms(1)] by auto
qed

lemma setup_ok_cgroups:
  "outcome (setup_network env sz fuel classes) h = ok \<Longrightarrow>
     outcome (createCgroupHierarchy env classes) h = ok"
  by (cases "outcome (createCgroupHierarchy env classes) h")
    (simp_all add: setup_network_def outcome_on_ok extends_rules)

lemma hierarchy_ok:
  "netcls_files canon ids env \<Longrightarrow> outcome (createCgroupHierarchy env classes) h = ok"
  unfolding createCgroupHierarchy_def
  by (induction classes arbitrary: h)
    (simp_all add: for_each_Cons_outcome extends_rules setupOneClass_netcls(1) del: for_each.simps(2))

text \<open>
  A whole kernel: new cgroups, a rule table, and a firewall that works or
  that cannot be opened; the MPTCP family has the number 29 and no interface has an address.
\<close>

definition linux_env :: "bool \<Rightarrow> env" where
  "linux_env firewall h c =
     (case c of
        File x \<Rightarrow> netcls_env (\<lambda>p. p) (\<lambda>p. 0) h c
      | Ipt x \<Rightarrow> if firewall then table_env empty_table h c else reply 0 EAGAIN
      | Nl GetIfAddrs \<Rightarrow> reply 0 EAGAIN
      | Nl x \<Rightarrow> (linux_rules {} h c)\<lparr>attrs := [[(1, 29)]]\<rparr>
      | Sock x \<Rightarrow> reply 0 EAGAIN)"

lemma linux_env_rules: "rule_kernel {} (linux_env fw)"
  using rule_kernel_linux[of "{}"] by (simp add: rule_kernel_def linux_env_def Let_def)

lemma linux_env_files: "netcls_files (\<lambda>p. p) (\<lambda>p. 0) (linux_env fw)"
  using netcls_files_env[of "\<lambda>p. p" "\<lambda>p. 0"] by (simp add: netcls_files_def linux_env_def)

lemma linux_env_table: "sane_table empty_table (linux_env True)"
  using sane_table_env[of empty_table] by (simp add: sane_table_def linux_env_def)

lemma linux_env_load:
  "outcome (loadFromFile (linux_env fw) tree_api (\<lambda>_. Some (render_config shipped_classes)) 32 path) h =
     Inr shipped_classes"
  by (simp add: outcome_loadFromFile linux_env_def netcls_env_def parse_render_config shipped_valid
      shipped_rssi)

lemma linux_env_endpoints: "outcome (addEndpoints (linux_env fw) (Suc n) classes) h = ok"
proof -
  have one: "outcome (add_endpoint (linux_env fw) (Suc n) f i) h = ok" for f i h
    by (simp add: add_endpoint_def ifaceAddr4_def linux_env_def run_simps extends_rules)
  have many: "outcome (for_each (add_endpoint (linux_env fw) (Suc n) f) is) h = ok" for f "is" h
    by (induction "is" arbitrary: h)
      (simp_all add: for_each_Cons_outcome extends_rules one del: for_each.simps(2))
  have all: "outcome (for_each (add_class_endpoints (linux_env fw) (Suc n) f) cs) h = ok" for f cs h
    by (induction cs arbitrary: h)
      (simp_all add: for_each_Cons_outcome extends_rules add_class_endpoints_def many
        del: for_each.simps(2))
  have "outcome (resolveGenlFamily (linux_env fw) (Suc n)) h = Inr 29"
    by (simp add: resolveGenlFamily_def with_genl_def run_simps extends_rules recv_replies_round
        Let_def linux_env_def linux_rules_def verdict_def genl_msg_def genlFamilyParseId_def
        CTRL_ATTR_FAMILY_ID_def del: recv_replies.simps)
  then show ?thesis
    by (simp add: addEndpoints_def run_simps extends_rules all)
qed

lemma linux_env_setup: "outcome (setup_network (linux_env True) sz (Suc n) classes) h = ok"
  using add_rule_table[OF linux_env_rules] mark_install[OF linux_env_table]
    drop_install[OF linux_env_table]
  by (cases "list_ex strictIsolation classes")
    (simp_all add: setup_network_def outcome_on_ok extends_rules or_cleanup_run
      hierarchy_ok[OF linux_env_files] linux_env_endpoints addDropRules_def)

lemma linux_env_no_firewall:
  "outcome (setup_network (linux_env False) sz n classes) h = Inl IptablesError"
  by (simp add: setup_network_def outcome_on_ok extends_rules or_cleanup_run
      hierarchy_ok[OF linux_env_files] addIptablesMarkRules_def install_chain_def with_table_def
      run_simps linux_env_def)

text \<open>What does not touch the firewall.\<close>

lemma silent_on_table [silent_rules]:
  "silent on_table (createCgroupHierarchy env classes)" "silent on_table (addIpRules env classes)"
  unfolding cgroup_defs addIpRules_def add_rule_def sendNetlinkFwmarkRule_def nl_exchange_def
    nl_talk_def nl_answer_def Let_def
  by (intro silent_rules; simp)+

lemma silent_on_table_replies [silent_rules]: "silent on_table (recv_replies env fuel s p cb d)"
proof (induction fuel arbitrary: d)
  case (Suc fuel)
  show ?case
    unfolding recv_replies.simps Let_def by (intro silent_rules Suc; simp)
qed (simp add: silent_return)

lemma silent_on_table_endpoints [silent_rules]: "silent on_table (addEndpoints env fuel classes)"
  unfolding addEndpoints_def resolveGenlFamily_def add_class_endpoints_def add_endpoint_def
    ifaceAddr4_def sendEndpointCmd_def send_endpoint_def with_genl_def
  by (intro silent_rules; simp)+

lemma table_after_silent: "silent on_table p \<Longrightarrow> table_after T (h @ calls p h) = table_after T h"
  by (simp add: table_after_def silentD(2))

lemma rules_after_silent: "silent table_step p \<Longrightarrow> rules_after R (h @ calls p h) = rules_after R h"
  by (simp add: silentD(2))

lemma find_distinct_key: "distinct (map k xs) \<Longrightarrow> x \<in> set xs \<Longrightarrow> find (\<lambda>y. k y = k x) xs = Some x"
  by (induction xs) (auto simp: image_iff)

lemma chain_kept_by_drops:
  assumes "sane_table T env"
  shows "chains (table_after T (h @ calls (addDropRules env sz classes) h)) kNetserviceChain =
      chains (table_after T h) kNetserviceChain \<and>
    (kNetserviceChain \<in> set (out_targets (table_after T h)) \<longrightarrow>
     kNetserviceChain \<in> set (out_targets (table_after T (h @ calls (addDropRules env sz classes) h))))"
  using drop_install[OF assms, of classes sz h]
  by (cases "list_ex strictIsolation classes")
    (simp_all add: addDropRules_def installed_def chain_names)

text \<open>The signals of an event, and when the main loop has been left: some return of \<^verbatim>\<open>pause\<close> found a
  terminating signal, whenever since the start it came.\<close>

abbreviation ends_daemon :: "signal list \<Rightarrow> bool" where
  "ends_daemon sigs \<equiv> list_ex (\<lambda>s. s \<noteq> SIGHUP) sigs"

fun signals_of :: "main_event \<Rightarrow> signal list" where
  "signals_of (Thread ev) = []"
| "signals_of (Wake sigs busy) = sigs @ busy"
| "signals_of (Missed sigs) = sigs"

lemma fold_handleSignal:
  "gShutdown (fold handleSignal sigs f) \<longleftrightarrow> gShutdown f \<or> ends_daemon sigs"
  "gReloadConfig (fold handleSignal sigs f) \<longleftrightarrow> gReloadConfig f \<or> SIGHUP \<in> set sigs"
  by (induction sigs arbitrary: f) (auto simp: handleSignal_def)


fun left_by :: "signal list \<Rightarrow> main_event list \<Rightarrow> bool" where
  "left_by seen [] \<longleftrightarrow> False"
| "left_by seen (Wake sigs busy # evs) \<longleftrightarrow>
     ends_daemon (seen @ sigs @ busy) \<or> left_by (seen @ sigs @ busy) evs"
| "left_by seen (ev # evs) \<longleftrightarrow> left_by (seen @ signals_of ev) evs"


lemma main_loop_stays_left: "fst (main_loop env J json_parse bits path evs True f d)"
proof (induction evs arbitrary: f d)
  case (Cons ev evs)
  then show ?case
    by (cases ev) (simp_all add: Let_def)
qed simp

lemma main_loop_left:
  "gShutdown f = ends_daemon seen \<Longrightarrow>
     fst (main_loop env J json_parse bits path evs False f d) \<longleftrightarrow> left_by seen evs"
proof (induction evs arbitrary: f d seen)
  case (Cons ev evs)
  show ?case
  proof (cases ev)
    case (Wake sigs busy)
    show ?thesis
    proof (cases "ends_daemon (seen @ sigs @ busy)")
      case True
      then show ?thesis
        using Cons.prems main_loop_stays_left
        by (auto simp: Wake fold_handleSignal Let_def case_prod_beta)
    next
      case False
      then have "fst (main_loop env J json_parse bits path evs False f' d') \<longleftrightarrow>
          left_by (seen @ sigs @ busy) evs" if "\<not> gShutdown f'" for f' d'
        using Cons.IH[of f' "seen @ sigs @ busy" d'] that by simp
      then show ?thesis
        using False Cons.prems by (simp add: Wake fold_handleSignal Let_def case_prod_beta)
    qed
  next
    case (Missed sigs)
    then show ?thesis
      using Cons.IH[of "fold handleSignal sigs f" "seen @ sigs" d] Cons.prems
      by (simp add: fold_handleSignal)
  qed (use Cons in simp)
qed simp

lemma main_daemon_run:
  assumes "outcome (loadFromFile env J json_parse bits (parseArgs argv)) h = Inr classes"
    and "h1 = h @ calls (loadFromFile env J json_parse bits (parseArgs argv)) h"
    and "outcome (setup_network env sz fuel classes) h1 = ok"
    and "fst (start_server env early
           (new_daemon env bits fuel classes (h1 @ calls (setup_network env sz fuel classes) h1))) = ok"
  shows "fst (run_state (main_daemon env J json_parse sz bits fuel argv arrived early evs) h) =
    (if ends_daemon arrived \<or> left_by arrived evs then Some EXIT_SUCCESS else None)"
proof -
  let ?f = "fold handleSignal arrived \<lparr>gShutdown = False, gReloadConfig = False\<rparr>"
  have flag: "gShutdown ?f = ends_daemon arrived"
    by (simp add: fold_handleSignal)
  then have loop: "fst (main_loop env J json_parse bits (parseArgs argv) evs (gShutdown ?f) ?f d) \<longleftrightarrow>
      ends_daemon arrived \<or> left_by arrived evs" for d
    using main_loop_left[OF flag] main_loop_stays_left by (cases "gShutdown ?f") simp_all
  obtain d where "start_server env early (new_daemon env bits fuel classes
      (h1 @ calls (setup_network env sz fuel classes) h1)) = (ok, d)"
    using assms(4) by (metis prod.collapse)
  then show ?thesis
    using assms(1,3) loop[of d]
    by (auto simp: main_daemon_def run_as_calls extends_rules run_daemon_def Let_def
        split: prod.split simp flip: assms(2))
qed

subsection \<open>Properties\<close>

text \<open>C13: however the daemon ends after it has set up the cgroups, whether a later phase of the setup
  or the server's start fails or a signal stops it after any events, the kernel is left with none
  of the rules of the configured classes, those of an earlier run included, on a kernel that
  answers the requests for rules from its table; for every behaviour of everything else. When
  the cgroups cannot be set up, the rules of an earlier run stay as they were.\<close>

theorem exit_leaves_no_rules:
  assumes "rule_kernel R env"
    and "run_state (main_daemon env J json_parse sz bits fuel argv arrived early evs) h = (Some code, h')"
    and "outcome (loadFromFile env J json_parse bits (parseArgs argv)) h = Inr classes"
    and "h1 = h @ calls (loadFromFile env J json_parse bits (parseArgs argv)) h"
  shows "if outcome (createCgroupHierarchy env classes) h1 = ok
    then class_rule ` set classes \<inter> rules_after R h' = {} else rules_after R h' = rules_after R h"
proof -
  let ?load = "loadFromFile env J json_parse bits (parseArgs argv)"
  let ?net = "setup_network env sz fuel classes"
  have load: "run_state ?load h = (Inr classes, h1)"
    by (simp add: run_as_calls extends_rules assms(3,4))
  have before: "rules_after R h1 = rules_after R h"
    by (simp add: assms(4) loadFromFile_def run_simps)
  have set_up: "run_state ?net h1 = (outcome ?net h1, h1 @ calls ?net h1)"
    by (simp add: run_as_calls extends_rules)
  show ?thesis
  proof (cases "outcome ?net h1")
    case (Inl e)
    then have "h' = h1 @ calls ?net h1"
      using assms(2) load set_up by (simp add: main_daemon_def)
    with setup_failure_rules[OF assms(1) Inl] before show ?thesis
      by (auto split: if_splits)
  next
    case (Inr u)
    then have ran: "run_daemon env J json_parse bits fuel (parseArgs argv) classes arrived early evs
        (h1 @ calls ?net h1) = (Some code, h')"
      using assms(2) load set_up by (simp add: main_daemon_def)
    have "\<exists>hc. h' = snd (run_state (cleanup env classes) hc)"
      using ran
      by (auto simp: run_daemon_def shutdown_def Let_def split: prod.splits sum.splits if_splits)
        (metis snd_conv)+
    moreover have "outcome (createCgroupHierarchy env classes) h1 = ok"
      using setup_ok_cgroups Inr by simp
    ultimately show ?thesis
      by (auto simp: rules_after_cleanup[OF assms(1)])
  qed
qed

lemma linux_env_start:
  "fst (start_server (linux_env True) [] (new_daemon (linux_env True) 32 1 shipped_classes h)) = ok"
  by (simp add: start_server_def new_daemon_def start_def start_listen_def start_epoll_def
      start_wakeup_def start_add_def epoll_add_both_def make_parent_def run_as_calls extends_rules
      run_simps linux_env_def Let_def split: prod.split)

text \<open>A run in which the setup adds the rules of the three classes, and a signal that has arrived
  meanwhile ends the daemon.\<close>

theorem exit_leaves_no_rules_witness:
  "let json_parse = \<lambda>_. Some (render_config shipped_classes);
       load = calls (loadFromFile (linux_env True) tree_api json_parse 32 kDefaultConfigPath) [];
       main = main_daemon (linux_env True) tree_api json_parse sample_sizes 32 1
         [''wifi-offload-manager''] [SIGTERM] [] []
   in class_rule ` set shipped_classes \<subseteq>
        rules_after {} (load @ calls (addIpRules (linux_env True) shipped_classes) load) \<and>
      class_rule ` set shipped_classes \<inter> rules_after {} (snd (run_state main [])) = {}"
proof -
  let ?json = "\<lambda>_ :: string. Some (render_config shipped_classes)"
  let ?load = "calls (loadFromFile (linux_env True) tree_api ?json 32 kDefaultConfigPath) []"
  let ?main = "main_daemon (linux_env True) tree_api ?json sample_sizes 32 1
    [''wifi-offload-manager''] [SIGTERM] [] []"
  have args: "parseArgs [''wifi-offload-manager''] = kDefaultConfigPath"
    by (simp add: parseArgs_def)
  have "fst (run_state ?main []) = Some EXIT_SUCCESS"
    using main_daemon_run[OF linux_env_load refl _ linux_env_start, where sz = sample_sizes and
        argv = "[''wifi-offload-manager'']" and arrived = "[SIGTERM]" and evs = "[]" and h = "[]"]
      linux_env_setup[of sample_sizes 0] by simp
  then have "run_state ?main [] = (Some EXIT_SUCCESS, snd (run_state ?main []))"
    by (simp add: prod_eq_iff)
  from exit_leaves_no_rules[OF linux_env_rules this linux_env_load refl]
  have "class_rule ` set shipped_classes \<inter> rules_after {} (snd (run_state ?main [])) = {}"
    by (simp add: hierarchy_ok[OF linux_env_files])
  moreover have "class_rule ` set shipped_classes \<subseteq>
      rules_after {} (?load @ calls (addIpRules (linux_env True) shipped_classes) ?load)"
    using add_rule_table[OF linux_env_rules] by simp
  ultimately show ?thesis
    unfolding Let_def by blast
qed

text \<open>C12: a setup that succeeds steers every configured class. Its packets, recognised by the
  class id of their cgroup, get the class's mark in a chain that \<^verbatim>\<open>OUTPUT\<close> jumps to, and the
  kernel has the rule that sends packets with that mark to the class's routing table, and no
  other new rule for that mark.\<close>

theorem setup_steers_classes:
  assumes "valid_config classes" and "sane_table T env" and "rule_kernel R env"
    and "outcome (setup_network env sz fuel classes) h = ok" and "cls \<in> set classes"
  shows "let h' = h @ calls (setup_network env sz fuel classes) h
    in kNetserviceChain \<in> set (out_targets (table_after T h')) \<and>
       (\<exists>es. chains (table_after T h') kNetserviceChain = Some es \<and>
          (\<forall>iface m. marked es iface (classid cls) m = mark cls)) \<and>
       class_rule cls \<in> rules_after R h' \<and>
       (\<forall>r \<in> rules_after R h' - rules_after R h. hd r = FRA_FWMARK (mark cls) \<longrightarrow> r = class_rule cls)"
proof -
  let ?cg = "createCgroupHierarchy env classes" and ?mk = "addIptablesMarkRules env sz classes"
  let ?ip = "addIpRules env classes" and ?dr = "addDropRules env sz classes"
  let ?mp = "addEndpoints env fuel classes"
  let ?h1 = "h @ calls ?cg h" 
  let ?h2 = "?h1 @ calls ?mk ?h1"
  let ?h3 = "?h2 @ calls ?ip ?h2"
  let ?h4 = "?h3 @ calls ?dr ?h3"
  let ?h5 = "?h4 @ calls ?mp ?h4"
  have run: "h @ calls (setup_network env sz fuel classes) h = ?h5"
    using assms(4) unfolding setup_network_def
    by (auto simp: run_simps or_cleanup_run extends_rules split: sum.splits)
  have mark: "table_after T ?h2 = installed kNetserviceChain (mark_chain sz classes) (table_after T ?h1)"
    using mark_install[OF assms(2), of sz classes ?h1] by simp
  have table: "chains (table_after T ?h5) kNetserviceChain = Some (mark_chain sz classes)"
    "kNetserviceChain \<in> set (out_targets (table_after T ?h5))"
    using chain_kept_by_drops[OF assms(2), of ?h3 sz classes] mark
    by (simp_all add: table_after_silent silent_on_table silent_on_table_endpoints
        del: table_after_simps append_assoc)
  have rules: "rules_after R ?h5 = rules_after R h \<union> class_rule ` set classes"
    using add_rule_table[OF assms(3), of classes ?h2 "rules_after R ?h2"]
    by (simp add: silentD(2) silent_cgroups silent_chains silent_endpoints)
  have ids: "distinct (map classid classes)" "inj_on mark (set classes)"
    using assms(1) by (simp_all add: valid_config_def keys_distinct_def distinct_map)
  have "find (\<lambda>c. classid c = classid cls) (rev classes) = Some cls"
    using find_distinct_key[OF ids(1) assms(5)] by (simp add: find_rev_distinct[OF ids(1)])
  then have "marked (mark_chain sz classes) iface (classid cls) m = mark cls" for iface m
    by (simp add: marked_chain)
  with table rules ids(2) assms(5) show ?thesis
    unfolding run by (auto simp: Let_def class_rule_def inj_on_def)
qed

theorem setup_steers_classes_witness:
  "class_rule (hd shipped_classes) \<in> rules_after {}
     (calls (setup_network (linux_env True) sample_sizes 1 shipped_classes) [])"
  using setup_steers_classes[OF shipped_valid linux_env_table linux_env_rules
      linux_env_setup[of sample_sizes 0 shipped_classes "[]"], of "hd shipped_classes"]
  by (simp add: Let_def shipped_classes_def)

text \<open>The signals of a list of wake-ups that the main loop gets to handle: those up to the first
  that ends it.\<close>

fun handled :: "signal list list \<Rightarrow> signal list list" where
  "handled [] = []"
| "handled (sigs # later) = sigs # (if ends_daemon sigs then [] else handled later)"

abbreviation wakes :: "signal list list \<Rightarrow> main_event list" where
  "wakes ws \<equiv> map (\<lambda>sigs. Wake sigs []) ws"

lemma main_loop_ended:
  "snd (snd (main_loop env J json_parse bits path (wakes ws) True f d)) = (d, [])"
  by (induction ws arbitrary: f) (simp_all add: Let_def)

lemma run_loadFromFile:
  "snd (run_state (loadFromFile env J json_parse bits path) h) = h @ [File (ReadFile path)]"
  by (simp add: loadFromFile_def)

lemma main_loop_wake:
  assumes "\<not> gShutdown f" and "\<not> gReloadConfig f"
  shows "fst (snd (snd (main_loop env J json_parse bits path (Wake sigs [] # later) False f d))) =
    (let f' = (fold handleSignal sigs f)\<lparr>gReloadConfig := False\<rparr>;
         d' = (if SIGHUP \<in> set sigs
               then d\<lparr>d_world := (fst (d_world d), snd (d_world d) @ [File (ReadFile path)])\<rparr> else d)
     in fst (snd (snd (main_loop env J json_parse bits path later (ends_daemon sigs) f' d'))))"
proof -
  have kept: "fold handleSignal sigs f\<lparr>gReloadConfig := False\<rparr> = fold handleSignal sigs f"
    if "SIGHUP \<notin> set sigs"
    using that assms fold_handleSignal(2)[of sigs f] by simp
  show ?thesis
    using assms run_loadFromFile[of env J json_parse bits path "snd (d_world d)"]
    by (cases "SIGHUP \<in> set sigs") (simp_all add: kept fold_handleSignal Let_def case_prod_beta)
qed

text \<open>Signals alone change nothing but the flags and the log. A hang-up signal makes the
  main loop read the configuration file once, whatever the file holds; routes, rules, machines,
  consumers and the classes in use stay as they are, and after the first terminating signal
  nothing more is read.\<close>

theorem reload_only_reads:
  "let d' = fst (snd (snd (main_loop env J json_parse bits path (wakes ws) False
              \<lparr>gShutdown = False, gReloadConfig = False\<rparr> d)))
   in d' = d\<lparr>d_world := (fst (d_world d), snd (d_world d) @
        replicate (length (filter (\<lambda>sigs. SIGHUP \<in> set sigs) (handled ws))) (File (ReadFile path)))\<rparr>"
proof -
  have "fst (snd (snd (main_loop env J json_parse bits path (wakes ws) False f d))) =
      d\<lparr>d_world := (fst (d_world d), snd (d_world d) @
        replicate (length (filter (\<lambda>sigs. SIGHUP \<in> set sigs) (handled ws))) (File (ReadFile path)))\<rparr>"
    if "\<not> gShutdown f" "\<not> gReloadConfig f" for f d
    using that
  proof (induction ws arbitrary: f d)
    case (Cons sigs ws)
    show ?case
    proof (cases "ends_daemon sigs")
      case True
      then show ?thesis
        using Cons.prems
        by (simp add: main_loop_wake main_loop_ended Let_def del: main_loop.simps)
    next
      case False
      then show ?thesis
        using Cons by (simp add: main_loop_wake fold_handleSignal Let_def del: main_loop.simps(4))
    qed
  qed simp
  then show ?thesis
    by (simp add: Let_def)
qed



text \<open>A setup that fails reports the error of the phase that failed, and clean-up is the last
  thing it does, except when the cgroups cannot be set up, which is reported with nothing
  taken down.\<close>

theorem setup_failure_cleans_up:
  assumes "outcome (setup_network env sz fuel classes) h = Inl e"
  shows "outcome (createCgroupHierarchy env classes) h = Inl e \<and>
      calls (setup_network env sz fuel classes) h = calls (createCgroupHierarchy env classes) h \<or>
    outcome (createCgroupHierarchy env classes) h = ok \<and>
      (\<exists>pre. calls (setup_network env sz fuel classes) h =
         pre @ calls (cleanup env classes) (h @ pre))"
  using assms by (rule setup_failure)

theorem setup_failure_cleans_up_witness:
  "\<exists>pre. calls (setup_network (linux_env False) sample_sizes 1 shipped_classes) [] =
     pre @ calls (cleanup (linux_env False) shipped_classes) ([] @ pre)"
  using setup_failure_cleans_up[OF linux_env_no_firewall[of sample_sizes 1 shipped_classes "[]"]]
  by (auto simp: hierarchy_ok[OF linux_env_files])

end
