(* ===== verification/Wpa_Ctrl.thy ===== *)
theory Wpa_Ctrl
  imports Number_Text Syscalls
begin

text \<open>
  \<^verbatim>\<open>wpa/wpa_ctrl.c\<close> with its platform header \<^verbatim>\<open>wpa/os.h\<close>: the client of wpa_supplicant's
  control interface, in the variant \<^verbatim>\<open>build_config.h\<close> selects, a datagram socket in the UNIX
  domain. Opening binds a socket file of the client's own and connects to the supplicant's;
  a request is sent and its reply picked out of the messages that arrive; attaching asks for
  the events that \<^verbatim>\<open>wpa_ctrl_recv\<close> then delivers.

  Memory is a resource that is taken and given back; what is stored in it is the record.
\<close>

subsection \<open>Platform helpers\<close>

text \<open>
  The copying loop of \<^verbatim>\<open>os_strlcpy\<close> over a text without its final NUL: the text copied, the
  room left, and the rest of the source.
\<close>

fun strlcpy_copy :: "nat \<Rightarrow> string \<Rightarrow> string \<times> nat \<times> string" where
  "strlcpy_copy n [] = ([], n, [])"
| "strlcpy_copy n (c # cs) =
     (if n - 1 = 0 then ([c], 0, cs)
      else let (d, m, rest) = strlcpy_copy (n - 1) cs in (c # d, m, rest))"

definition os_strlcpy :: "string \<Rightarrow> nat \<Rightarrow> string \<times> nat" where
  "os_strlcpy src siz =
     (let (d, n, rest) = (if siz \<noteq> 0 \<and> siz - 1 \<noteq> 0 then strlcpy_copy (siz - 1) src else ([], 0, src))
      in (d, length d + (if n = 0 then length rest else 0)))"

definition os_snprintf_error :: "nat \<Rightarrow> int \<Rightarrow> bool" where
  "os_snprintf_error siz res \<longleftrightarrow> res < 0 \<or> nat res \<ge> siz"

type_synonym reltime = "int \<times> int"

definition os_reltime_expired :: "reltime \<Rightarrow> reltime \<Rightarrow> int \<Rightarrow> bool" where
  "os_reltime_expired now ts timeout_secs =
     (let sec = fst now - fst ts; usec = snd now - snd ts;
          (sec, usec) = (if usec < 0 then (sec - 1, usec + 1000000) else (sec, usec))
      in sec > timeout_secs \<or> sec = timeout_secs \<and> usec > 0)"

text \<open>\<^verbatim>\<open>gettimeofday\<close> leaves the time alone when it fails.\<close>

definition os_get_reltime :: "env \<Rightarrow> reltime \<Rightarrow> reltime os" where
  "os_get_reltime env t = do {
     a \<leftarrow> perform env (Ctl GetTimeOfDay);
     return (if rc a \<noteq> 0 then t else clock a) }"

subsection \<open>Opening and closing\<close>

record wpa_ctrl =
  ctl_s :: int
  ctl_local :: string
  ctl_dest :: string

definition sun_path_size :: nat where "sun_path_size = 108"

definition CLIENT_DIR :: string where "CLIENT_DIR = ''/tmp''"

definition CLIENT_PREFIX :: string where "CLIENT_PREFIX = ''wpa_ctrl_''"

definition client_path :: "string option \<Rightarrow> int \<Rightarrow> int \<Rightarrow> string" where
  "client_path cli_path pid counter =
     (case cli_path of
        Some p \<Rightarrow> if prefix ''/'' p then p else CLIENT_DIR
      | None \<Rightarrow> CLIENT_DIR) @
     ''/'' @ CLIENT_PREFIX @ int_text pid @ ''-'' @ int_text counter"

text \<open>From \<^verbatim>\<open>try_again\<close> to the successful \<^verbatim>\<open>bind\<close>, with the number of tries that are left.\<close>

fun bind_client :: "env \<Rightarrow> int \<Rightarrow> string option \<Rightarrow> nat \<Rightarrow> string option os" where
  "bind_client env s cli_path 0 = return None"
| "bind_client env s cli_path (Suc left) = do {
     pid \<leftarrow> perform env (Ctl GetPid);
     counter \<leftarrow> perform env (Ctl ReadCounter);
     let path = client_path cli_path (rc pid) (rc counter);
     (if os_snprintf_error sun_path_size (int (length path)) then return None
      else do {
        b \<leftarrow> perform env (Sock (BindUnix s path));
        (if rc b < 0 then
           if err b = EADDRINUSE \<and> left > 0 then do {
             _ \<leftarrow> perform env (File (Unlink path));
             bind_client env s cli_path left }
           else return None
         else return (Some path)) }) }"

text \<open>The address to connect to: abstract, or a path that has to fit.\<close>

definition dest_path :: "string \<Rightarrow> string option" where
  "dest_path ctrl_path =
     (if prefix ''@abstract:'' ctrl_path then
        Some (CHR 0x00 # fst (os_strlcpy (drop 10 ctrl_path) (sun_path_size - 1)))
      else let (d, res) = os_strlcpy ctrl_path sun_path_size
           in if res \<ge> sun_path_size then None else Some d)"

definition O_NONBLOCK :: int where "O_NONBLOCK = 2048"

definition set_nonblocking :: "env \<Rightarrow> int \<Rightarrow> unit os" where
  "set_nonblocking env s = do {
     flags \<leftarrow> perform env (Ctl (FcntlGetFl s));
     (if rc flags \<ge> 0 then do {
        _ \<leftarrow> perform env (Ctl (FcntlSetFl s (or (rc flags) O_NONBLOCK)));
        return () }
      else return ()) }"

definition open_connect :: "env \<Rightarrow> int \<Rightarrow> string \<Rightarrow> string \<Rightarrow> wpa_ctrl option os" where
  "open_connect env s ctrl_path local =
     (case dest_path ctrl_path of
        None \<Rightarrow> do {
          _ \<leftarrow> perform env (Sock (CloseFd s));
          _ \<leftarrow> perform env (Ctl FreeMem);
          return None }
      | Some dest \<Rightarrow> do {
          a \<leftarrow> perform env (Ctl (ConnectUnix s dest));
          (if rc a < 0 then do {
             _ \<leftarrow> perform env (Sock (CloseFd s));
             _ \<leftarrow> perform env (File (Unlink local));
             _ \<leftarrow> perform env (Ctl FreeMem);
             return None }
           else do {
             _ \<leftarrow> set_nonblocking env s;
             return (Some \<lparr>ctl_s = s, ctl_local = local, ctl_dest = dest\<rparr>) }) })"

definition wpa_ctrl_open2 ::
  "env \<Rightarrow> string option \<Rightarrow> string option \<Rightarrow> wpa_ctrl option os" where
  "wpa_ctrl_open2 env ctrl_path cli_path =
     (case ctrl_path of
        None \<Rightarrow> return None
      | Some path \<Rightarrow> do {
          m \<leftarrow> perform env (Ctl Zalloc);
          (if rc m = 0 then return None
           else do {
             s \<leftarrow> perform env (Ctl DgramSocket);
             (if rc s < 0 then do { _ \<leftarrow> perform env (Ctl FreeMem); return None }
              else do {
                _ \<leftarrow> perform env (Ctl IncCounter);
                local \<leftarrow> bind_client env (rc s) cli_path 2;
                (case local of
                   None \<Rightarrow> do {
                     _ \<leftarrow> perform env (Sock (CloseFd (rc s)));
                     _ \<leftarrow> perform env (Ctl FreeMem);
                     return None }
                 | Some p \<Rightarrow> open_connect env (rc s) path p) }) }) })"

definition wpa_ctrl_open :: "env \<Rightarrow> string option \<Rightarrow> wpa_ctrl option os" where
  "wpa_ctrl_open env ctrl_path = wpa_ctrl_open2 env ctrl_path None"

definition wpa_ctrl_close :: "env \<Rightarrow> wpa_ctrl option \<Rightarrow> unit os" where
  "wpa_ctrl_close env ctrl =
     (case ctrl of
        None \<Rightarrow> return ()
      | Some c \<Rightarrow> do {
          _ \<leftarrow> perform env (File (Unlink (ctl_local c)));
          _ \<leftarrow> (if ctl_s c \<ge> 0 then do { _ \<leftarrow> perform env (Sock (CloseFd (ctl_s c))); return () }
               else return ());
          _ \<leftarrow> perform env (Ctl FreeMem);
          return () })"

subsection \<open>Requests\<close>

text \<open>
  From \<^verbatim>\<open>retry_send\<close>: \<open>Some True\<close> when the command is sent, \<open>Some False\<close> at \<^verbatim>\<open>send_err\<close>, \<open>None\<close>
  when it is still being tried after the given number of rounds. A starting time of zero
  seconds means that the clock was not read yet.
\<close>

fun retry_send :: "env \<Rightarrow> int \<Rightarrow> string \<Rightarrow> nat \<Rightarrow> reltime \<Rightarrow> bool option os" where
  "retry_send env s cmd 0 started_at = return None"
| "retry_send env s cmd (Suc n) started_at = do {
     a \<leftarrow> perform env (Ctl (CtlSend s cmd));
     (if rc a < 0 then
        if err a = EAGAIN \<or> err a = EBUSY \<or> err a = EWOULDBLOCK then
          if fst started_at = 0 then do {
            started_at' \<leftarrow> os_get_reltime env started_at;
            _ \<leftarrow> perform env (Ctl (SleepFor 1));
            retry_send env s cmd n started_at' }
          else do {
            t \<leftarrow> perform env (Ctl GetTimeOfDay);
            (if os_reltime_expired (clock t) started_at 5 then return (Some False)
             else do {
               _ \<leftarrow> perform env (Ctl (SleepFor 1));
               retry_send env s cmd n started_at }) }
        else return (Some False)
      else return (Some True)) }"

text \<open>What a \<^verbatim>\<open>recv\<close> left in the buffer.\<close>

definition received :: "answer \<Rightarrow> string" where
  "received a = take (nat (rc a)) (content a)"

definition unsolicited :: "string \<Rightarrow> bool" where
  "unsolicited msg \<longleftrightarrow> prefix ''<'' msg \<or> prefix ''IFNAME='' msg"

text \<open>
  The loop that waits for the reply. With a callback (\<open>cb\<close>) the unsolicited messages are passed
  to it, cut by one character when they fill the buffer; \<open>msgs\<close> are those passed so far. The
  result is the return value, the reply, and the messages, or \<open>None\<close> while it still waits.
\<close>

fun wait_reply ::
  "env \<Rightarrow> int \<Rightarrow> nat \<Rightarrow> bool \<Rightarrow> nat \<Rightarrow> string list \<Rightarrow> (int \<times> string \<times> string list) option os" where
  "wait_reply env s reply_len cb 0 msgs = return None"
| "wait_reply env s reply_len cb (Suc n) msgs = do {
     res \<leftarrow> perform env (Ctl (SelectRead s 10));
     (if rc res < 0 \<and> err res = EINTR then wait_reply env s reply_len cb n msgs
      else if rc res < 0 then return (Some (rc res, [], msgs))
      else if s \<in> fst ` set (ready res) then do {
        a \<leftarrow> perform env (Ctl (CtlRecv s reply_len));
        (if rc a < 0 then return (Some (rc a, [], msgs))
         else if unsolicited (received a) then
           wait_reply env s reply_len cb n
             (if cb then msgs @ [take (reply_len - 1) (received a)] else msgs)
         else return (Some (0, received a, msgs))) }
      else return (Some (- 2, [], msgs))) }"

definition wpa_ctrl_request ::
  "env \<Rightarrow> nat \<Rightarrow> wpa_ctrl \<Rightarrow> string \<Rightarrow> nat \<Rightarrow> bool \<Rightarrow> (int \<times> string \<times> string list) option os" where
  "wpa_ctrl_request env fuel ctrl cmd reply_len cb = do {
     sent \<leftarrow> retry_send env (ctl_s ctrl) cmd fuel (0, 0);
     (case sent of
        None \<Rightarrow> return None
      | Some b \<Rightarrow> if b then wait_reply env (ctl_s ctrl) reply_len cb fuel []
                  else return (Some (- 1, [], []))) }"

definition attach_ok :: string where "attach_ok = ''OK'' @ [CHR 0x0A]"

definition wpa_ctrl_attach_helper :: "env \<Rightarrow> nat \<Rightarrow> wpa_ctrl \<Rightarrow> bool \<Rightarrow> int option os" where
  "wpa_ctrl_attach_helper env fuel ctrl attach = do {
     r \<leftarrow> wpa_ctrl_request env fuel ctrl (if attach then ''ATTACH'' else ''DETACH'') 10 False;
     return (case r of
         None \<Rightarrow> None
       | Some (ret, buf, _) \<Rightarrow> Some (if ret < 0 then ret else if buf = attach_ok then 0 else - 1)) }"

definition wpa_ctrl_attach :: "env \<Rightarrow> nat \<Rightarrow> wpa_ctrl \<Rightarrow> int option os" where
  "wpa_ctrl_attach env fuel ctrl = wpa_ctrl_attach_helper env fuel ctrl True"

definition wpa_ctrl_detach :: "env \<Rightarrow> nat \<Rightarrow> wpa_ctrl \<Rightarrow> int option os" where
  "wpa_ctrl_detach env fuel ctrl = wpa_ctrl_attach_helper env fuel ctrl False"

text \<open>A message, or \<open>None\<close> for the error result.\<close>

definition wpa_ctrl_recv :: "env \<Rightarrow> wpa_ctrl \<Rightarrow> nat \<Rightarrow> string option os" where
  "wpa_ctrl_recv env ctrl reply_len = do {
     a \<leftarrow> perform env (Ctl (CtlRecv (ctl_s ctrl) reply_len));
     return (if rc a < 0 then None else Some (received a)) }"

definition wpa_ctrl_pending :: "env \<Rightarrow> wpa_ctrl \<Rightarrow> bool os" where
  "wpa_ctrl_pending env ctrl = do {
     a \<leftarrow> perform env (Ctl (SelectRead (ctl_s ctrl) 0));
     return (ctl_s ctrl \<in> fst ` set (ready a)) }"

definition wpa_ctrl_get_fd :: "wpa_ctrl \<Rightarrow> int" where
  "wpa_ctrl_get_fd ctrl = ctl_s ctrl"


subsection \<open>Lemmas\<close>

lemma strlcpy_copy_spec:
  "n > 0 \<Longrightarrow> strlcpy_copy n src = (take n src, n - length src, drop n src)"
proof (induction n src rule: strlcpy_copy.induct)
  case (2 n c cs)
  then show ?case
    by (cases "n - 1 = 0") (auto simp: take_Cons' drop_Cons')
qed simp

lemma os_strlcpy_spec: "os_strlcpy src siz = (take (siz - 1) src, length src)"
  by (auto simp: os_strlcpy_def Let_def strlcpy_copy_spec)

lemma extends_bind_client [extends_rules]: "extends (bind_client env s cli n)"
proof (induction n)
  case (Suc n)
  then show ?case
    unfolding bind_client.simps Let_def by (intro extends_rules)
qed simp

lemma extends_set_nonblocking [extends_rules]: "extends (set_nonblocking env s)"
  unfolding set_nonblocking_def by (intro extends_rules)

lemma extends_open_connect [extends_rules]: "extends (open_connect env s path p)"
  unfolding open_connect_def by (intro extends_rules)

lemma extends_wpa_ctrl_open2 [extends_rules]: "extends (wpa_ctrl_open2 env path cli)"
  unfolding wpa_ctrl_open2_def by (intro extends_rules)

lemma extends_wpa_ctrl_open [extends_rules]: "extends (wpa_ctrl_open env path)"
  unfolding wpa_ctrl_open_def by (intro extends_rules)

lemma extends_wpa_ctrl_close [extends_rules]: "extends (wpa_ctrl_close env ctrl)"
  unfolding wpa_ctrl_close_def by (intro extends_rules)

lemma extends_os_get_reltime [extends_rules]: "extends (os_get_reltime env t)"
  unfolding os_get_reltime_def by (intro extends_rules)

lemma extends_retry_send [extends_rules]: "extends (retry_send env s cmd n t)"
proof (induction n arbitrary: t)
  case (Suc n)
  then show ?case
    unfolding retry_send.simps by (intro extends_rules)
qed simp

lemma extends_wait_reply [extends_rules]: "extends (wait_reply env s len cb n msgs)"
proof (induction n arbitrary: msgs)
  case (Suc n)
  then show ?case
    unfolding wait_reply.simps by (intro extends_rules)
qed simp

lemma extends_wpa_ctrl_request [extends_rules]:
  "extends (wpa_ctrl_request env fuel ctrl cmd len cb)"
  unfolding wpa_ctrl_request_def by (intro extends_rules)

lemma extends_wpa_ctrl_attach_helper [extends_rules]:
  "extends (wpa_ctrl_attach_helper env fuel ctrl attach)"
  unfolding wpa_ctrl_attach_helper_def by (intro extends_rules)

lemma extends_wpa_ctrl_attach [extends_rules]: "extends (wpa_ctrl_attach env fuel ctrl)"
  unfolding wpa_ctrl_attach_def by (intro extends_rules)

lemma extends_wpa_ctrl_detach [extends_rules]: "extends (wpa_ctrl_detach env fuel ctrl)"
  unfolding wpa_ctrl_detach_def by (intro extends_rules)

lemma extends_wpa_ctrl_recv [extends_rules]: "extends (wpa_ctrl_recv env ctrl len)"
  unfolding wpa_ctrl_recv_def by (intro extends_rules)

subsection \<open>What a connection holds\<close>

text \<open>The memory, the descriptor and the socket file that calls took and did not give back.\<close>

datatype resource = Memory | Socket int | SocketFile string

fun held_step :: "call \<times> answer \<Rightarrow> resource set \<Rightarrow> resource set" where
  "held_step (Ctl Zalloc, a) H = (if rc a = 0 then H else insert Memory H)"
| "held_step (Ctl FreeMem, a) H = H - {Memory}"
| "held_step (Ctl DgramSocket, a) H = (if rc a < 0 then H else insert (Socket (rc a)) H)"
| "held_step (Sock (CloseFd s), a) H = H - {Socket s}"
| "held_step (Sock (BindUnix s p), a) H = (if rc a < 0 then H else insert (SocketFile p) H)"
| "held_step (File (Unlink p), a) H = H - {SocketFile p}"
| "held_step _ H = H"

definition held :: "env \<Rightarrow> call list \<Rightarrow> call list \<Rightarrow> resource set \<Rightarrow> resource set" where
  "held env h cs H = fold held_step (exchanges env h cs) H"

lemma held_simps [simp]:
  "held env h [] H = H"
  "held env h (c # cs) H = held env (h @ [c]) cs (held_step (c, env h c) H)"
  "held env h (cs @ ds) H = held env (h @ cs) ds (held env h cs H)"
  by (simp_all add: held_def exchanges_append)

lemma held_step_mono: "H \<subseteq> H' \<Longrightarrow> held_step x H \<subseteq> held_step x H'"
  by (induction x H rule: held_step.induct) auto

lemma held_mono: "H \<subseteq> H' \<Longrightarrow> held env h cs H \<subseteq> held env h cs H'"
  by (induction cs arbitrary: h H H') (simp_all add: held_step_mono)

text \<open>What was held before adds at most itself.\<close>

lemma held_step_union: "held_step x (H \<union> K) \<subseteq> held_step x H \<union> K"
  by (induction x H rule: held_step.induct) auto

lemma held_additive: "held env h cs (H \<union> K) \<subseteq> held env h cs H \<union> K"
proof (induction cs arbitrary: h H)
  case (Cons c cs)
  have "held_step (c, env h c) (H \<union> K) \<subseteq> held_step (c, env h c) H \<union> K"
    by (rule held_step_union)
  from held_mono[OF this, of env "h @ [c]" cs] show ?case
    using Cons.IH[of "h @ [c]" "held_step (c, env h c) H"] by simp
qed simp

lemma held_within: "held env h cs {} \<subseteq> L \<Longrightarrow> H \<subseteq> L \<Longrightarrow> held env h cs H \<subseteq> L"
  using held_additive[of env h cs "{}" H] by auto

definition connection :: "wpa_ctrl \<Rightarrow> resource set" where
  "connection c = {Memory, Socket (ctl_s c), SocketFile (ctl_local c)}"

lemma held_bind_client:
  "H \<subseteq> {Memory, Socket s'} \<Longrightarrow>
     held env h (calls (bind_client env s cli n) h) H =
       H \<union> (case outcome (bind_client env s cli n) h of None \<Rightarrow> {} | Some p \<Rightarrow> {SocketFile p})"
proof (induction n arbitrary: h)
  case (Suc n)
  moreover have "H - {SocketFile p} = H" for p
    using Suc.prems by auto
  ultimately show ?case
    by (simp add: run_simps extends_rules Let_def)
qed simp

lemma held_set_nonblocking [simp]:
  "held env h (calls (set_nonblocking env s) h') H = H"
  by (simp add: set_nonblocking_def run_simps extends_rules)


lemma held_open_connect:
  "held env h (calls (open_connect env s path p) h) {Memory, Socket s, SocketFile p} =
     (case outcome (open_connect env s path p) h of
        None \<Rightarrow> if dest_path path = None then {SocketFile p} else {}
      | Some c \<Rightarrow> connection c)"
  by (auto simp: open_connect_def run_simps extends_rules connection_def split: option.split)

lemma open_connect_sel:
  "outcome (open_connect env s path p) h = Some c \<Longrightarrow>
     ctl_s c = s \<and> ctl_local c = p \<and> dest_path path = Some (ctl_dest c)"
  by (auto simp: open_connect_def run_simps extends_rules split: option.splits if_splits)

lemma held_wpa_ctrl_open2:
  "held env h (calls (wpa_ctrl_open2 env path cli) h) {} =
     (case outcome (wpa_ctrl_open2 env path cli) h of
        Some c \<Rightarrow> connection c
      | None \<Rightarrow> {}) \<or>
   outcome (wpa_ctrl_open2 env path cli) h = None \<and>
     (\<exists>q p. path = Some q \<and> dest_path q = None \<and>
       held env h (calls (wpa_ctrl_open2 env path cli) h) {} = {SocketFile p})"
proof (cases path)
  case (Some q)
  let ?s = "rc (env (h @ [Ctl Zalloc]) (Ctl DgramSocket))"
  let ?h = "h @ [Ctl Zalloc, Ctl DgramSocket, Ctl IncCounter]"
  have bound: "held env ?h (calls (bind_client env ?s cli 2) ?h) {Memory, Socket ?s} =
      {Memory, Socket ?s} \<union>
      (case outcome (bind_client env ?s cli 2) ?h of None \<Rightarrow> {} | Some p \<Rightarrow> {SocketFile p})"
    by (rule held_bind_client) simp
  show ?thesis
  proof (cases "outcome (bind_client env ?s cli 2) ?h")
    case None
    then show ?thesis
      using bound by (auto simp: Some wpa_ctrl_open2_def run_simps extends_rules insert_commute)
  next
    case bound_to: (Some p)
    then show ?thesis
      using bound held_open_connect[of env "?h @ calls (bind_client env ?s cli 2) ?h" ?s q p]
      by (auto simp: Some wpa_ctrl_open2_def run_simps extends_rules insert_commute
          split: option.splits)
  qed
qed (simp add: wpa_ctrl_open2_def)

lemma held_wpa_ctrl_close:
  "ctl_s c \<ge> 0 \<Longrightarrow> held env h (calls (wpa_ctrl_close env (Some c)) h') (connection c) = {}"
  by (auto simp: wpa_ctrl_close_def run_simps extends_rules connection_def)

lemma open_descriptor:
  "outcome (wpa_ctrl_open2 env path cli) h = Some c \<Longrightarrow> ctl_s c \<ge> 0"
  by (auto simp: wpa_ctrl_open2_def run_simps extends_rules split: option.splits if_splits
      dest: open_connect_sel)

lemma held_wpa_ctrl_open:
  assumes "dest_path path \<noteq> None"
  shows "held env h (calls (wpa_ctrl_open env (Some path)) h) {} =
    (case outcome (wpa_ctrl_open env (Some path)) h of None \<Rightarrow> {} | Some c \<Rightarrow> connection c)"
  using held_wpa_ctrl_open2[of env h "Some path" None]
proof (elim disjE conjE exE)
  fix q p
  assume "Some path = Some q" and "dest_path q = None"
  with assms show ?thesis by simp
qed (simp add: wpa_ctrl_open_def)

text \<open>A request takes and gives back nothing.\<close>

lemma held_retry_send [simp]: "held env h (calls (retry_send env' s cmd n t) h') H = H"
  by (induction n arbitrary: t h h') (simp_all add: run_simps extends_rules os_get_reltime_def)

lemma held_wait_reply [simp]: "held env h (calls (wait_reply env' s len cb n msgs) h') H = H"
  by (induction n arbitrary: msgs h h') (simp_all add: run_simps extends_rules)

lemma held_attach [simp]:
  "held env h (calls (wpa_ctrl_attach env' fuel ctrl) h') H = H"
  "held env h (calls (wpa_ctrl_detach env' fuel ctrl) h') H = H"
  by (simp_all add: wpa_ctrl_attach_def wpa_ctrl_detach_def wpa_ctrl_attach_helper_def
      wpa_ctrl_request_def run_simps extends_rules split: option.split)

lemma held_recv [simp]: "held env h (calls (wpa_ctrl_recv env' ctrl len) h') H = H"
  by (simp add: wpa_ctrl_recv_def run_simps extends_rules)


subsection \<open>Messages in the order they arrive\<close>

definition recvs :: "int \<Rightarrow> call list \<Rightarrow> nat" where
  "recvs s cs = length (filter (\<lambda>c. \<exists>n. c = Ctl (CtlRecv s n)) cs)"

lemma recvs_simps [simp]:
  "recvs s [] = 0" "recvs s (cs @ ds) = recvs s cs + recvs s ds"
  "recvs s (Ctl (CtlRecv s n) # cs) = Suc (recvs s cs)"
  "recvs s (Ctl (CtlSend s' p) # cs) = recvs s cs"
  "recvs s (Ctl (SelectRead s' t) # cs) = recvs s cs"
  by (simp_all add: recvs_def)

text \<open>From \<open>h\<close> on the supplicant takes every command, and \<open>msgs\<close> arrive one after the other.\<close>

definition delivers :: "env \<Rightarrow> int \<Rightarrow> call list \<Rightarrow> string list \<Rightarrow> bool" where
  "delivers env s h msgs \<longleftrightarrow>
     (\<forall>cs p t n. let a = env (h @ cs) (Ctl (CtlRecv s n)); sel = env (h @ cs) (Ctl (SelectRead s t)) in
        rc (env (h @ cs) (Ctl (CtlSend s p))) \<ge> 0 \<and> rc sel = 1 \<and> s \<in> fst ` set (ready sel) \<and>
        (recvs s cs < length msgs \<longrightarrow>
           received a = take n (msgs ! recvs s cs) \<and> rc a \<ge> 0))"

lemma deliversD:
  assumes "delivers env s h msgs"
  shows "rc (env (h @ cs) (Ctl (CtlSend s p))) \<ge> 0"
    and "rc (env (h @ cs) (Ctl (SelectRead s t))) = 1"
    and "s \<in> fst ` set (ready (env (h @ cs) (Ctl (SelectRead s t))))"
    and "recvs s cs < length msgs \<Longrightarrow>
      received (env (h @ cs) (Ctl (CtlRecv s n))) = take n (msgs ! recvs s cs) \<and>
      rc (env (h @ cs) (Ctl (CtlRecv s n))) \<ge> 0"
  using assms by (simp_all add: delivers_def Let_def)

lemma prefix_take_long: "length xs \<le> n \<Longrightarrow> prefix xs (take n ys) = prefix xs ys"
  by (metis append_eq_conv_conj min.absorb1 prefix_def take_take)

lemma unsolicited_take: "7 \<le> n \<Longrightarrow> unsolicited (take n msg) = unsolicited msg"
  by (simp add: unsolicited_def prefix_take_long)

lemma wait_reply_delivers:
  assumes "delivers env s h (seen @ us @ [r])" and "list_all unsolicited us"
    and "\<not> unsolicited r" and "7 \<le> len" and "recvs s cs = length seen" and "length us < n"
  shows "outcome (wait_reply env s len cb n msgs) (h @ cs) =
    Some (0, take len r, if cb then msgs @ map (take (len - 1)) us else msgs)"
  using assms
proof (induction us arbitrary: seen cs n msgs)
  case Nil
  then obtain m where "n = Suc m" by (cases n) auto
  with Nil show ?case
    using deliversD[OF Nil(1), of cs] deliversD(4)[OF Nil(1), of "cs @ [Ctl (SelectRead s 10)]" len]
    by (simp add: run_simps extends_rules unsolicited_take)
next
  case (Cons u us)
  then obtain m where n: "n = Suc m" by (cases n) auto
  let ?cs = "cs @ [Ctl (SelectRead s 10), Ctl (CtlRecv s len)]"
  have "outcome (wait_reply env s len cb m msgs') (h @ ?cs) =
      Some (0, take len r, if cb then msgs' @ map (take (len - 1)) us else msgs')" for msgs'
    using Cons.prems n by (intro Cons.IH[of "seen @ [u]"]) simp_all
  then show ?case
    using Cons.prems n deliversD[OF Cons.prems(1), of cs]
      deliversD(4)[OF Cons.prems(1), of "cs @ [Ctl (SelectRead s 10)]" len]
    by (simp add: run_simps extends_rules unsolicited_take min_def)
qed

subsection \<open>The clock\<close>

definition micros :: "reltime \<Rightarrow> int" where
  "micros t = fst t * 1000000 + snd t"

lemma os_reltime_expired_spec:
  assumes "0 \<le> snd now" "snd now < 1000000" "0 \<le> snd ts" "snd ts < 1000000"
  shows "os_reltime_expired now ts secs \<longleftrightarrow> micros now > micros ts + secs * 1000000"
  using assms by (auto simp: os_reltime_expired_def micros_def Let_def)

fun slept :: "call list \<Rightarrow> int" where
  "slept [] = 0"
| "slept (Ctl (SleepFor t) # cs) = int t + slept cs"
| "slept (_ # cs) = slept cs"

lemma slept_append [simp]: "slept (cs @ ds) = slept cs + slept ds"
  by (induction cs rule: slept.induct) simp_all

text \<open>A clock that runs, is past its first second, and advances at least as long as one sleeps.\<close>

definition clock_runs :: "env \<Rightarrow> bool" where
  "clock_runs env \<longleftrightarrow>
     (\<forall>h cs. let t = clock (env h (Ctl GetTimeOfDay)); t' = clock (env (h @ cs) (Ctl GetTimeOfDay)) in
        rc (env h (Ctl GetTimeOfDay)) = 0 \<and> fst t \<ge> 1 \<and> 0 \<le> snd t \<and> snd t < 1000000 \<and>
        micros t' \<ge> micros t + slept cs * 1000000)"

lemma clock_runsD:
  assumes "clock_runs env"
  shows "rc (env h (Ctl GetTimeOfDay)) = 0" "fst (clock (env h (Ctl GetTimeOfDay))) \<ge> 1"
    and "0 \<le> snd (clock (env h (Ctl GetTimeOfDay)))" "snd (clock (env h (Ctl GetTimeOfDay))) < 1000000"
    and "micros (clock (env (h @ cs) (Ctl GetTimeOfDay))) \<ge>
      micros (clock (env h (Ctl GetTimeOfDay))) + slept cs * 1000000"
  using assms unfolding clock_runs_def Let_def by blast+

lemma retry_send_started:
  assumes "clock_runs env" and "slept cs \<ge> int (7 - n)" and "n > 0"
  shows "outcome (retry_send env s cmd n (clock (env h (Ctl GetTimeOfDay)))) (h @ cs) \<noteq> None"
  using assms(2,3)
proof (induction n arbitrary: cs)
  case (Suc n)
  let ?t = "clock (env h (Ctl GetTimeOfDay))"
  let ?h = "h @ cs @ [Ctl (CtlSend s cmd)]"
  have started: "fst ?t \<noteq> 0"
    using clock_runsD(2)[OF assms(1), of h] by simp
  have late: "os_reltime_expired (clock (env ?h (Ctl GetTimeOfDay))) ?t 5" if "n = 0"
    using that Suc.prems(1) clock_runsD(3-4)[OF assms(1), of h] clock_runsD(3-4)[OF assms(1), of ?h]
      clock_runsD(5)[OF assms(1), of h "cs @ [Ctl (CtlSend s cmd)]"]
    by (simp add: os_reltime_expired_spec)
  show ?case
  proof (cases "n = 0")
    case True
    then show ?thesis
      using started late by (auto simp: run_simps extends_rules)
  next
    case False
    have "outcome (retry_send env s cmd n ?t)
        (h @ cs @ [Ctl (CtlSend s cmd), Ctl GetTimeOfDay, Ctl (SleepFor 1)]) \<noteq> None"
      using Suc.prems False by (intro Suc.IH) (auto simp: of_nat_diff)
    then show ?thesis
      using started by (auto simp: run_simps extends_rules)
  qed
qed simp


lemma retry_send_ends:
  assumes "clock_runs env" and "7 \<le> n"
  shows "outcome (retry_send env s cmd n (0, 0)) h \<noteq> None"
proof -
  obtain m where n: "n = Suc m" using assms(2) by (cases n) auto
  let ?h = "h @ [Ctl (CtlSend s cmd)]"
  have "outcome (retry_send env s cmd m (clock (env ?h (Ctl GetTimeOfDay))))
      (?h @ [Ctl GetTimeOfDay, Ctl (SleepFor 1)]) \<noteq> None"
    using assms n by (intro retry_send_started) auto
  then show ?thesis
    using clock_runsD(1)[OF assms(1), of ?h]
    by (auto simp: n run_simps extends_rules os_get_reltime_def)
qed

text \<open>The commands sent are counted, whatever the answers.\<close>

definition sends :: "call list \<Rightarrow> nat" where
  "sends cs = length (filter (\<lambda>c. \<exists>s p. c = Ctl (CtlSend s p)) cs)"

lemma sends_simps [simp]:
  "sends [] = 0" "sends (cs @ ds) = sends cs + sends ds"
  "sends (Ctl (CtlSend s p) # cs) = Suc (sends cs)"
  "sends (Ctl GetTimeOfDay # cs) = sends cs" "sends (Ctl (SleepFor t) # cs) = sends cs"
  by (simp_all add: sends_def)

lemma more_rounds_same:
  "outcome (retry_send env s cmd n t) h \<noteq> None \<Longrightarrow> n \<le> m \<Longrightarrow>
     run_state (retry_send env s cmd m t) h = run_state (retry_send env s cmd n t) h"
proof (induction n arbitrary: m t h)
  case (Suc n)
  then obtain k where m: "m = Suc k" "n \<le> k" by (cases m) auto
  have "run_state (retry_send env s cmd k t') h' = run_state (retry_send env s cmd n t') h'"
    if "outcome (retry_send env s cmd n t') h' \<noteq> None" for t' h'
    using that m Suc.IH by blast
  with Suc.prems show ?case
    by (auto simp: m run_simps extends_rules os_get_reltime_def split: if_splits)
qed simp

lemma sends_retry_send: "sends (calls (retry_send env s cmd n t) h) \<le> n"
  by (induction n arbitrary: t h) (auto simp: run_simps extends_rules os_get_reltime_def)

subsection \<open>Properties\<close>

text \<open>The bounded copy gives the longest initial part of the source that leaves room for
  the final NUL, and reports the whole length, so the copy is complete exactly when the
  reported length is smaller than the buffer.\<close>

theorem strlcpy_reports_truncation:
  "let (d, res) = os_strlcpy src (Suc n)
   in length d \<le> n \<and> prefix d src \<and> res = length src \<and> (d = src \<longleftrightarrow> res < Suc n)"
proof -
  have "take n src = src \<longleftrightarrow> length src < Suc n"
    by (simp only: take_all_iff less_Suc_eq_le)
  moreover have "length (take n src) \<le> n" by simp
  moreover have "os_strlcpy src (Suc n) = (take n src, length src)"
    by (simp only: os_strlcpy_spec diff_Suc_1)
  ultimately show ?thesis
    by (simp add: take_is_prefix)
qed

text \<open>Whatever the kernel answers, opening a connection to a path that fits into a socket
  address either fails with everything given back, or holds exactly its memory, its
  descriptor and its socket file, all of which closing gives back.\<close>

theorem open_close_balanced:
  assumes "dest_path path \<noteq> None"
  shows "held env h (calls (wpa_ctrl_open env (Some path)) h) {} =
      (case outcome (wpa_ctrl_open env (Some path)) h of None \<Rightarrow> {} | Some c \<Rightarrow> connection c) \<and>
    held env h (calls (do { c \<leftarrow> wpa_ctrl_open env (Some path); wpa_ctrl_close env c }) h) {} = {}"
proof -
  note opened = held_wpa_ctrl_open[OF assms, of env h]
  show ?thesis
  proof (cases "outcome (wpa_ctrl_open env (Some path)) h")
    case None
    then show ?thesis
      using opened by (simp only: calls_bind extends_rules wpa_ctrl_close_def option.case
          calls_return append_Nil2)
  next
    case (Some c)
    then have "ctl_s c \<ge> 0"
      by (simp add: open_descriptor wpa_ctrl_open_def)
    then show ?thesis
      using opened by (simp add: calls_bind extends_rules Some held_wpa_ctrl_close)
  qed
qed

text \<open>The supplicant's path as the daemon gives it.\<close>

definition wlan0_path :: string where
  "wlan0_path = ''/var/run/wpa_supplicant/wlan0''"

lemma wlan0_fits: "dest_path wlan0_path = Some wlan0_path"
  by (simp add: dest_path_def os_strlcpy_spec wlan0_path_def sun_path_size_def)

theorem open_close_balanced_witness:
  "held (\<lambda>h c. reply (if c = Ctl (ConnectUnix 1 wlan0_path) then - 1 else 1) ENOENT) []
     (calls (wpa_ctrl_open (\<lambda>h c. reply (if c = Ctl (ConnectUnix 1 wlan0_path) then - 1 else 1) ENOENT)
       (Some wlan0_path)) []) {} = {}"
proof -
  let ?env = "\<lambda>h c. reply (if c = Ctl (ConnectUnix 1 wlan0_path) then - 1 else 1) ENOENT"
  have "length (client_path None 1 1) < sun_path_size"
    by code_simp
  then have "outcome (wpa_ctrl_open ?env (Some wlan0_path)) [] = None"
    by (simp add: wpa_ctrl_open_def wpa_ctrl_open2_def open_connect_def wlan0_fits run_simps
        extends_rules os_snprintf_error_def numeral_2_eq_2 Let_def)
  then show ?thesis
    using open_close_balanced[of wlan0_path ?env "[]"] by (simp add: wlan0_fits)
qed


text \<open>A path too long for a socket address, that is not abstract, is noticed after the
  client's socket file is bound; the call fails and the file stays behind.\<close>

theorem overlong_path_leaves_file:
  assumes "\<not> prefix ''@abstract:'' path" and "length path \<ge> 108"
    and "rc (env h (Ctl Zalloc)) \<noteq> 0" and "rc (env (h @ [Ctl Zalloc]) (Ctl DgramSocket)) = s" "s \<ge> 0"
    and "outcome (bind_client env s None 2) (h @ [Ctl Zalloc, Ctl DgramSocket, Ctl IncCounter]) = Some p"
  shows "outcome (wpa_ctrl_open env (Some path)) h = None \<and>
    held env h (calls (wpa_ctrl_open env (Some path)) h) {} = {SocketFile p}"
proof -
  let ?h = "h @ [Ctl Zalloc, Ctl DgramSocket, Ctl IncCounter]"
  have "dest_path path = None"
    using assms(1,2) by (simp add: dest_path_def os_strlcpy_spec sun_path_size_def)
  moreover have "held env ?h (calls (bind_client env s None 2) ?h) {Memory, Socket s} =
      {Memory, Socket s, SocketFile p}"
    using assms(6) held_bind_client[of "{Memory, Socket s}" s env ?h s None 2] by auto
  ultimately show ?thesis
    using assms(3-6)
    by (auto simp: wpa_ctrl_open_def wpa_ctrl_open2_def open_connect_def run_simps extends_rules
        insert_commute)
qed

theorem overlong_path_leaves_file_witness:
  "held (\<lambda>h c. reply 1 EAGAIN) []
     (calls (wpa_ctrl_open (\<lambda>h c. reply 1 EAGAIN) (Some (replicate 108 (CHR ''x'')))) []) {} =
   {SocketFile ''/tmp/wpa_ctrl_1-1''}"
proof -
  have "client_path None 1 1 = ''/tmp/wpa_ctrl_1-1''"
    by code_simp
  then have "outcome (bind_client (\<lambda>h c. reply 1 EAGAIN) 1 None 2)
      [Ctl Zalloc, Ctl DgramSocket, Ctl IncCounter] = Some ''/tmp/wpa_ctrl_1-1''"
    by (simp add: run_simps extends_rules os_snprintf_error_def sun_path_size_def Let_def
        numeral_2_eq_2)
  moreover have "\<not> prefix ''@abstract:'' (replicate 108 (CHR ''x''))"
    by code_simp
  ultimately show ?thesis
    using overlong_path_leaves_file[of "replicate 108 (CHR ''x'')" "\<lambda>h c. reply 1 EAGAIN" "[]" 1]
    by simp
qed

text \<open>However many unsolicited messages arrive before it, the first other message is the
  reply: the request returns it, cut to the buffer, and passes the unsolicited ones to the
  callback in their order, if there is one.\<close>

theorem request_finds_reply:
  assumes "delivers env (ctl_s ctrl) h (us @ [r])" and "list_all unsolicited us"
    and "\<not> unsolicited r" and "7 \<le> len" and "length us < fuel"
  shows "outcome (wpa_ctrl_request env fuel ctrl cmd len cb) h =
    Some (0, take len r, if cb then map (take (len - 1)) us else [])"
proof -
  obtain n where fuel: "fuel = Suc n" using assms(5) by (cases fuel) auto
  have "rc (env h (Ctl (CtlSend (ctl_s ctrl) cmd))) \<ge> 0"
    using deliversD(1)[OF assms(1), of "[]" cmd] by simp
  then have sent: "outcome (retry_send env (ctl_s ctrl) cmd fuel (0, 0)) h = Some True"
    "calls (retry_send env (ctl_s ctrl) cmd fuel (0, 0)) h = [Ctl (CtlSend (ctl_s ctrl) cmd)]"
    by (simp_all add: fuel run_simps extends_rules)
  have "outcome (wait_reply env (ctl_s ctrl) len cb fuel [])
      (h @ [Ctl (CtlSend (ctl_s ctrl) cmd)]) =
      Some (0, take len r, if cb then [] @ map (take (len - 1)) us else [])"
    using assms by (intro wait_reply_delivers[where seen = "[]"]) simp_all
  then show ?thesis
    by (simp add: wpa_ctrl_request_def run_simps extends_rules sent)
qed

text \<open>A supplicant that sends three events, and then agrees to a request on descriptor 5.\<close>

definition chatty_msgs :: "string list" where
  "chatty_msgs = [''<3>CTRL-EVENT-SCAN-STARTED '', ''IFNAME=wlan0 <3>x'', ''<3>y'', attach_ok]"

definition chatty :: env where
  "chatty h c =
     (case c of
        Ctl (CtlRecv s n) \<Rightarrow>
          (let k = recvs s h; msg = (if k < length chatty_msgs then take n (chatty_msgs ! k) else [])
           in (reply (int (length msg)) EAGAIN)\<lparr>content := msg\<rparr>)
      | Ctl (SelectRead s t) \<Rightarrow> (reply 1 EAGAIN)\<lparr>ready := [(s, [EPOLLIN])]\<rparr>
      | _ \<Rightarrow> reply 5 EAGAIN)"

lemma chatty_delivers: "delivers chatty s [] chatty_msgs"
  by (simp add: delivers_def chatty_def Let_def received_def min_def)

theorem request_finds_reply_witness:
  "outcome (wpa_ctrl_request chatty 4 \<lparr>ctl_s = 5, ctl_local = [], ctl_dest = []\<rparr> ''ATTACH'' 10 True) [] =
     Some (0, attach_ok, [''<3>CTRL-E'', ''IFNAME=wl'', ''<3>y''])"
proof -
  let ?us = "[''<3>CTRL-EVENT-SCAN-STARTED '', ''IFNAME=wlan0 <3>x'', ''<3>y'']"
  have "delivers chatty 5 [] (?us @ [attach_ok])"
    using chatty_delivers by (simp add: chatty_msgs_def)
  then show ?thesis
    using request_finds_reply[of chatty "\<lparr>ctl_s = 5, ctl_local = [], ctl_dest = []\<rparr>" "[]" ?us
        attach_ok 10 4 "''ATTACH''" True]
    by (simp add: unsolicited_def attach_ok_def)
qed

text \<open>C39: while the supplicant's queue stays full the command is sent again once a second, and
  given up after more than five seconds: with a running clock seven rounds are always enough,
  and more rounds change nothing.\<close>

theorem sending_gives_up:
  assumes "clock_runs env" and "7 \<le> n"
  shows "outcome (retry_send env s cmd n (0, 0)) h \<noteq> None \<and>
    run_state (retry_send env s cmd n (0, 0)) h = run_state (retry_send env s cmd 7 (0, 0)) h \<and>
    sends (calls (retry_send env s cmd n (0, 0)) h) \<le> 7"
proof -
  have same: "run_state (retry_send env s cmd n (0, 0)) h = run_state (retry_send env s cmd 7 (0, 0)) h"
    using assms by (intro more_rounds_same retry_send_ends) simp_all
  then have "calls (retry_send env s cmd n (0, 0)) h = calls (retry_send env s cmd 7 (0, 0)) h"
    by (simp add: calls_def)
  then show ?thesis
    using same retry_send_ends[OF assms] sends_retry_send[of env s cmd 7] by simp
qed

text \<open>A supplicant that never takes a command, and a clock that advances by sleeping only.\<close>

definition stuck :: env where
  "stuck h c =
     (case c of
        Ctl GetTimeOfDay \<Rightarrow> (reply 0 EAGAIN)\<lparr>clock := (1 + slept h, 0)\<rparr>
      | _ \<Rightarrow> reply (- 1) EAGAIN)"

lemma slept_nonneg: "0 \<le> slept cs"
  by (induction cs rule: slept.induct) simp_all

theorem sending_gives_up_witness:
  "outcome (retry_send stuck 5 ''ATTACH'' 7 (0, 0)) [] = Some False \<and>
   sends (calls (retry_send stuck 5 ''ATTACH'' 9 (0, 0)) []) \<le> 7"
proof -
  have runs: "clock_runs stuck"
    by (simp add: clock_runs_def stuck_def Let_def micros_def slept_nonneg)
  have "outcome (retry_send stuck 5 ''ATTACH'' 7 (0, 0)) [] = Some False"
    by (simp add: eval_nat_numeral run_simps extends_rules stuck_def os_get_reltime_def
        os_reltime_expired_def Let_def)
  then show ?thesis
    using sending_gives_up[OF runs, of 9 5 "''ATTACH''" "[]"] by simp
qed

end
