(* ===== verification/Wpa_Loop.thy ===== *)
theory Wpa_Loop
  imports Wpa_Ctrl Wpa_Monitor
begin

text \<open>
  \<^verbatim>\<open>WpaMonitor::start\<close> and \<^verbatim>\<open>runEventLoop\<close> of \<^verbatim>\<open>wpa/wpa_monitor.cpp\<close>: one monitor's thread, from
  the first attempt to reach its supplicant to the return after \<^verbatim>\<open>stop\<close>. The stop flag is shared
  with the main thread, so that a load is a call that the environment answers; what is assumed of the
  answers is said where it is used. The callback acts on the monitor's user and on the calls made so far.

  A loop is given a number of rounds; its first result says whether it returned within them.
\<close>

subsection \<open>The event loop\<close>

definition kRecvBufSize :: nat where "kRecvBufSize = 4096"

definition kPollTimeoutMs :: nat where "kPollTimeoutMs = 500"

type_synonym 's callback = "(WpaEvent \<Rightarrow> 's \<times> call list \<Rightarrow> 's \<times> call list) option"

text \<open>\<^verbatim>\<open>handleEvent\<close> as a program: does the loop end, and the user after the callback.\<close>

definition deliver :: "'s callback \<Rightarrow> string \<Rightarrow> string \<Rightarrow> 's \<Rightarrow> (bool \<times> 's) os" where
  "deliver cb iface raw s =
     State (\<lambda>h. let (ended, s', h') = handleEvent cb iface raw (s, h) in ((ended, s'), h'))"

fun runEventLoop ::
  "env \<Rightarrow> 's callback \<Rightarrow> string \<Rightarrow> wpa_ctrl \<Rightarrow> nat \<Rightarrow> 's \<Rightarrow> (bool \<times> 's) os" where
  "runEventLoop env cb iface ctrl 0 s = return (False, s)"
| "runEventLoop env cb iface ctrl (Suc n) s = do {
     requested \<leftarrow> perform env (Flag LoadStop);
     (if rc requested \<noteq> 0 then return (True, s)
      else do {
        ret \<leftarrow> perform env (Ctl (PollIn (wpa_ctrl_get_fd ctrl) kPollTimeoutMs));
        (if rc ret < 0 then
           if err ret = EINTR then runEventLoop env cb iface ctrl n s else return (True, s)
         else if rc ret = 0 then runEventLoop env cb iface ctrl n s
         else if \<not> list_ex (\<lambda>r. EPOLLIN \<in> set (snd r)) (ready ret) then
           runEventLoop env cb iface ctrl n s
         else do {
           line \<leftarrow> wpa_ctrl_recv env ctrl (kRecvBufSize - 1);
           (case line of
              None \<Rightarrow> return (True, s)
            | Some raw \<Rightarrow> do {
                r \<leftarrow> deliver cb iface raw s;
                (if fst r then return (True, snd r)
                 else runEventLoop env cb iface ctrl n (snd r)) }) }) }) }"

subsection \<open>The reconnect loop\<close>

datatype attempt = StillTrying | NotAttached | ConnectionLost

text \<open>One round up to the end of the connection; \<open>fuel\<close> bounds the loops inside.\<close>

definition try_connection ::
  "env \<Rightarrow> 's callback \<Rightarrow> string \<Rightarrow> string \<Rightarrow> nat \<Rightarrow> 's \<Rightarrow> (attempt \<times> 's) os" where
  "try_connection env cb iface path fuel s = do {
     opened \<leftarrow> wpa_ctrl_open env (Some path);
     (case opened of
        None \<Rightarrow> return (NotAttached, s)
      | Some ctrl \<Rightarrow> do {
          a \<leftarrow> wpa_ctrl_attach env fuel ctrl;
          (case a of
             None \<Rightarrow> return (StillTrying, s)
           | Some r \<Rightarrow>
               if r \<noteq> 0 then do {
                 _ \<leftarrow> wpa_ctrl_close env (Some ctrl);
                 return (NotAttached, s) }
               else do {
                 done_loop \<leftarrow> runEventLoop env cb iface ctrl fuel s;
                 (if \<not> fst done_loop then return (StillTrying, snd done_loop)
                  else do {
                    d \<leftarrow> wpa_ctrl_detach env fuel ctrl;
                    (case d of
                       None \<Rightarrow> return (StillTrying, snd done_loop)
                     | Some _ \<Rightarrow> do {
                         _ \<leftarrow> wpa_ctrl_close env (Some ctrl);
                         return (ConnectionLost, snd done_loop) }) }) }) }) }"

text \<open>A successful attach resets the waiting time. After a lost connection the flag is read once
  more than after a failed attempt.\<close>

fun reconnect_loop ::
  "env \<Rightarrow> 's callback \<Rightarrow> string \<Rightarrow> string \<Rightarrow> nat \<Rightarrow> nat \<Rightarrow> nat \<Rightarrow> 's \<Rightarrow> (bool \<times> 's) os" where
  "reconnect_loop env cb iface path fuel 0 backoff s = return (False, s)"
| "reconnect_loop env cb iface path fuel (Suc n) backoff s = do {
     requested \<leftarrow> perform env (Flag LoadStop);
     (if rc requested \<noteq> 0 then return (True, s)
      else do {
        r \<leftarrow> try_connection env cb iface path fuel s;
        (if fst r = StillTrying then return (False, snd r)
         else do {
           lost \<leftarrow> (if fst r = ConnectionLost then perform env (Flag LoadStop) else return (reply 0 EAGAIN));
           (if rc lost \<noteq> 0 then return (True, snd r)
            else do {
              again \<leftarrow> perform env (Flag LoadStop);
              (if rc again \<noteq> 0 then return (True, snd r)
               else do {
                 let b = (if fst r = ConnectionLost then kInitialBackoff else backoff);
                 _ \<leftarrow> perform env (Flag (WaitStop b));
                 reconnect_loop env cb iface path fuel n (next_backoff b) (snd r) }) }) }) }) }"

text \<open>The result is \<open>None\<close> while the thread runs; it never is an error.\<close>

definition start_monitor ::
  "env \<Rightarrow> 's callback \<Rightarrow> string \<Rightarrow> string \<Rightarrow> nat \<Rightarrow> nat \<Rightarrow> 's \<Rightarrow> (WpaError status option \<times> 's) os" where
  "start_monitor env cb iface path fuel n s = do {
     _ \<leftarrow> perform env (Flag (StoreStop False));
     r \<leftarrow> reconnect_loop env cb iface path fuel n kInitialBackoff s;
     return (if fst r then Some ok else None, snd r) }"

definition stop_monitor :: "env \<Rightarrow> unit os" where
  "stop_monitor env = do {
     _ \<leftarrow> perform env (Flag (StoreStop True));
     _ \<leftarrow> perform env (Flag NotifyAll);
     return () }"

text \<open>The destructor, with the connection that is still open, if there is one.\<close>

definition destroy_monitor :: "env \<Rightarrow> nat \<Rightarrow> wpa_ctrl option \<Rightarrow> unit os" where
  "destroy_monitor env fuel ctrl = do {
     _ \<leftarrow> stop_monitor env;
     (case ctrl of
        None \<Rightarrow> return ()
      | Some c \<Rightarrow> do {
          _ \<leftarrow> wpa_ctrl_detach env fuel c;
          wpa_ctrl_close env (Some c) }) }"


subsection \<open>Lines received\<close>

text \<open>The lines that the event loops take from the supplicant; the replies to the requests are
  received into a smaller buffer.\<close>

fun event_line :: "call \<times> answer \<Rightarrow> string option" where
  "event_line (Ctl (CtlRecv s n), a) =
     (if n = kRecvBufSize - 1 \<and> rc a \<ge> 0 then Some (received a) else None)"
| "event_line _ = None"

definition event_lines :: "env \<Rightarrow> call list \<Rightarrow> call list \<Rightarrow> string list" where
  "event_lines env h cs = view event_line (exchanges env h cs)"

lemma event_lines_simps [simp]:
  "event_lines env h [] = []"
  "event_lines env h (c # cs) =
     (case event_line (c, env h c) of None \<Rightarrow> event_lines env (h @ [c]) cs
      | Some l \<Rightarrow> l # event_lines env (h @ [c]) cs)"
  "event_lines env h (cs @ ds) = event_lines env h cs @ event_lines env (h @ cs) ds"
  by (simp_all add: event_lines_def exchanges_append split: option.split)

lemma no_lines_bind_client [simp]: "event_lines env h (calls (bind_client env' s cli n) h') = []"
  by (induction n arbitrary: h h') (simp_all add: run_simps extends_rules Let_def)

lemma no_lines_open [simp]:
  "event_lines env h (calls (set_nonblocking env' s) h') = []"
  "event_lines env h (calls (open_connect env' s path p) h') = []"
  "event_lines env h (calls (wpa_ctrl_open env' path') h') = []"
  "event_lines env h (calls (wpa_ctrl_close env' ctrl) h') = []"
  by (simp_all add: set_nonblocking_def open_connect_def wpa_ctrl_open_def wpa_ctrl_open2_def
      wpa_ctrl_close_def run_simps extends_rules split: option.split)

lemma no_lines_retry_send [simp]: "event_lines env h (calls (retry_send env' s cmd n t) h') = []"
  by (induction n arbitrary: t h h') (simp_all add: run_simps extends_rules os_get_reltime_def)

lemma no_lines_wait_reply [simp]:
  "len < kRecvBufSize - 1 \<Longrightarrow> event_lines env h (calls (wait_reply env' s len b n msgs) h') = []"
  by (induction n arbitrary: msgs h h') (simp_all add: run_simps extends_rules)

lemma no_lines_attach [simp]:
  "event_lines env h (calls (wpa_ctrl_attach env' fuel ctrl) h') = []"
  "event_lines env h (calls (wpa_ctrl_detach env' fuel ctrl) h') = []"
  by (simp_all add: wpa_ctrl_attach_def wpa_ctrl_detach_def wpa_ctrl_attach_helper_def
      wpa_ctrl_request_def run_simps extends_rules kRecvBufSize_def split: option.split)

lemma recv_event_lines:
  "event_lines env h (calls (wpa_ctrl_recv env ctrl (kRecvBufSize - 1)) h) =
     (case outcome (wpa_ctrl_recv env ctrl (kRecvBufSize - 1)) h of None \<Rightarrow> [] | Some l \<Rightarrow> [l])"
  by (simp add: wpa_ctrl_recv_def run_simps extends_rules)

lemma calls_recv [simp]:
  "calls (wpa_ctrl_recv env ctrl n) h = [Ctl (CtlRecv (ctl_s ctrl) n)]"
  by (simp add: wpa_ctrl_recv_def run_simps extends_rules)

text \<open>The seconds that the reconnect loop waits between its attempts.\<close>

fun wait_of :: "call \<Rightarrow> nat option" where
  "wait_of (Flag (WaitStop b)) = Some b"
| "wait_of _ = None"

definition waits :: "call list \<Rightarrow> nat list" where
  "waits cs = view wait_of cs"

lemma waits_simps [simp]:
  "waits [] = []" "waits (cs @ ds) = waits cs @ waits ds"
  "waits (c # cs) = (case wait_of c of None \<Rightarrow> waits cs | Some b \<Rightarrow> b # waits cs)"
  by (simp_all add: waits_def split: option.split)

lemma no_waits_bind_client [simp]: "waits (calls (bind_client env s cli n) h) = []"
  by (induction n arbitrary: h) (simp_all add: run_simps extends_rules Let_def)

lemma no_waits_open [simp]: "waits (calls (wpa_ctrl_open env path) h) = []"
  by (simp add: set_nonblocking_def open_connect_def wpa_ctrl_open_def wpa_ctrl_open2_def
      run_simps extends_rules split: option.split)

text \<open>From the \<open>T\<close>-th call on the flag reads true: \<^verbatim>\<open>stop\<close> has been called, and nobody clears it.\<close>

definition stopped_from :: "env \<Rightarrow> nat \<Rightarrow> bool" where
  "stopped_from env T \<longleftrightarrow> (\<forall>h. T \<le> length h \<longrightarrow> rc (env h (Flag LoadStop)) \<noteq> 0)"

text \<open>The attach and detach requests return within the rounds they are given.\<close>

definition requests_return :: "env \<Rightarrow> nat \<Rightarrow> bool" where
  "requests_return env fuel \<longleftrightarrow>
     (\<forall>ctrl attach h. outcome (wpa_ctrl_attach_helper env fuel ctrl attach) h \<noteq> None)"

lemma requests_returnD:
  "requests_return env fuel \<Longrightarrow> outcome (wpa_ctrl_attach env fuel ctrl) h = None \<Longrightarrow> False"
  "requests_return env fuel \<Longrightarrow> outcome (wpa_ctrl_detach env fuel ctrl) h = None \<Longrightarrow> False"
  by (unfold requests_return_def wpa_ctrl_attach_def wpa_ctrl_detach_def) blast+

subsection \<open>A monitor with its callback\<close>

text \<open>The contract of a callback: it only adds calls.\<close>

locale event_callback =
  fixes cb :: "(WpaEvent \<Rightarrow> 's \<times> call list \<Rightarrow> 's \<times> call list) option"
  assumes extends_deliver: "extends (deliver cb iface raw s)"
begin

lemma extends_runEventLoop: "extends (runEventLoop env cb iface ctrl n s)"
proof (induction n arbitrary: s)
  case (Suc n)
  then show ?case
    unfolding runEventLoop.simps by (intro extends_rules extends_deliver)
qed simp

lemma extends_try_connection: "extends (try_connection env cb iface path fuel s)"
  unfolding try_connection_def by (intro extends_rules extends_runEventLoop)

lemma extends_reconnect_loop: "extends (reconnect_loop env cb iface path fuel n backoff s)"
proof (induction n arbitrary: backoff s)
  case (Suc n)
  then show ?case
    unfolding reconnect_loop.simps Let_def by (intro extends_rules extends_try_connection)
qed simp

lemma extends_start_monitor: "extends (start_monitor env cb iface path fuel n s)"
  unfolding start_monitor_def by (intro extends_rules extends_reconnect_loop)

lemmas loop_extends = extends_deliver extends_runEventLoop extends_try_connection
  extends_reconnect_loop extends_start_monitor

text \<open>From the moment the flag reads true for good, a loop with a round left returns.\<close>

lemma event_loop_returns:
  assumes "stopped_from env T"
  shows "0 < n \<Longrightarrow> T < length h + n \<Longrightarrow> fst (outcome (runEventLoop env cb iface ctrl n s) h)"
proof (induction n arbitrary: s h)
  case (Suc n)
  show ?case
  proof (cases "rc (env h (Flag LoadStop)) = 0")
    case True
    then have "length h < T" using assms by (auto simp: stopped_from_def not_le[symmetric])
    then have "fst (outcome (runEventLoop env cb iface ctrl n s') (h @ c # cs))" for s' c cs
      using Suc by (intro Suc.IH) auto
    then show ?thesis
      using True by (auto simp: run_simps extends_rules loop_extends split: option.split)
  qed (simp add: run_simps extends_rules loop_extends)
qed simp

lemma attempt_returns:
  assumes "stopped_from env T" and "T < fuel"
    and "requests_return env fuel"
  shows "fst (outcome (try_connection env cb iface path fuel s) h) \<noteq> StillTrying"
proof -
  have loop: "fst (outcome (runEventLoop env cb iface ctrl fuel s) h')" for ctrl h'
    using assms(2) by (intro event_loop_returns[OF assms(1)]) auto
  show ?thesis
    by (auto simp: try_connection_def run_simps extends_rules loop_extends loop split: option.split
        dest: requests_returnD[OF assms(3)])
qed

lemma reconnect_returns:
  assumes "stopped_from env T" and "T < fuel"
    and "requests_return env fuel"
  shows "0 < n \<Longrightarrow> T < length h + n \<Longrightarrow>
    fst (outcome (reconnect_loop env cb iface path fuel n backoff s) h)"
proof (induction n arbitrary: backoff s h)
  case (Suc n)
  show ?case
  proof (cases "rc (env h (Flag LoadStop)) = 0")
    case True
    then have "length h < T" using assms(1) by (auto simp: stopped_from_def not_le[symmetric])
    then have "fst (outcome (reconnect_loop env cb iface path fuel n b s') (h @ c # cs))" for b s' c cs
      using Suc by (intro Suc.IH) auto
    then show ?thesis
      using True attempt_returns[OF assms]
      by (simp add: run_simps extends_rules loop_extends Let_def)
  qed (simp add: run_simps extends_rules loop_extends)
qed simp

text \<open>Waits of a loop that never gets a connection.\<close>

lemma unreachable_waits:
  assumes "\<And>h. outcome (wpa_ctrl_open env (Some path)) h = None"
    and "\<And>h. rc (env h (Flag LoadStop)) = 0"
  shows "waits (calls (reconnect_loop env cb iface path fuel n backoff s) h) =
      backoff_waits backoff (replicate n False)"
proof (induction n arbitrary: backoff s h)
  case (Suc n)
  have "outcome (try_connection env cb iface path fuel s) h = (NotAttached, s)"
    "waits (calls (try_connection env cb iface path fuel s) h) = []" for h s
    by (simp_all add: try_connection_def run_simps extends_rules loop_extends assms(1))
  then show ?case
    using assms(2) Suc.IH by (simp add: run_simps extends_rules loop_extends Let_def)
qed (simp add: waits_def)

text \<open>While it always reads false, nothing returns.\<close>

lemma reconnect_runs_on:
  assumes "\<And>cs. rc (env (h @ cs) (Flag LoadStop)) = 0"
  shows "\<not> fst (outcome (reconnect_loop env cb iface path fuel n backoff s) (h @ cs))"
proof (induction n arbitrary: backoff s cs)
  case (Suc n)
  have "\<not> fst (outcome (reconnect_loop env cb iface path fuel n b s') (h @ cs @ c # cs'))" for b s' c cs'
    using Suc.IH[of b s' "cs @ c # cs'"] by simp
  then show ?case
    using assms by (simp add: run_simps extends_rules loop_extends Let_def)
qed simp

end

text \<open>A callback that takes none of the resources a connection holds; it may close descriptors.\<close>

locale modest_callback = event_callback cb
  for cb :: "(WpaEvent \<Rightarrow> 's \<times> call list \<Rightarrow> 's \<times> call list) option" +
  assumes held_deliver: "held env h' (calls (deliver cb iface raw s) h) H \<subseteq> H"
begin

lemma held_runEventLoop: "held env h' (calls (runEventLoop env' cb iface ctrl n s) h) H \<subseteq> H"
proof (induction n arbitrary: s h h' H)
  case (Suc n)
  have "held env h1 (calls (runEventLoop env' cb iface ctrl n s1) h2)
      (held env h3 (calls (deliver cb iface raw s) h4) H) \<subseteq> H" for h1 h2 h3 h4 s1 raw
    using held_deliver Suc.IH by (meson subset_trans)
  then show ?case
    using Suc.IH held_deliver by (simp add: run_simps extends_rules loop_extends split: option.split)
qed simp

text \<open>An over-long control path leaves the socket files of the attempts behind, and nothing else.\<close>

abbreviation left_files :: "string \<Rightarrow> resource set" where
  "left_files path \<equiv> if dest_path path = None then range SocketFile else {}"

lemma held_attempt:
  assumes "fst (outcome (try_connection env cb iface path fuel s) h) \<noteq> StillTrying"
  shows "held env h (calls (try_connection env cb iface path fuel s) h) {} \<subseteq> left_files path"
proof (cases "outcome (wpa_ctrl_open env (Some path)) h")
  case None
  have "held env h (calls (wpa_ctrl_open env (Some path)) h) {} \<subseteq> left_files path"
    using held_wpa_ctrl_open2[of env h "Some path" None] None
    unfolding wpa_ctrl_open_def by (elim disjE conjE exE) simp_all
  with None show ?thesis
    by (simp add: try_connection_def run_simps extends_rules loop_extends)
next
  case (Some ctrl)
  then have "ctl_s ctrl \<ge> 0"
    by (simp add: open_descriptor wpa_ctrl_open_def)
  then have closed: "held env h1 (calls (wpa_ctrl_close env (Some ctrl)) h2) H = {}"
    if "H \<subseteq> connection ctrl" for h1 h2 H
    using that held_mono held_wpa_ctrl_close by (metis subset_empty)
  have opened: "held env h (calls (wpa_ctrl_open env (Some path)) h) {} = connection ctrl"
    using Some held_wpa_ctrl_open2[of env h "Some path" None] by (auto simp: wpa_ctrl_open_def)
  have "held env h (calls (try_connection env cb iface path fuel s) h) {} = {}"
    using Some closed opened assms held_runEventLoop
    by (auto simp: try_connection_def run_simps extends_rules loop_extends
        split: option.splits if_splits)
  then show ?thesis
    by simp
qed

lemma held_reconnect:
  "fst (outcome (reconnect_loop env cb iface path fuel n backoff s) h) \<Longrightarrow>
    held env h (calls (reconnect_loop env cb iface path fuel n backoff s) h) {} \<subseteq> left_files path"
proof (induction n arbitrary: backoff s h)
  case (Suc n)
  let ?attempt = "try_connection env cb iface path fuel s" and ?h = "h @ [Flag LoadStop]"
  define L where "L = left_files path"
  have "held env ?h (calls ?attempt ?h) {} \<subseteq> L" if "fst (outcome ?attempt ?h) \<noteq> StillTrying"
    using held_attempt[OF that] by (simp add: L_def)
  with Suc show ?case
    unfolding L_def[symmetric]
    by (simp add: run_simps extends_rules loop_extends Let_def split: if_splits)
      ((intro conjI impI)?, (rule held_within, simp, simp)+)+
qed simp

end

text \<open>A callback by which a part of the user (\<open>seen\<close>) takes one step per event.\<close>

locale event_consumer = event_callback cb
  for cb :: "(WpaEvent \<Rightarrow> 's \<times> call list \<Rightarrow> 's \<times> call list) option" +
  fixes seen :: "'s \<Rightarrow> 'm" and eat :: "WpaEvent \<Rightarrow> 'm \<Rightarrow> 'm"
  assumes seen_deliver:
      "seen (snd (outcome (deliver cb iface raw s) h)) = eat (parseEvent raw iface) (seen s)"
    and no_lines_deliver: "event_lines env h' (calls (deliver cb iface raw s) h) = []"
begin

abbreviation eat_lines :: "string \<Rightarrow> string list \<Rightarrow> 'm \<Rightarrow> 'm" where
  "eat_lines iface \<equiv> fold (\<lambda>raw. eat (parseEvent raw iface))"

lemma seen_runEventLoop:
  "seen (snd (outcome (runEventLoop env cb iface ctrl n s) h)) =
     eat_lines iface (event_lines env h (calls (runEventLoop env cb iface ctrl n s) h)) (seen s)"
proof (induction n arbitrary: s h)
  case (Suc n)
  show ?case
    by (auto simp add: run_simps extends_rules loop_extends Suc.IH seen_deliver no_lines_deliver
        wpa_ctrl_recv_def split: option.split)
qed simp

lemma seen_attempt:
  "seen (snd (outcome (try_connection env cb iface path fuel s) h)) =
     eat_lines iface (event_lines env h (calls (try_connection env cb iface path fuel s) h)) (seen s)"
  by (simp add: try_connection_def run_simps extends_rules loop_extends seen_runEventLoop
      split: option.split)

lemma seen_reconnect:
  "seen (snd (outcome (reconnect_loop env cb iface path fuel n backoff s) h)) =
     eat_lines iface (event_lines env h (calls (reconnect_loop env cb iface path fuel n backoff s) h)) (seen s)"
  by (induction n arbitrary: backoff s h)
    (simp_all add: run_simps extends_rules loop_extends seen_attempt Let_def)

lemma seen_start:
  "seen (snd (outcome (start_monitor env cb iface path fuel n s) h)) =
     eat_lines iface (event_lines env h (calls (start_monitor env cb iface path fuel n s) h)) (seen s)"
  by (simp add: start_monitor_def run_simps extends_rules loop_extends seen_reconnect)

end

end
