(* ===== verification/Monitor_Thread.thy ===== *)
theory Monitor_Thread
  imports Daemon Wpa_Loop
begin

text \<open>
  A monitor's thread with the callback \<^verbatim>\<open>main.cpp\<close> gives it, which drives the state machine of its
  class and through it the routes, the MPTCP endpoints and the server. The thread delivers to
  its machine what the daemon of theory Daemon takes as line events; it gives back what its
  connections took; it returns after a stop, unless the stop came before it started.
\<close>

subsection \<open>The callback\<close>

text \<open>The machine and the server; the callbacks of the machine are those of its class and never change.\<close>

type_synonym monitored = "world PathStateFsm \<times> ConsumerApiServer"

definition monitor_callback ::
  "env \<Rightarrow> nat \<Rightarrow> nat \<Rightarrow> PathClassConfig list \<Rightarrow> PathClassConfig \<Rightarrow> monitored callback" where
  "monitor_callback env bits fuel classes cls =
     Some (\<lambda>ev (u, h).
       let (m, s', h') = onWpaEvent ev
             (fst u\<lparr>fsm_callbacks := class_callbacks env bits fuel classes cls\<rparr>, (snd u, h))
       in ((m, s'), h'))"

subsection \<open>Calls of the callback\<close>

text \<open>The calls that only the control client and the flag make, and the binding of sockets.\<close>

fun monitor_call :: "call \<Rightarrow> bool" where
  "monitor_call (Ctl c) = True"
| "monitor_call (Flag c) = True"
| "monitor_call (Sock (BindUnix s p)) = True"
| "monitor_call _ = False"

definition count_step :: "call \<Rightarrow> nat \<Rightarrow> nat" where
  "count_step c n = (if monitor_call c then Suc n else n)"

lemma count_step_simps [simp]: "\<not> monitor_call c \<Longrightarrow> count_step c n = n"
  by (simp add: count_step_def)

lemma fold_count: "fold count_step cs n = n + length (filter monitor_call cs)"
  by (induction cs arbitrary: n) (simp_all add: count_step_def)

lemma silent_no_monitor_call:
  "silent count_step p \<Longrightarrow> list_all (\<lambda>c. \<not> monitor_call c) (calls p h)"
  using silentD(2)[of count_step p h 0] by (simp add: fold_count filter_empty_conv list_all_iff)

lemma silent_count_on_path [silent_rules]:
  "silent count_step (on_path_up env bits fuel classes cls i t)"
  "silent count_step (on_path_down env i t)"
  by (rule silent_on_path; simp)+

lemma silent_count_send_loop [silent_rules]: "silent count_step (send_loop env fd p)"
proof (induction env fd p rule: send_loop.induct)
  case (1 env fd p)
  then show ?case
    by (subst send_loop.simps) (auto intro!: silent_return silent_bind silent_perform)
qed

lemma silent_count_send_to_class [silent_rules]: "silent count_step (send_to_class env msg c es)"
  by (induction es) (auto simp: trySendMsg_def intro!: silent_rules)

lemma silent_count_remove_dead [silent_rules]: "silent count_step (remove_dead env fds s)"
proof (induction fds arbitrary: s)
  case (Cons fd fds)
  then show ?case
    unfolding remove_dead.simps Let_def removeCgroupPid_def append_pid_def
    by (intro silent_rules; simp)
qed (simp add: silent_return)

lemma silent_count_on_state_changed [silent_rules]:
  "silent count_step (on_state_changed env cls to i r s)"
  unfolding on_state_changed_def broadcastPathEvent_def Let_def by (intro silent_rules)


lemma silent_extends_act:
  "\<exists>t. snd (act (class_callbacks env bits fuel classes cls) a (s, h)) = h @ t \<and>
     list_all (\<lambda>c. \<not> monitor_call c) t"
  by (cases a) (simp_all add: silent_no_monitor_call silent_count_on_path
      silent_count_on_state_changed del: act.simps)

lemma acts_extend:
  "\<exists>t. snd (fold (act (class_callbacks env bits fuel classes cls)) as (s, h)) = h @ t \<and>
     list_all (\<lambda>c. \<not> monitor_call c) t"
proof (induction as arbitrary: s h)
  case (Cons a as)
  let ?cb = "class_callbacks env bits fuel classes cls"
  obtain s1 t1 where a: "act ?cb a (s, h) = (s1, h @ t1)" "list_all (\<lambda>c. \<not> monitor_call c) t1"
    using silent_extends_act[of env bits fuel classes cls a s h] by (metis prod.collapse)
  obtain t2 where "snd (fold (act ?cb) as (s1, h @ t1)) = (h @ t1) @ t2"
    "list_all (\<lambda>c. \<not> monitor_call c) t2"
    using Cons.IH by blast
  with a show ?case
    by (intro exI[of _ "t1 @ t2"]) (simp del: act.simps)
qed simp

text \<open>What an event does to the machine and to the calls, through the callback.\<close>

lemma deliver_callback:
  "\<exists>s' t. run_state (deliver (monitor_callback env bits fuel classes cls) iface raw (m, s)) h =
     ((ev_type (parseEvent raw iface) = Terminating,
       fst (onWpaEvent (parseEvent raw iface)
         (m\<lparr>fsm_callbacks := class_callbacks env bits fuel classes cls\<rparr>, (s, h))), s'), h @ t) \<and>
     list_all (\<lambda>c. \<not> monitor_call c) t"
proof -
  let ?m = "m\<lparr>fsm_callbacks := class_callbacks env bits fuel classes cls\<rparr>"
  let ?r = "onWpaEvent (parseEvent raw iface) (?m, (s, h))"
  obtain s' t where "snd ?r = (s', h @ t)" "list_all (\<lambda>c. \<not> monitor_call c) t"
    using acts_extend[of env bits fuel classes cls _ s h] unfolding onWpaEvent_world
    by simp (metis prod.collapse)
  then show ?thesis
    by (intro exI[of _ s'] exI[of _ t])
      (auto simp: deliver_def handleEvent_def monitor_callback_def Let_def split: prod.split)
qed

lemma no_monitor_call_effect:
  "list_all (\<lambda>c. \<not> monitor_call c) cs \<Longrightarrow> held env h cs H \<subseteq> H"
  "list_all (\<lambda>c. \<not> monitor_call c) cs \<Longrightarrow> event_lines env h cs = []"
proof (induction cs arbitrary: h H)
  case (Cons c cs)
  {
    case 1
    have "held_step (c, a) H \<subseteq> H" if "\<not> monitor_call c" for a
      using that by (cases "((c, a), H)" rule: held_step.cases) auto
    with 1 Cons.IH(1) show ?case
      by simp (meson subset_trans)
  next
    case 2
    then have "event_line (c, a) = None" for a
      by (cases "(c, a)" rule: event_line.cases) auto
    with 2 Cons.IH(2) show ?case by simp
  }
qed simp_all


subsection \<open>The thread\<close>

definition callback_step ::
  "env \<Rightarrow> nat \<Rightarrow> nat \<Rightarrow> PathClassConfig list \<Rightarrow> PathClassConfig \<Rightarrow> WpaEvent \<Rightarrow>
     world PathStateFsm \<Rightarrow> world PathStateFsm" where
  "callback_step env bits fuel classes cls ev m =
     fst (onWpaEvent ev
       (m\<lparr>fsm_callbacks := class_callbacks env bits fuel classes cls\<rparr>, (new_server [] [], [])))"

lemma deliver_machine:
  "fst (snd (outcome (deliver (monitor_callback env bits fuel classes cls) iface raw u) h)) =
     callback_step env bits fuel classes cls (parseEvent raw iface) (fst u)"
proof (cases u)
  case (Pair m s)
  then show ?thesis
    using deliver_callback[of env bits fuel classes cls iface raw m s h]
    by (auto simp: outcome_def callback_step_def onWpaEvent_machine)
qed

lemma deliver_calls:
  "list_all (\<lambda>c. \<not> monitor_call c)
     (calls (deliver (monitor_callback env bits fuel classes cls) iface raw u) h)"
proof (cases u)
  case (Pair m s)
  then show ?thesis
    using deliver_callback[of env bits fuel classes cls iface raw m s h]
    by (auto simp: calls_def)
qed

lemma extends_deliver: "extends (deliver (monitor_callback env bits fuel classes cls) iface raw u)"
  unfolding extends_def
proof
  fix h
  obtain m s where "u = (m, s)" by (cases u)
  then show "\<exists>t. snd (run_state (deliver (monitor_callback env bits fuel classes cls) iface raw u) h) = h @ t"
    using deliver_callback[of env bits fuel classes cls iface raw m s h] by auto
qed

interpretation monitor: modest_callback "monitor_callback env bits fuel classes cls"
  by unfold_locales (simp_all add: extends_deliver no_monitor_call_effect(1) deliver_calls)

interpretation monitor: event_consumer "monitor_callback env bits fuel classes cls"
    fst "callback_step env bits fuel classes cls"
  by unfold_locales (simp_all add: deliver_machine no_monitor_call_effect(2) deliver_calls)

lemma callback_step_own:
  assumes "fsm_callbacks (fst ms) = class_callbacks env bits fuel classes cls"
  shows "callback_step env bits fuel classes cls ev (fst ms) = fst (onWpaEvent ev ms)"
proof -
  have "fst ms\<lparr>fsm_callbacks := class_callbacks env bits fuel classes cls\<rparr> = fst ms"
    using assms by (intro PathStateFsm.equality) simp_all
  then show ?thesis
    by (simp add: callback_step_def onWpaEvent_machine)
qed

lemma callback_steps:
  "fold (\<lambda>raw. callback_step env bits fuel classes cls (parseEvent raw iface)) lines
     (new_fsm cls (class_callbacks env bits fuel classes cls)) =
   fst (fold onWpaEvent (map (\<lambda>raw. parseEvent raw iface) lines)
     (new_fsm cls (class_callbacks env bits fuel classes cls), w))"
  by (induction lines rule: rev_induct) (simp_all add: callback_step_own)


text \<open>The thread of one class, as \<^verbatim>\<open>main\<close> starts it.\<close>

definition monitor_thread ::
  "env \<Rightarrow> nat \<Rightarrow> nat \<Rightarrow> PathClassConfig list \<Rightarrow> PathClassConfig \<Rightarrow> nat \<Rightarrow> nat \<Rightarrow> ConsumerApiServer \<Rightarrow>
     (WpaError status option \<times> monitored) os" where
  "monitor_thread env bits fuel classes cls k n s =
     (let w = make_watch env bits fuel classes cls
      in start_monitor env (monitor_callback env bits fuel classes cls) (w_iface w) (w_ctrlPath w) k n
           (w_fsm w, s))"

lemma extends_monitor_thread [extends_rules]: "extends (monitor_thread env bits fuel classes cls k n s)"
  by (simp add: monitor_thread_def Let_def monitor.extends_start_monitor)

subsection \<open>The shared flag\<close>

text \<open>
  An atomic flag: a load reads the last store before it. \<open>stops h\<close> says that another thread calls
  \<^verbatim>\<open>stop\<close> after the calls \<open>h\<close>; the monitor's own stores are among its calls. The list of calls is
  newest first.
\<close>

fun flag_value :: "(call list \<Rightarrow> bool) \<Rightarrow> call list \<Rightarrow> bool" where
  "flag_value stops [] = stops []"
| "flag_value stops (c # past) =
     (stops (rev (c # past)) \<or> c \<noteq> Flag (StoreStop False) \<and> flag_value stops past)"

definition atomic_flag :: "(call list \<Rightarrow> bool) \<Rightarrow> env \<Rightarrow> bool" where
  "atomic_flag stops env \<longleftrightarrow> (\<forall>h. rc (env h (Flag LoadStop)) \<noteq> 0 \<longleftrightarrow> flag_value stops (rev h))"

lemma flag_cleared:
  assumes "\<And>h'. stops h' \<Longrightarrow> length h' \<le> length h"
  shows "\<not> flag_value stops (rev (h @ Flag (StoreStop False) # cs))"
proof (induction cs rule: rev_induct)
  case Nil
  then show ?case using assms by fastforce
next
  case (snoc c cs)
  then show ?case using assms by fastforce
qed

text \<open>A supplicant that opens, takes the attach request, and sends one line; then the thread is stopped.\<close>

definition one_line :: env where
  "one_line h c =
     (case c of
        Ctl (CtlRecv s n) \<Rightarrow>
          (let msg = (if n = 10 then attach_ok else ''<3>CTRL-EVENT-CONNECTED - up'')
           in (reply (int (length msg)) EAGAIN)\<lparr>content := msg\<rparr>)
      | Ctl (SelectRead s t) \<Rightarrow> (reply 1 EAGAIN)\<lparr>ready := [(s, [EPOLLIN])]\<rparr>
      | Ctl (PollIn s t) \<Rightarrow> (reply 1 EAGAIN)\<lparr>ready := [(s, [EPOLLIN])]\<rparr>
      | Flag LoadStop \<Rightarrow> reply (of_bool (Ctl (CtlRecv 5 4095) \<in> set h)) EAGAIN
      | Ctl _ \<Rightarrow> reply 5 EAGAIN
      | Sock (BindUnix s p) \<Rightarrow> reply 0 EAGAIN
      | _ \<Rightarrow> reply (- 1) EPIPE)"

text \<open>The thread on it, evaluated: it delivers the line, detaches, closes and returns.\<close>

abbreviation one_line_thread :: "(WpaError status option \<times> monitored) os" where
  "one_line_thread \<equiv>
     monitor_thread one_line 32 2 shipped_classes (shipped_classes ! 0) 3 3 (new_server [] [])"

lemma one_line_run:
  "(let r = run_state one_line_thread [] in (fst (fst r), event_lines one_line [] (snd r))) =
     (Some ok, [''<3>CTRL-EVENT-CONNECTED - up''])"
  by code_simp

lemma one_line_facts:
  "fst (outcome one_line_thread []) = Some ok"
  "event_lines one_line [] (calls one_line_thread []) = [''<3>CTRL-EVENT-CONNECTED - up'']"
  using one_line_run by (simp_all add: outcome_def calls_def Let_def)

lemma shipped_path_fits:
  "dest_path (w_ctrlPath (make_watch env bits fuel shipped_classes (shipped_classes ! 0))) \<noteq> None"
  by (simp add: make_watch_def shipped_classes_def dest_path_def os_strlcpy_spec sun_path_size_def)

subsection \<open>Properties\<close>

text \<open>C4: whatever the kernel and the supplicant do, and however often the connection is lost, the
  thread leaves the machine of its class in the state that the daemon of line events reaches on
  the lines received: every line is delivered once, in its order, and nothing else.\<close>

theorem thread_refines_line_events:
  assumes "valid_config classes" and "i < length classes"
  shows "let p = monitor_thread env bits fuel classes (classes ! i) k n s;
             lines = event_lines env h (calls p h)
         in fst (snd (outcome p h)) =
              w_fsm (d_watches (fold (daemon_step env) (map (WpaLine i) lines)
                (new_daemon env bits fuel classes h')) ! i)"
proof -
  let ?cls = "classes ! i"
  let ?p = "monitor_thread env bits fuel classes ?cls k n s"
  define lines where "lines = event_lines env h (calls ?p h)"
  have own: "monitor_events i iface (map (WpaLine i) ls) = map (\<lambda>raw. parseEvent raw iface) ls" for iface ls
    by (induction ls) simp_all
  have watches: "d_watches (new_daemon env bits fuel classes h') =
      map (make_watch env bits fuel classes) classes"
    by (simp add: new_daemon_def valid_watches assms(1))
  have "fst (snd (outcome ?p h)) =
      fst (fold onWpaEvent (map (\<lambda>raw. parseEvent raw (hd (interfaces ?cls))) lines)
        (new_fsm ?cls (class_callbacks env bits fuel classes ?cls), (s, h)))"
    by (simp add: monitor_thread_def Let_def monitor.seen_start lines_def make_watch_def
        callback_steps[where w = "(s, h)"])
  also have "\<dots> = w_fsm (d_watches (fold (daemon_step env) (map (WpaLine i) lines)
      (new_daemon env bits fuel classes h')) ! i)"
    using assms(2) by (subst watch_run[where w = "(s, h)"]) (simp_all add: watches own make_watch_def)
  finally show ?thesis
    by (simp add: lines_def Let_def)
qed

theorem thread_refines_line_events_witness:
  "fst (snd (outcome one_line_thread [])) =
     w_fsm (d_watches (daemon_step one_line (WpaLine 0 ''<3>CTRL-EVENT-CONNECTED - up'')
       (new_daemon one_line 32 2 shipped_classes [])) ! 0)"
proof -
  have "0 < length shipped_classes"
    by (simp add: shipped_classes_def)
  from thread_refines_line_events[OF shipped_valid this, of one_line 32 2 3 3 "new_server [] []" "[]" "[]"]
  show ?thesis
    by (simp add: one_line_facts Let_def)
qed

text \<open>C5: after \<^verbatim>\<open>stop\<close> the thread returns, and always without an error: once the flag reads true,
  at the latest after \<open>T\<close> calls, no wait, event loop or reconnect attempt goes on, provided that
  the supplicant answers attach and detach requests or they fail.\<close>

theorem stopped_thread_returns:
  assumes "stopped_from env T" and "requests_return env k" and "T < k" and "T < n"
  shows "fst (outcome (monitor_thread env bits fuel classes cls k n s) h) = Some ok"
proof -
  have "fst (outcome (reconnect_loop env (monitor_callback env bits fuel classes cls) iface path k n b u) h')"
    for iface path b u h'
    using assms(3,4) by (intro monitor.reconnect_returns[OF assms(1,3,2)]) auto
  then show ?thesis
    by (simp add: monitor_thread_def start_monitor_def run_simps extends_rules
        monitor.loop_extends Let_def)
qed

text \<open>A supplicant that is never there, and a stop after ten calls.\<close>

definition absent :: env where
  "absent h c = reply (if c = Flag LoadStop then of_bool (10 \<le> length h) else - 1) ENOENT"

theorem stopped_thread_returns_witness:
  "fst (outcome (monitor_thread absent 32 1 shipped_classes (shipped_classes ! 0) 11 11
     (new_server [] [])) []) = Some ok"
proof -
  have "stopped_from absent 10"
    by (simp add: stopped_from_def absent_def)
  moreover have "requests_return absent 11"
    by (simp add: requests_return_def absent_def wpa_ctrl_attach_helper_def wpa_ctrl_request_def
        eval_nat_numeral run_simps extends_rules)
  moreover have "10 < (11 :: nat)" by simp
  ultimately show ?thesis
    by (metis stopped_thread_returns)
qed

text \<open>C6: a stop that comes before the thread has begun is lost: \<^verbatim>\<open>start\<close> clears the flag first, so
  without a later stop the thread never returns, however many rounds it runs, and the main
  thread waits for it in \<^verbatim>\<open>join\<close>.\<close>

theorem early_stop_is_lost:
  assumes "atomic_flag stops env" and "stops h" and "\<And>h'. stops h' \<Longrightarrow> length h' \<le> length h"
  shows "rc (env h (Flag LoadStop)) \<noteq> 0 \<and>
    fst (outcome (monitor_thread env bits fuel classes cls k n s) h) = None"
proof -
  have "flag_value stops (rev h)"
    using assms(2) by (cases h rule: rev_cases) simp_all
  then have "rc (env h (Flag LoadStop)) \<noteq> 0"
    using assms(1) by (simp add: atomic_flag_def)
  moreover have "rc (env ((h @ [Flag (StoreStop False)]) @ cs) (Flag LoadStop)) = 0" for cs
    using assms(1)[unfolded atomic_flag_def, rule_format, of "h @ Flag (StoreStop False) # cs"]
      flag_cleared[where stops = stops and h = h and cs = cs, OF assms(3)] by auto
  then have "\<not> fst (outcome (reconnect_loop env (monitor_callback env bits fuel classes cls)
      iface path k n b u) ((h @ [Flag (StoreStop False)]) @ []))" for iface path b u
    by (rule monitor.reconnect_runs_on)
  ultimately show ?thesis
    by (simp add: monitor_thread_def start_monitor_def run_simps extends_rules
        monitor.loop_extends Let_def)
qed

theorem early_stop_is_lost_witness:
  "fst (outcome (monitor_thread
      (\<lambda>h c. reply (if c = Flag LoadStop then of_bool (flag_value (\<lambda>h. h = []) (rev h)) else - 1) ENOENT)
      32 1 shipped_classes (shipped_classes ! 0) 100 100 (new_server [] [])) []) = None"
proof -
  let ?env = "\<lambda>h c. reply (if c = Flag LoadStop then of_bool (flag_value (\<lambda>h. h = []) (rev h)) else - 1) ENOENT"
  have "atomic_flag (\<lambda>h. h = []) ?env"
    by (simp add: atomic_flag_def)
  from early_stop_is_lost[OF this, of "[]" 32 1 shipped_classes "shipped_classes ! 0" 100 100
      "new_server [] []"]
  show ?thesis by simp
qed


text \<open>C7: a thread that returns has given back the memory and the descriptors of all its connections,
  wherever each of its attempts ended and whatever the callbacks did in between, and their socket
  files too when the control path fits into a socket address. Over a path that does not fit only
  socket files are left.\<close>

theorem finished_thread_holds_nothing:
  assumes "fst (outcome (monitor_thread env bits fuel classes cls k n s) h) \<noteq> None"
  shows "held env h (calls (monitor_thread env bits fuel classes cls k n s) h) {} \<subseteq>
    (if dest_path (w_ctrlPath (make_watch env bits fuel classes cls)) = None
     then range SocketFile else {})"
proof -
  let ?w = "make_watch env bits fuel classes cls" and ?h = "h @ [Flag (StoreStop False)]"
  let ?loop = "reconnect_loop env (monitor_callback env bits fuel classes cls) (w_iface ?w)
    (w_ctrlPath ?w) k n kInitialBackoff (w_fsm ?w, s)"
  have "fst (outcome ?loop ?h)"
    using assms by (simp add: monitor_thread_def start_monitor_def run_simps extends_rules
        monitor.loop_extends Let_def split: if_splits)
  from monitor.held_reconnect[OF this] show ?thesis
    by (simp add: monitor_thread_def start_monitor_def run_simps extends_rules monitor.loop_extends
        Let_def)
qed

theorem finished_thread_holds_nothing_witness:
  "held one_line [] (calls one_line_thread []) {} = {}"
  using finished_thread_holds_nothing[of one_line 32 2 shipped_classes "shipped_classes ! 0" 3 3
      "new_server [] []" "[]"]
  by (simp add: one_line_facts shipped_path_fits)

text \<open>As long as the supplicant cannot be reached the thread tries again for ever, and waits
  1, 2, 4, 8, 16 and then always 30 seconds between its attempts.\<close>

theorem unreachable_thread_backs_off:
  assumes "\<And>h. outcome (wpa_ctrl_open env (Some (w_ctrlPath (make_watch env bits fuel classes cls)))) h = None"
    and "\<And>h. rc (env h (Flag LoadStop)) = 0"
  shows "waits (calls (monitor_thread env bits fuel classes cls k n s) h) =
    map (\<lambda>i. min (2 ^ i) 30) [0..<n]"
proof -
  have "waits (calls (monitor_thread env bits fuel classes cls k n s) h) =
      backoff_waits kInitialBackoff (replicate n False)"
    by (simp add: monitor_thread_def start_monitor_def run_simps extends_rules monitor.loop_extends
        Let_def monitor.unreachable_waits assms)
  also have "\<dots> = map (\<lambda>i. min (2 ^ i) 30) [0..<n]"
    by (rule nth_equalityI) (simp_all add: backoff_sequence)
  finally show ?thesis .
qed

theorem unreachable_thread_backs_off_witness:
  "waits (calls (monitor_thread (\<lambda>h c. reply 0 ENOENT) 32 1 shipped_classes (shipped_classes ! 0) 1 7
     (new_server [] [])) []) = [1, 2, 4, 8, 16, 30, 30]"
proof -
  have "outcome (wpa_ctrl_open (\<lambda>h c. reply 0 ENOENT) (Some path)) h = None" for path h
    by (simp add: wpa_ctrl_open_def wpa_ctrl_open2_def run_simps extends_rules)
  then show ?thesis
    by (subst unreachable_thread_backs_off) (simp_all add: upt_rec)
qed

end
