(* ===== verification/Threads.thy ===== *)
theory Threads
  imports Main
begin

text \<open>
  The threads of the daemon and how they wait for each other: the main thread of \<^verbatim>\<open>main.cpp\<close> from
  the creation of the monitors to the exit, the watchdog, and \<^verbatim>\<open>WpaMonitor::start\<close> at each of its
  reads and writes of the stop flag. Every thread is at a control point; one step moves one
  thread, or is the arrival of a terminating signal, in any order. What the threads do between
  the points is the business of the theories Daemon_Run and Wpa_Loop.
\<close>

subsection \<open>One monitor\<close>

text \<open>Before the store in \<^verbatim>\<open>start\<close>; at the loop test; opening and attaching; at the test of the event
  loop; in \<^verbatim>\<open>poll\<close> and the handling of a line; detaching; at the two tests after a connection and
  an attempt; in the wait; after the return.\<close>

datatype mon_point = Created | Head | Connecting | Serving | Polling | Detaching | LostCheck
  | RetryCheck | Sleeping | Finished

record monitor =
  at :: mon_point
  stopRequested :: bool

text \<open>The second argument says whether the step delivers an event to the callback.\<close>

inductive mon_step :: "monitor \<Rightarrow> bool \<Rightarrow> monitor \<Rightarrow> bool" where
  begin_start: "at m = Created \<Longrightarrow> mon_step m False (m\<lparr>at := Head, stopRequested := False\<rparr>)"
| head_stop: "at m = Head \<Longrightarrow> stopRequested m \<Longrightarrow> mon_step m False (m\<lparr>at := Finished\<rparr>)"
| head_go: "at m = Head \<Longrightarrow> \<not> stopRequested m \<Longrightarrow> mon_step m False (m\<lparr>at := Connecting\<rparr>)"
| not_attached: "at m = Connecting \<Longrightarrow> mon_step m False (m\<lparr>at := RetryCheck\<rparr>)"
| attached: "at m = Connecting \<Longrightarrow> mon_step m False (m\<lparr>at := Serving\<rparr>)"
| serve_stop: "at m = Serving \<Longrightarrow> stopRequested m \<Longrightarrow> mon_step m False (m\<lparr>at := Detaching\<rparr>)"
| serve_poll: "at m = Serving \<Longrightarrow> \<not> stopRequested m \<Longrightarrow> mon_step m False (m\<lparr>at := Polling\<rparr>)"
| poll_again: "at m = Polling \<Longrightarrow> mon_step m False (m\<lparr>at := Serving\<rparr>)"
| poll_failed: "at m = Polling \<Longrightarrow> mon_step m False (m\<lparr>at := Detaching\<rparr>)"
| event_go: "at m = Polling \<Longrightarrow> mon_step m True (m\<lparr>at := Serving\<rparr>)"
| event_last: "at m = Polling \<Longrightarrow> mon_step m True (m\<lparr>at := Detaching\<rparr>)"
| detached: "at m = Detaching \<Longrightarrow> mon_step m False (m\<lparr>at := LostCheck\<rparr>)"
| lost_stop: "at m = LostCheck \<Longrightarrow> stopRequested m \<Longrightarrow> mon_step m False (m\<lparr>at := Finished\<rparr>)"
| lost_go: "at m = LostCheck \<Longrightarrow> \<not> stopRequested m \<Longrightarrow> mon_step m False (m\<lparr>at := RetryCheck\<rparr>)"
| retry_stop: "at m = RetryCheck \<Longrightarrow> stopRequested m \<Longrightarrow> mon_step m False (m\<lparr>at := Finished\<rparr>)"
| retry_go: "at m = RetryCheck \<Longrightarrow> \<not> stopRequested m \<Longrightarrow> mon_step m False (m\<lparr>at := Sleeping\<rparr>)"
| slept: "at m = Sleeping \<Longrightarrow> mon_step m False (m\<lparr>at := Head\<rparr>)"

inductive_cases mon_stepE: "mon_step m b m'"

subsection \<open>All threads\<close>

text \<open>
  The main thread: creating the monitors' threads, of which so many exist; starting the server;
  in the clean-up after it did not start; terminated; at the test of \<^verbatim>\<open>gShutdown\<close>, between the test and \<^verbatim>\<open>pause\<close>, and in \<^verbatim>\<open>pause\<close>; joining the
  watchdog; stopping and joining the monitors one by one; in the final clean-up; after the end. \<open>joined\<close> counts the thread objects that were joined.
\<close>

datatype main_point = Spawning nat | StartingServer | FailedCleanup | Terminated
  | LoopTest | BeforePause | Pausing | JoiningWatchdog | Stopping nat | Joining nat
  | CleaningUp | Exited

datatype watchdog_point = NotRunning | Pinging | WatchdogFinished

record threads =
  main_at :: main_point
  gShutdownFlag :: bool
  watchdog :: watchdog_point
  monitors :: "monitor list"
  joined :: nat

definition initial_threads :: threads where
  "initial_threads = \<lparr>main_at = Spawning 0, gShutdownFlag = False, watchdog = NotRunning, monitors = [], joined = 0\<rparr>"

definition alive :: "threads \<Rightarrow> bool" where
  "alive s \<longleftrightarrow> main_at s \<noteq> Exited \<and> main_at s \<noteq> Terminated"

datatype label = MainStep | WatchdogStep | Signal | Hangup | MonitorStep nat | Deliver nat

text \<open>\<open>n\<close> is the number of classes with an interface. Whichever way \<^verbatim>\<open>main\<close> returns, it destroys the
  thread objects, and one that was not joined terminates the process. A terminating signal sets the flag; like the
  one that asks for a reload (\<open>Hangup\<close>) it ends a \<^verbatim>\<open>pause\<close>, and only one that is under way.\<close>

inductive thread_step :: "nat \<Rightarrow> threads \<Rightarrow> label \<Rightarrow> threads \<Rightarrow> bool" for n where
  spawn: "main_at s = Spawning i \<Longrightarrow> i < n \<Longrightarrow>
    thread_step n s MainStep (s\<lparr>main_at := Spawning (Suc i),
      monitors := monitors s @ [\<lparr>at = Created, stopRequested = False\<rparr>]\<rparr>)"
| spawned: "main_at s = Spawning n \<Longrightarrow> thread_step n s MainStep (s\<lparr>main_at := StartingServer\<rparr>)"
| server_failed: "main_at s = StartingServer \<Longrightarrow> thread_step n s MainStep (s\<lparr>main_at := FailedCleanup\<rparr>)"
| server_started: "main_at s = StartingServer \<Longrightarrow>
    thread_step n s MainStep (s\<lparr>main_at := LoopTest, watchdog := Pinging\<rparr>)"
| test_go: "main_at s = LoopTest \<Longrightarrow> \<not> gShutdownFlag s \<Longrightarrow>
    thread_step n s MainStep (s\<lparr>main_at := BeforePause\<rparr>)"
| test_stop: "main_at s = LoopTest \<Longrightarrow> gShutdownFlag s \<Longrightarrow>
    thread_step n s MainStep (s\<lparr>main_at := JoiningWatchdog\<rparr>)"
| call_pause: "main_at s = BeforePause \<Longrightarrow> thread_step n s MainStep (s\<lparr>main_at := Pausing\<rparr>)"
| signal_wakes: "main_at s = Pausing \<Longrightarrow>
    thread_step n s Signal (s\<lparr>main_at := LoopTest, gShutdownFlag := True\<rparr>)"
| hangup_wakes: "main_at s = Pausing \<Longrightarrow> thread_step n s Hangup (s\<lparr>main_at := LoopTest\<rparr>)"
| signal_noted: "alive s \<Longrightarrow> main_at s \<noteq> Pausing \<Longrightarrow> thread_step n s Signal (s\<lparr>gShutdownFlag := True\<rparr>)"
| ping: "alive s \<Longrightarrow> watchdog s = Pinging \<Longrightarrow> \<not> gShutdownFlag s \<Longrightarrow> thread_step n s WatchdogStep s"
| watchdog_ends: "alive s \<Longrightarrow> watchdog s = Pinging \<Longrightarrow> gShutdownFlag s \<Longrightarrow>
    thread_step n s WatchdogStep (s\<lparr>watchdog := WatchdogFinished\<rparr>)"
| watchdog_joined: "main_at s = JoiningWatchdog \<Longrightarrow> watchdog s = WatchdogFinished \<Longrightarrow>
    thread_step n s MainStep (s\<lparr>main_at := Stopping 0\<rparr>)"
| stop_one: "main_at s = Stopping i \<Longrightarrow> i < length (monitors s) \<Longrightarrow>
    thread_step n s MainStep (s\<lparr>main_at := Stopping (Suc i),
      monitors := (monitors s)[i := (monitors s ! i)\<lparr>stopRequested := True\<rparr>]\<rparr>)"
| all_stopped: "main_at s = Stopping (length (monitors s)) \<Longrightarrow>
    thread_step n s MainStep (s\<lparr>main_at := Joining 0\<rparr>)"
| join_one: "main_at s = Joining i \<Longrightarrow> i < length (monitors s) \<Longrightarrow> at (monitors s ! i) = Finished \<Longrightarrow>
    thread_step n s MainStep (s\<lparr>main_at := Joining (Suc i), joined := Suc (joined s)\<rparr>)"
| all_joined: "main_at s = Joining (length (monitors s)) \<Longrightarrow>
    thread_step n s MainStep (s\<lparr>main_at := CleaningUp\<rparr>)"
| return_main: "main_at s = FailedCleanup \<or> main_at s = CleaningUp \<Longrightarrow>
    thread_step n s MainStep
      (s\<lparr>main_at := if joined s < length (monitors s) then Terminated else Exited\<rparr>)"
| monitor_moves: "alive s \<Longrightarrow> i < length (monitors s) \<Longrightarrow> mon_step (monitors s ! i) False m \<Longrightarrow>
    thread_step n s (MonitorStep i) (s\<lparr>monitors := (monitors s)[i := m]\<rparr>)"
| monitor_delivers: "alive s \<Longrightarrow> i < length (monitors s) \<Longrightarrow> mon_step (monitors s ! i) True m \<Longrightarrow>
    thread_step n s (Deliver i) (s\<lparr>monitors := (monitors s)[i := m]\<rparr>)"

inductive_cases thread_stepE: "thread_step n s l s'"
inductive_cases deliverE: "thread_step n s (Deliver i) s'"

text \<open>A run is a list of labelled steps.\<close>

inductive thread_run :: "nat \<Rightarrow> threads \<Rightarrow> label list \<Rightarrow> threads \<Rightarrow> bool" for n where
  no_step: "thread_run n s [] s"
| more_steps: "thread_run n s ls s' \<Longrightarrow> thread_step n s' l s'' \<Longrightarrow> thread_run n s (ls @ [l]) s''"

definition reachable :: "nat \<Rightarrow> threads \<Rightarrow> bool" where
  "reachable n s \<longleftrightarrow> (\<exists>ls. thread_run n initial_threads ls s)"

code_pred mon_step .
code_pred thread_step .


subsection \<open>Lemmas\<close>

lemma finished_stays: "mon_step m b m' \<Longrightarrow> at m \<noteq> Finished"
  by (auto elim: mon_stepE)

text \<open>The monitors that the main thread has joined have returned.\<close>

fun joined_at :: "main_point \<Rightarrow> nat \<Rightarrow> nat \<Rightarrow> bool" where
  "joined_at (Joining i) k len \<longleftrightarrow> k = i"
| "joined_at CleaningUp k len \<longleftrightarrow> k = len"
| "joined_at Exited k len \<longleftrightarrow> k = len"
| "joined_at Terminated k len \<longleftrightarrow> True"
| "joined_at p k len \<longleftrightarrow> k = 0"

definition joined_inv :: "threads \<Rightarrow> bool" where
  "joined_inv s \<longleftrightarrow>
     joined s \<le> length (monitors s) \<and> (\<forall>i<joined s. at (monitors s ! i) = Finished) \<and>
     joined_at (main_at s) (joined s) (length (monitors s))"

lemma joined_inv_step: "thread_step n s l s' \<Longrightarrow> joined_inv s \<Longrightarrow> joined_inv s'"
proof (induction rule: thread_step.induct)
  case (join_one s i)
  then show ?case
    by (auto simp: joined_inv_def less_Suc_eq)
next
  case (monitor_moves s i m)
  then show ?case
    using finished_stays[of "monitors s ! i"] by (auto simp: joined_inv_def nth_list_update)
next
  case (monitor_delivers s i m)
  then show ?case
    using finished_stays[of "monitors s ! i"] by (auto simp: joined_inv_def nth_list_update)
qed (auto simp: joined_inv_def nth_append)

lemma joined_inv_run: "thread_run n s ls s' \<Longrightarrow> joined_inv s \<Longrightarrow> joined_inv s'"
  by (induction rule: thread_run.induct) (auto intro: joined_inv_step)

lemma joined_inv_reachable: "reachable n s \<Longrightarrow> joined_inv s"
  using joined_inv_run by (fastforce simp: reachable_def joined_inv_def initial_threads_def)

lemma all_finished:
  "joined_inv s \<Longrightarrow> main_at s = CleaningUp \<or> main_at s = Exited \<Longrightarrow>
     \<forall>m\<in>set (monitors s). at m = Finished"
  by (auto simp: joined_inv_def in_set_conv_nth)


text \<open>A stopped monitor that has begun: how many steps of its own are left at most.\<close>

fun steps_left :: "mon_point \<Rightarrow> nat" where
  "steps_left Finished = 0"
| "steps_left Head = 1"
| "steps_left LostCheck = 1"
| "steps_left RetryCheck = 1"
| "steps_left Sleeping = 2"
| "steps_left Detaching = 2"
| "steps_left Serving = 3"
| "steps_left Polling = 4"
| "steps_left Connecting = 4"
| "steps_left Created = 5"

definition begun_and_stopped :: "monitor \<Rightarrow> bool" where
  "begun_and_stopped m \<longleftrightarrow> stopRequested m \<and> at m \<noteq> Created"

lemma stopped_mon_step:
  "mon_step m b m' \<Longrightarrow> begun_and_stopped m \<Longrightarrow>
     begun_and_stopped m' \<and> steps_left (at m') < steps_left (at m)"
  by (auto simp: begun_and_stopped_def elim!: mon_stepE)

lemma unfinished_can_step: "at m \<noteq> Finished \<Longrightarrow> \<exists>m'. mon_step m False m'"
  by (cases "at m"; cases "stopRequested m") (blast intro: mon_step.intros)+

definition own :: "nat \<Rightarrow> label \<Rightarrow> bool" where
  "own i l \<longleftrightarrow> l = MonitorStep i \<or> l = Deliver i"

text \<open>A step of all threads, as one monitor sees it.\<close>

lemma thread_step_monitor:
  assumes "thread_step n s l s'" and "i < length (monitors s)"
  shows "i < length (monitors s') \<and>
    (if own i l then \<exists>b. mon_step (monitors s ! i) b (monitors s' ! i)
     else monitors s' ! i = monitors s ! i \<or>
       main_at s = Stopping i \<and> monitors s' ! i = (monitors s ! i)\<lparr>stopRequested := True\<rparr>)"
  using assms
  by (induction rule: thread_step.induct) (auto simp: own_def nth_append nth_list_update)

lemma stopped_step:
  assumes "thread_step n s l s'" and "i < length (monitors s)" and "begun_and_stopped (monitors s ! i)"
  shows "i < length (monitors s') \<and> begun_and_stopped (monitors s' ! i) \<and>
    steps_left (at (monitors s' ! i)) + (if own i l then 1 else 0) \<le> steps_left (at (monitors s ! i))"
proof (cases "own i l")
  case True
  then obtain b where "i < length (monitors s')" "mon_step (monitors s ! i) b (monitors s' ! i)"
    using thread_step_monitor[OF assms(1,2)] by auto
  then show ?thesis
    using stopped_mon_step[OF _ assms(3)] True by fastforce
next
  case False
  then have "i < length (monitors s')"
    "at (monitors s' ! i) = at (monitors s ! i) \<and> stopRequested (monitors s' ! i)"
    using thread_step_monitor[OF assms(1,2)] assms(3) by (auto simp: begun_and_stopped_def)
  then show ?thesis
    using assms(3) False by (simp add: begun_and_stopped_def)
qed

lemma stopped_run:
  assumes "thread_run n s ls s'"
  shows "i < length (monitors s) \<Longrightarrow> begun_and_stopped (monitors s ! i) \<Longrightarrow>
    i < length (monitors s') \<and> begun_and_stopped (monitors s' ! i) \<and>
    length (filter (own i) ls) + steps_left (at (monitors s' ! i)) \<le> steps_left (at (monitors s ! i))"
  using assms
proof (induction rule: thread_run.induct)
  case (more_steps s ls s' l s'')
  then show ?case
    using stopped_step[of n s' l s'' i] by (auto split: if_splits)
qed simp

text \<open>A monitor that is not stopped, and for which the main thread waits.\<close>

definition waits_for :: "nat \<Rightarrow> threads \<Rightarrow> bool" where
  "waits_for i s \<longleftrightarrow>
     i < length (monitors s) \<and> \<not> stopRequested (monitors s ! i) \<and> at (monitors s ! i) \<noteq> Finished \<and>
     (\<exists>j\<le>i. main_at s = Joining j)"

lemma unstopped_mon_step:
  "mon_step m b m' \<Longrightarrow> \<not> stopRequested m \<Longrightarrow> \<not> stopRequested m' \<and> at m' \<noteq> Finished"
  by (auto elim!: mon_stepE)

text \<open>Until the main thread stops them no monitor can return; when the server did not start it
  never does.\<close>

definition unstopped :: "threads \<Rightarrow> bool" where
  "unstopped s \<longleftrightarrow> (\<forall>m\<in>set (monitors s). \<not> stopRequested m \<and> at m \<noteq> Finished)"

definition start_failed :: "nat \<Rightarrow> threads \<Rightarrow> bool" where
  "start_failed n s \<longleftrightarrow> unstopped s \<and> length (monitors s) = n \<and> joined s = 0 \<and>
     (main_at s = FailedCleanup \<or> main_at s = (if n = 0 then Exited else Terminated))"

definition starting_inv :: "nat \<Rightarrow> threads \<Rightarrow> bool" where
  "starting_inv n s \<longleftrightarrow>
     (case main_at s of
        Spawning i \<Rightarrow> unstopped s \<and> length (monitors s) = i \<and> i \<le> n \<and> joined s = 0
      | StartingServer \<Rightarrow> unstopped s \<and> length (monitors s) = n \<and> joined s = 0
      | FailedCleanup \<Rightarrow> start_failed n s
      | _ \<Rightarrow> True)"

lemma unstopped_update:
  "unstopped s \<Longrightarrow> i < length (monitors s) \<Longrightarrow> mon_step (monitors s ! i) b m \<Longrightarrow>
     unstopped (s\<lparr>monitors := (monitors s)[i := m]\<rparr>)"
  using unstopped_mon_step[of "monitors s ! i" b m]
  by (auto simp: unstopped_def dest!: set_update_subset_insert[THEN subsetD])

lemma starting_inv_step: "thread_step n s l s' \<Longrightarrow> starting_inv n s \<Longrightarrow> starting_inv n s'"
proof (induction rule: thread_step.induct)
  case (monitor_moves s i m)
  with unstopped_update[of s i False m] show ?case
    by (auto simp: starting_inv_def start_failed_def split: main_point.splits)
next
  case (monitor_delivers s i m)
  with unstopped_update[of s i True m] show ?case
    by (auto simp: starting_inv_def start_failed_def split: main_point.splits)
qed (auto simp: starting_inv_def start_failed_def unstopped_def split: main_point.splits)

lemma starting_inv_reachable: "reachable n s \<Longrightarrow> starting_inv n s"
proof -
  have "thread_run n s ls s' \<Longrightarrow> starting_inv n s \<Longrightarrow> starting_inv n s'" for s ls s'
    by (induction rule: thread_run.induct) (auto intro: starting_inv_step)
  then show "reachable n s \<Longrightarrow> starting_inv n s"
    by (fastforce simp: reachable_def starting_inv_def unstopped_def initial_threads_def)
qed

lemma start_failed_step: "thread_step n s l s' \<Longrightarrow> start_failed n s \<Longrightarrow> start_failed n s'"
proof (induction rule: thread_step.induct)
  case (monitor_moves s i m)
  with unstopped_update[of s i False m] show ?case
    by (auto simp: start_failed_def)
next
  case (monitor_delivers s i m)
  with unstopped_update[of s i True m] show ?case
    by (auto simp: start_failed_def)
qed (auto simp: start_failed_def unstopped_def split: if_splits)

lemma start_failed_run: "thread_run n s ls s' \<Longrightarrow> start_failed n s \<Longrightarrow> start_failed n s'"
  by (induction rule: thread_run.induct) (auto intro: start_failed_step)

text \<open>How far a monitor is from its \<^verbatim>\<open>poll\<close>, and that it gets there by itself.\<close>

fun to_poll :: "mon_point \<Rightarrow> nat" where
  "to_poll Polling = 0"
| "to_poll Serving = 1"
| "to_poll Connecting = 2"
| "to_poll Head = 3"
| "to_poll Created = 4"
| "to_poll Sleeping = 4"
| "to_poll RetryCheck = 5"
| "to_poll LostCheck = 6"
| "to_poll Detaching = 7"
| "to_poll Finished = 0"

lemma nearer_to_poll:
  "\<not> stopRequested m \<Longrightarrow> at m \<noteq> Finished \<Longrightarrow> at m \<noteq> Polling \<Longrightarrow>
     \<exists>m'. mon_step m False m' \<and> to_poll (at m') < to_poll (at m)"
  by (cases "at m") (force intro: mon_step.intros)+

lemma run_on: "thread_run n s' ls s'' \<Longrightarrow> thread_step n s l s' \<Longrightarrow> thread_run n s (l # ls) s''"
proof (induction rule: thread_run.induct)
  case (no_step s')
  then show ?case
    using more_steps[OF thread_run.no_step] by fastforce
next
  case (more_steps s' ls s1 l' s'')
  then show ?case
    using thread_run.more_steps[of n s "l # ls" s1 l' s''] by simp
qed

lemma can_deliver:
  assumes "unstopped s" and "alive s" and "i < length (monitors s)"
  shows "\<exists>ls s1 s2. thread_run n s ls s1 \<and> (\<forall>l\<in>set ls. own i l) \<and> thread_step n s1 (Deliver i) s2"
  using assms
proof (induction "to_poll (at (monitors s ! i))" arbitrary: s rule: less_induct)
  case less
  let ?m = "monitors s ! i"
  have live: "\<not> stopRequested ?m" "at ?m \<noteq> Finished"
    using less.prems by (simp_all add: unstopped_def)
  show ?case
  proof (cases "at ?m = Polling")
    case True
    from monitor_delivers[OF less.prems(2,3) event_go[OF True]] show ?thesis
      using no_step[of n s] by fastforce
  next
    case False
    then obtain m' where step: "mon_step ?m False m'" and near: "to_poll (at m') < to_poll (at ?m)"
      using nearer_to_poll live by blast
    let ?s = "s\<lparr>monitors := (monitors s)[i := m']\<rparr>"
    obtain ls s1 s2 where "thread_run n ?s ls s1" "\<forall>l\<in>set ls. own i l" "thread_step n s1 (Deliver i) s2"
      using less.hyps[of ?s] near less.prems unstopped_update[OF less.prems(1,3) step]
      by (auto simp: alive_def)
    moreover have "own i (MonitorStep i)"
      by (simp add: own_def)
    ultimately show ?thesis
      using run_on[OF _ monitor_moves[OF less.prems(2,3) step]] by fastforce
  qed
qed

lemma waits_for_main:
  "thread_step n s l s' \<Longrightarrow> waits_for i s \<Longrightarrow> \<exists>j\<le>i. main_at s' = Joining j"
  by (induction rule: thread_step.induct) (auto simp: waits_for_def le_less Suc_le_eq)

lemma waits_for_step: "thread_step n s l s' \<Longrightarrow> waits_for i s \<Longrightarrow> waits_for i s'"
  using thread_step_monitor[of n s l s' i] waits_for_main[of n s l s' i]
    unstopped_mon_step[of "monitors s ! i" _ "monitors s' ! i"]
  by (auto simp: waits_for_def split: if_splits)

lemma waits_for_run: "thread_run n s ls s' \<Longrightarrow> waits_for i s \<Longrightarrow> waits_for i s'"
  by (induction rule: thread_run.induct) (auto intro: waits_for_step)


subsection \<open>Runs\<close>

abbreviation new_mon :: monitor where
  "new_mon \<equiv> \<lparr>at = Created, stopRequested = False\<rparr>"

lemma spawn_run:
  "i \<le> n \<Longrightarrow> thread_run n initial_threads (replicate i MainStep)
     (initial_threads\<lparr>main_at := Spawning i, monitors := replicate i new_mon\<rparr>)"
proof (induction i)
  case 0
  then show ?case
    using no_step[of n initial_threads] by (simp add: initial_threads_def)
next
  case (Suc i)
  let ?s = "initial_threads\<lparr>main_at := Spawning i, monitors := replicate i new_mon\<rparr>"
  have "thread_run n initial_threads (replicate i MainStep) ?s"
    using Suc by simp
  moreover have "thread_step n ?s MainStep
      (initial_threads\<lparr>main_at := Spawning (Suc i), monitors := replicate (Suc i) new_mon\<rparr>)"
    using spawn[of ?s i n] Suc.prems by (simp add: replicate_append_same)
  ultimately show ?case
    using more_steps by (simp only: replicate_Suc replicate_append_same[symmetric])
qed

lemma reachable_initial: "reachable n initial_threads"
  using no_step by (auto simp: reachable_def)

lemma reachable_step: "reachable n s \<Longrightarrow> thread_step n s l s' \<Longrightarrow> reachable n s'"
  unfolding reachable_def by (blast intro: more_steps)

lemma reachable_starting:
  "reachable n (initial_threads\<lparr>main_at := StartingServer, monitors := replicate n new_mon\<rparr>)"
proof -
  let ?s = "initial_threads\<lparr>main_at := Spawning n, monitors := replicate n new_mon\<rparr>"
  have "reachable n ?s"
    using spawn_run[of n n] by (auto simp: reachable_def)
  moreover have "thread_step n ?s MainStep (?s\<lparr>main_at := StartingServer\<rparr>)"
    by (rule spawned) simp
  ultimately have "reachable n (?s\<lparr>main_at := StartingServer\<rparr>)"
    by (rule reachable_step)
  then show ?thesis by (simp add: initial_threads_def)
qed

text \<open>One monitor brought to its \<^verbatim>\<open>poll\<close>, while the main thread stays where it is.\<close>

lemma reachable_monitor:
  assumes "reachable n s" and "alive s" and "i < length (monitors s)"
    and "mon_step (monitors s ! i) False m"
  shows "reachable n (s\<lparr>monitors := (monitors s)[i := m]\<rparr>)"
  using reachable_step[OF assms(1) monitor_moves[OF assms(2-4)]] .

lemma reachable_polling:
  assumes "reachable n s" and "alive s" and "i < length (monitors s)" and "at (monitors s ! i) = Created"
  shows "reachable n (s\<lparr>monitors := (monitors s)[i := \<lparr>at = Polling, stopRequested = False\<rparr>]\<rparr>)"
proof -
  let ?to = "\<lambda>p. s\<lparr>monitors := (monitors s)[i := \<lparr>at = p, stopRequested = False\<rparr>]\<rparr>"
  have go: "reachable n (?to q)"
    if "reachable n (?to p)" "mon_step \<lparr>at = p, stopRequested = False\<rparr> False \<lparr>at = q, stopRequested = False\<rparr>"
    for p q
    using reachable_monitor[OF that(1), of i] that(2) assms(2,3) by (simp add: alive_def)
  have "reachable n (?to Head)"
    using reachable_monitor[OF assms(1-3) begin_start] assms(4)
    by (cases "monitors s ! i") simp
  then have "reachable n (?to Connecting)"
    by (rule go) (use head_go[of "\<lparr>at = Head, stopRequested = False\<rparr>"] in simp)
  then have "reachable n (?to Serving)"
    by (rule go) (use attached[of "\<lparr>at = Connecting, stopRequested = False\<rparr>"] in simp)
  then show ?thesis
    by (rule go) (use serve_poll[of "\<lparr>at = Serving, stopRequested = False\<rparr>"] in simp)
qed

text \<open>One class, from the start of the server to the final clean-up.\<close>

abbreviation one_watched :: "main_point \<Rightarrow> bool \<Rightarrow> watchdog_point \<Rightarrow> mon_point \<Rightarrow> bool \<Rightarrow> threads" where
  "one_watched p f w q r \<equiv>
     \<lparr>main_at = p, gShutdownFlag = f, watchdog = w, monitors = [\<lparr>at = q, stopRequested = r\<rparr>],
       joined = (if p = Joining 1 \<or> p = CleaningUp then 1 else 0)\<rparr>"

lemma server_up: "reachable 1 (one_watched LoopTest False Pinging Created False)"
proof -
  have "reachable 1 (one_watched StartingServer False NotRunning Created False)"
    using reachable_starting[of 1] by (simp add: initial_threads_def)
  from reachable_step[OF this server_started] show ?thesis by simp
qed

lemma stopping_run:
  assumes "reachable 1 (one_watched LoopTest False Pinging q False)"
  shows "reachable 1 (one_watched (Joining 0) True WatchdogFinished q True)"
proof -
  from reachable_step[OF assms signal_noted]
  have "reachable 1 (one_watched LoopTest True Pinging q False)" by (simp add: alive_def)
  from reachable_step[OF this test_stop]
  have "reachable 1 (one_watched JoiningWatchdog True Pinging q False)" by simp
  from reachable_step[OF this watchdog_ends]
  have "reachable 1 (one_watched JoiningWatchdog True WatchdogFinished q False)"
    by (simp add: alive_def)
  from reachable_step[OF this watchdog_joined]
  have "reachable 1 (one_watched (Stopping 0) True WatchdogFinished q False)" by simp
  from reachable_step[OF this stop_one, of 0]
  have "reachable 1 (one_watched (Stopping 1) True WatchdogFinished q True)" by simp
  from reachable_step[OF this all_stopped]
  show ?thesis by simp
qed

lemma orderly_stop: "reachable 1 (one_watched (Joining 0) True WatchdogFinished Polling True)"
  using reachable_polling[OF server_up, of 0] by (intro stopping_run) (simp add: alive_def)

text \<open>A daemon that is stopped before its monitor's thread has begun.\<close>

lemma early_stop: "reachable 1 (one_watched (Joining 0) True WatchdogFinished Head False)"
  using reachable_monitor[OF stopping_run[OF server_up] _ _ begin_start, of 0] by (simp add: alive_def)

text \<open>A signal between the test of the flag and \<^verbatim>\<open>pause\<close>.\<close>

lemma missed_signal: "reachable 1 (one_watched Pausing True Pinging Created False)"
proof -
  from reachable_step[OF server_up test_go]
  have "reachable 1 (one_watched BeforePause False Pinging Created False)" by simp
  from reachable_step[OF this signal_noted]
  have "reachable 1 (one_watched BeforePause True Pinging Created False)" by (simp add: alive_def)
  from reachable_step[OF this call_pause] show ?thesis by simp
qed

lemma orderly_exit: "reachable 1 (one_watched CleaningUp True WatchdogFinished Finished True)"
proof -
  from reachable_monitor[OF orderly_stop _ _ poll_failed, of 0]
  have "reachable 1 (one_watched (Joining 0) True WatchdogFinished Detaching True)"
    by (simp add: alive_def)
  from reachable_monitor[OF this _ _ detached, of 0]
  have "reachable 1 (one_watched (Joining 0) True WatchdogFinished LostCheck True)"
    by (simp add: alive_def)
  from reachable_monitor[OF this _ _ lost_stop, of 0]
  have "reachable 1 (one_watched (Joining 0) True WatchdogFinished Finished True)"
    by (simp add: alive_def)
  from reachable_step[OF this join_one, of 0]
  have "reachable 1 (one_watched (Joining 1) True WatchdogFinished Finished True)" by simp
  from reachable_step[OF this all_joined]
  show ?thesis by simp
qed

subsection \<open>Properties\<close>

text \<open>C8: in whatever order the threads run and signals arrive, once the main thread has begun the
  final clean-up every monitor has returned, and no event is delivered to a callback any more:
  nothing can install a route, or touch the stopped server, after the clean-up.\<close>

theorem no_event_after_cleanup:
  assumes "reachable n s" and "main_at s = CleaningUp \<or> main_at s = Exited"
  shows "(\<forall>m\<in>set (monitors s). at m = Finished) \<and> \<not> thread_step n s (Deliver i) s'"
proof -
  have finished: "\<forall>m\<in>set (monitors s). at m = Finished"
    using joined_inv_reachable[OF assms(1)] assms(2) by (rule all_finished)
  then show ?thesis
    using finished_stays by (fastforce elim!: deliverE)
qed


theorem no_event_after_cleanup_witness:
  "reachable 1 (one_watched CleaningUp True WatchdogFinished Finished True) \<and>
   \<not> thread_step 1 (one_watched CleaningUp True WatchdogFinished Finished True) (Deliver 0)
       (one_watched CleaningUp True WatchdogFinished Finished True)"
  using no_event_after_cleanup[OF orderly_exit, of 0] orderly_exit by simp

text \<open>C11: when the server does not start, whatever has happened before and happens from then on, no
  monitor is ever stopped or joined: beside the clean-up each of them can, by steps of its own,
  go on to deliver an event to its callback, which can install a route. As the thread objects
  are destroyed without a join the process does not exit with a failure but is terminated,
  unless there is no class to watch.\<close>

theorem failed_start_leaves_monitors_running:
  assumes "reachable n s" and "main_at s = FailedCleanup"
  shows "length (monitors s) = n \<and>
    (\<forall>i<n. \<exists>ls s1 s2. thread_run n s ls s1 \<and> (\<forall>l\<in>set ls. own i l) \<and>
       thread_step n s1 (Deliver i) s2) \<and>
    (\<forall>ls s'. thread_run n s ls s' \<longrightarrow>
       (\<forall>m\<in>set (monitors s'). \<not> stopRequested m \<and> at m \<noteq> Finished) \<and>
       (main_at s' = FailedCleanup \<or> main_at s' = (if n = 0 then Exited else Terminated)))"
proof -
  have failed: "start_failed n s"
    using starting_inv_reachable[OF assms(1)] assms(2) by (simp add: starting_inv_def)
  then have len: "length (monitors s) = n" and live: "unstopped s" "alive s"
    using assms(2) by (simp_all add: start_failed_def alive_def)
  have "start_failed n s'" if "thread_run n s ls s'" for ls s'
    using start_failed_run[OF that failed] .
  then show ?thesis
    using can_deliver[OF live, of _ n] len by (auto simp: start_failed_def unstopped_def)
qed

lemma failed_start: "reachable n (initial_threads\<lparr>main_at := FailedCleanup, monitors := replicate n new_mon\<rparr>)"
  using reachable_step[OF reachable_starting server_failed, of n] by (simp add: initial_threads_def)

theorem failed_start_leaves_monitors_running_witness:
  "\<exists>ls s1 s2. thread_run 2 (initial_threads\<lparr>main_at := FailedCleanup, monitors := replicate 2 new_mon\<rparr>) ls s1 \<and>
     thread_step 2 s1 (Deliver 1) s2"
proof -
  have "main_at (initial_threads\<lparr>main_at := FailedCleanup, monitors := replicate 2 new_mon\<rparr>) = FailedCleanup"
    by simp
  from failed_start_leaves_monitors_running[OF failed_start this, THEN conjunct2, THEN conjunct1,
      rule_format, of 1]
  show ?thesis by (simp del: thread_run.simps) blast
qed

text \<open>C9: a monitor that had begun when it was stopped returns after at most four steps of its own,
  whatever the other threads do, and until then it can always take one: no lock, wait or
  connection attempt holds it for ever.\<close>

theorem stopped_monitor_finishes:
  assumes "thread_run n s ls s'" and "i < length (monitors s)"
    and "stopRequested (monitors s ! i)" and "at (monitors s ! i) \<noteq> Created"
  shows "length (filter (own i) ls) \<le> 4 \<and>
    (at (monitors s' ! i) = Finished \<or>
     (alive s' \<longrightarrow> (\<exists>l s''. own i l \<and> thread_step n s' l s'')))"
proof -
  have "begun_and_stopped (monitors s ! i)"
    using assms(3,4) by (simp add: begun_and_stopped_def)
  then have run: "i < length (monitors s')"
    "length (filter (own i) ls) \<le> steps_left (at (monitors s ! i))"
    using stopped_run[OF assms(1,2)] by auto
  have "steps_left (at (monitors s ! i)) \<le> 4"
    using assms(4) by (cases "at (monitors s ! i)") auto
  with run(2) have count: "length (filter (own i) ls) \<le> 4" by linarith
  show ?thesis
  proof (cases "at (monitors s' ! i) = Finished \<or> \<not> alive s'")
    case True
    with count show ?thesis by blast
  next
    case False
    then obtain m where "mon_step (monitors s' ! i) False m"
      using unfinished_can_step by metis
    from monitor_moves[OF _ run(1) this] False
    have "\<exists>l s''. own i l \<and> thread_step n s' l s''"
      unfolding own_def by blast
    with count show ?thesis by blast
  qed
qed

theorem stopped_monitor_finishes_witness:
  "reachable 1 (one_watched (Joining 0) True WatchdogFinished Polling True) \<and>
   (\<exists>l s. own 0 l \<and> thread_step 1 (one_watched (Joining 0) True WatchdogFinished Polling True) l s)"
  using stopped_monitor_finishes[OF no_step, of 0 "one_watched (Joining 0) True WatchdogFinished Polling True" 1]
    orderly_stop
  by (simp add: alive_def)

text \<open>A monitor that had not begun when it was stopped is waited for, for ever: once the main
  thread joins a monitor whose flag was cleared, no run leads past that monitor.\<close>

theorem unstopped_monitor_blocks_exit:
  assumes "thread_run n s ls s'" and "waits_for i s"
  shows "(\<exists>j\<le>i. main_at s' = Joining j) \<and> at (monitors s' ! i) \<noteq> Finished"
  using waits_for_run[OF assms] by (auto simp: waits_for_def)


theorem unstopped_monitor_blocks_exit_witness:
  "reachable 1 (one_watched (Joining 0) True WatchdogFinished Head False) \<and>
   (\<nexists>ls s'. thread_run 1 (one_watched (Joining 0) True WatchdogFinished Head False) ls s' \<and>
      main_at s' = Exited)"
proof -
  have "waits_for 0 (one_watched (Joining 0) True WatchdogFinished Head False)"
    by (simp add: waits_for_def)
  from unstopped_monitor_blocks_exit[OF _ this] show ?thesis
    using early_stop by fastforce
qed

text \<open>The main thread leaves \<^verbatim>\<open>pause\<close> for a signal only, even if the flag it tests next is set.\<close>

theorem pause_needs_signal:
  assumes "thread_run n s ls s'" and "main_at s = Pausing"
    and "Signal \<notin> set ls" and "Hangup \<notin> set ls"
  shows "main_at s' = Pausing \<and> gShutdownFlag s' = gShutdownFlag s"
  using assms
proof (induction rule: thread_run.induct)
  case (more_steps s ls s' l s'')
  then have "main_at s' = Pausing" "gShutdownFlag s' = gShutdownFlag s" "l \<noteq> Signal" "l \<noteq> Hangup"
    by auto
  with more_steps.hyps(2) show ?case
    by (auto elim!: thread_stepE)
qed simp

theorem pause_needs_signal_witness:
  "reachable 1 (one_watched Pausing True Pinging Created False) \<and>
   (\<nexists>s'. thread_run 1 (one_watched Pausing True Pinging Created False) [WatchdogStep] s' \<and>
      main_at s' \<noteq> Pausing)"
  using missed_signal pause_needs_signal[of 1 "one_watched Pausing True Pinging Created False" "[WatchdogStep]"]
  by auto

end
