(* ===== verification/Thread_Points.thy ===== *)
theory Thread_Points
  imports Monitor_Thread Threads
begin

text \<open>
  The control points of theory Threads are those of the detailed thread of Wpa_Loop and
  Monitor_Thread: what a monitor's thread does with the stop flag, its waits and the lines it takes
  is a path through the points by the steps of \<open>mon_step\<close>. Opening, attaching and detaching are
  between points.
\<close>

subsection \<open>What is seen of a thread\<close>

datatype mon_obs = Cleared | ReadFlag bool | Waited | Taken

fun obs_of :: "call \<times> answer \<Rightarrow> mon_obs option" where
  "obs_of (Flag LoadStop, a) = Some (ReadFlag (rc a \<noteq> 0))"
| "obs_of (Flag (WaitStop b), a) = Some Waited"
| "obs_of (Flag (StoreStop b), a) = (if b then None else Some Cleared)"
| "obs_of (Ctl (CtlRecv s n), a) = (if n = kRecvBufSize - 1 \<and> rc a \<ge> 0 then Some Taken else None)"
| "obs_of _ = None"

definition observed :: "env \<Rightarrow> call list \<Rightarrow> call list \<Rightarrow> mon_obs list" where
  "observed env h cs = view obs_of (exchanges env h cs)"

lemma observed_simps [simp]:
  "observed env h [] = []"
  "observed env h (c # cs) =
     (case obs_of (c, env h c) of None \<Rightarrow> observed env (h @ [c]) cs
      | Some l \<Rightarrow> l # observed env (h @ [c]) cs)"
  "observed env h (cs @ ds) = observed env h cs @ observed env (h @ cs) ds"
  by (simp_all add: observed_def exchanges_append split: option.split)

text \<open>A path: at the four tests the flag is read with the value that the step needs, at the others
  its value does not matter.\<close>

inductive follows :: "mon_point \<Rightarrow> mon_obs list \<Rightarrow> mon_point \<Rightarrow> bool" where
  stay: "follows p [] p"
| between: "p \<in> {Connecting, Polling, Detaching} \<Longrightarrow>
    mon_step \<lparr>at = p, stopRequested = b\<rparr> False \<lparr>at = q, stopRequested = b\<rparr> \<Longrightarrow>
    follows q os r \<Longrightarrow> follows p os r"
| clear: "mon_step \<lparr>at = Created, stopRequested = b\<rparr> False \<lparr>at = q, stopRequested = False\<rparr> \<Longrightarrow>
    follows q os r \<Longrightarrow> follows Created (Cleared # os) r"
| test: "p \<in> {Head, Serving, LostCheck, RetryCheck} \<Longrightarrow>
    mon_step \<lparr>at = p, stopRequested = b\<rparr> False \<lparr>at = q, stopRequested = b\<rparr> \<Longrightarrow>
    follows q os r \<Longrightarrow> follows p (ReadFlag b # os) r"
| wait: "mon_step \<lparr>at = Sleeping, stopRequested = b\<rparr> False \<lparr>at = q, stopRequested = b\<rparr> \<Longrightarrow>
    follows q os r \<Longrightarrow> follows Sleeping (Waited # os) r"
| take_line: "mon_step \<lparr>at = p, stopRequested = b\<rparr> True \<lparr>at = q, stopRequested = b\<rparr> \<Longrightarrow>
    follows q os r \<Longrightarrow> follows p (Taken # os) r"

lemma follows_trans: "follows p os q \<Longrightarrow> follows q os' r \<Longrightarrow> follows p (os @ os') r"
  by (induction rule: follows.induct) (auto intro: follows.intros)

text \<open>The single moves.\<close>

lemma moves:
  "follows Head os r \<Longrightarrow> follows Created (Cleared # os) r"
  "follows Finished os r \<Longrightarrow> follows Head (ReadFlag True # os) r"
  "follows Connecting os r \<Longrightarrow> follows Head (ReadFlag False # os) r"
  "follows RetryCheck os r \<Longrightarrow> follows Connecting os r"
  "follows Serving os r \<Longrightarrow> follows Connecting os r"
  "follows Detaching os r \<Longrightarrow> follows Serving (ReadFlag True # os) r"
  "follows Polling os r \<Longrightarrow> follows Serving (ReadFlag False # os) r"
  "follows Serving os r \<Longrightarrow> follows Polling os r"
  "follows Detaching os r \<Longrightarrow> follows Polling os r"
  "follows Serving os r \<Longrightarrow> follows Polling (Taken # os) r"
  "follows Detaching os r \<Longrightarrow> follows Polling (Taken # os) r"
  "follows LostCheck os r \<Longrightarrow> follows Detaching os r"
  "follows Finished os r \<Longrightarrow> follows LostCheck (ReadFlag True # os) r"
  "follows RetryCheck os r \<Longrightarrow> follows LostCheck (ReadFlag False # os) r"
  "follows Finished os r \<Longrightarrow> follows RetryCheck (ReadFlag True # os) r"
  "follows Sleeping os r \<Longrightarrow> follows RetryCheck (ReadFlag False # os) r"
  "follows Head os r \<Longrightarrow> follows Sleeping (Waited # os) r"
  by (rule clear[where b = False] test between[where b = False] wait[where b = False]
        take_line[where b = False]; (assumption | simp add: mon_step.simps))+

subsection \<open>Between the points\<close>

lemma unseen_bind_client [simp]: "observed env h (calls (bind_client env' s cli n) h') = []"
  by (induction n arbitrary: h h') (simp_all add: run_simps extends_rules Let_def)

lemma unseen_open [simp]:
  "observed env h (calls (set_nonblocking env' s) h') = []"
  "observed env h (calls (open_connect env' s path p) h') = []"
  "observed env h (calls (wpa_ctrl_open env' path') h') = []"
  "observed env h (calls (wpa_ctrl_close env' ctrl) h') = []"
  by (simp_all add: set_nonblocking_def open_connect_def wpa_ctrl_open_def wpa_ctrl_open2_def
      wpa_ctrl_close_def run_simps extends_rules split: option.split)

lemma unseen_retry_send [simp]: "observed env h (calls (retry_send env' s cmd n t) h') = []"
  by (induction n arbitrary: t h h') (simp_all add: run_simps extends_rules os_get_reltime_def)

lemma unseen_wait_reply [simp]:
  "len < kRecvBufSize - 1 \<Longrightarrow> observed env h (calls (wait_reply env' s len b n msgs) h') = []"
  by (induction n arbitrary: msgs h h') (simp_all add: run_simps extends_rules)

lemma unseen_attach [simp]:
  "observed env h (calls (wpa_ctrl_attach env' fuel ctrl) h') = []"
  "observed env h (calls (wpa_ctrl_detach env' fuel ctrl) h') = []"
  by (simp_all add: wpa_ctrl_attach_def wpa_ctrl_detach_def wpa_ctrl_attach_helper_def
      wpa_ctrl_request_def run_simps extends_rules kRecvBufSize_def split: option.split)

lemma unseen_callback [simp]:
  "observed env h' (calls (deliver (monitor_callback env' bits fuel classes cls) iface raw u) h) = []"
proof -
  have "list_all (\<lambda>c. \<not> monitor_call c) cs \<Longrightarrow> observed env h' cs = []" for cs
  proof (induction cs arbitrary: h')
    case (Cons c cs)
    then have "obs_of (c, a) = None" for a
      by (cases "(c, a)" rule: obs_of.cases) auto
    with Cons show ?case by simp
  qed simp
  then show ?thesis using deliver_calls by blast
qed

subsection \<open>The thread\<close>

lemma event_loop_moves:
  "follows Serving [ReadFlag True] Detaching"
  "follows Serving [ReadFlag False] Detaching"
  "follows Serving [ReadFlag False, Taken] Detaching"
  "follows Serving os r \<Longrightarrow> follows Serving (ReadFlag False # os) r"
  "follows Serving os r \<Longrightarrow> follows Serving (ReadFlag False # Taken # os) r"
  using moves(6)[OF stay] moves(7)[OF moves(9)[OF stay]] moves(7)[OF moves(11)[OF stay]]
    moves(7)[OF moves(8)] moves(7)[OF moves(10)] by blast+

lemma event_loop_follows:
  "follows Serving
     (observed env h
       (calls (runEventLoop env (monitor_callback env bits fuel classes cls) iface ctrl n s) h))
     (if fst (outcome (runEventLoop env (monitor_callback env bits fuel classes cls) iface ctrl n s) h)
      then Detaching else Serving)"
proof (induction n arbitrary: s h)
  case 0
  then show ?case by (simp add: stay)
next
  case (Suc n)
  let ?loop = "runEventLoop env (monitor_callback env bits fuel classes cls) iface ctrl n"
  have IH: "fst (outcome (?loop s) h) \<Longrightarrow> follows Serving (observed env h (calls (?loop s) h)) Detaching"
    "\<not> fst (outcome (?loop s) h) \<Longrightarrow> follows Serving (observed env h (calls (?loop s) h)) Serving" for s h
    using Suc[of h s] by simp_all
  let ?a = "env h (Flag LoadStop)"
  let ?p = "Ctl (PollIn (wpa_ctrl_get_fd ctrl) kPollTimeoutMs)"
  let ?r = "Ctl (CtlRecv (ctl_s ctrl) (kRecvBufSize - 1))"
  consider "rc ?a \<noteq> 0"
    | "rc ?a = 0" "outcome (wpa_ctrl_recv env ctrl (kRecvBufSize - 1)) (h @ [Flag LoadStop, ?p]) = None"
    | "rc ?a = 0" "outcome (wpa_ctrl_recv env ctrl (kRecvBufSize - 1)) (h @ [Flag LoadStop, ?p]) \<noteq> None"
    by blast
  then show ?case
  proof cases
    case 1
    then show ?thesis
      by (simp add: run_simps extends_rules monitor.loop_extends event_loop_moves)
  next
    case 2
    then have "rc (env (h @ [Flag LoadStop, ?p]) ?r) < 0"
      by (simp add: wpa_ctrl_recv_def run_simps extends_rules split: if_splits)
    with 2 IH show ?thesis
      by (simp add: run_simps extends_rules monitor.loop_extends event_loop_moves)
  next
    case 3
    then obtain raw where "outcome (wpa_ctrl_recv env ctrl (kRecvBufSize - 1))
        (h @ [Flag LoadStop, ?p]) = Some raw"
      and "rc (env (h @ [Flag LoadStop, ?p]) ?r) \<ge> 0"
      by (auto simp: wpa_ctrl_recv_def run_simps extends_rules split: if_splits)
    with 3 IH show ?thesis
      by (simp add: run_simps extends_rules monitor.loop_extends event_loop_moves)
  qed
qed

lemma event_loop_ended:
  assumes "outcome (runEventLoop env (monitor_callback env bits fuel classes cls) iface ctrl n s) h = (b, s')"
  shows "follows Serving
     (observed env h
       (calls (runEventLoop env (monitor_callback env bits fuel classes cls) iface ctrl n s) h))
     (if b then Detaching else Serving)"
  using event_loop_follows[of env h bits fuel classes cls iface ctrl n s] assms by simp

text \<open>Where an attempt leaves the thread.\<close>

definition attempt_ends :: "attempt \<Rightarrow> mon_point set" where
  "attempt_ends a =
     (case a of NotAttached \<Rightarrow> {RetryCheck} | ConnectionLost \<Rightarrow> {LostCheck}
      | StillTrying \<Rightarrow> {Connecting, Serving, Detaching})"

lemma attempt_follows:
  "\<exists>q \<in> attempt_ends
      (fst (outcome (try_connection env (monitor_callback env bits fuel classes cls) iface path n s) h)).
     follows Connecting
       (observed env h
         (calls (try_connection env (monitor_callback env bits fuel classes cls) iface path n s) h)) q"
proof (cases "outcome (wpa_ctrl_open env (Some path)) h")
  case None
  then show ?thesis
    by (simp add: try_connection_def run_simps extends_rules monitor.loop_extends attempt_ends_def
        moves(4)[OF stay])
next
  case (Some ctrl)
  let ?h = "h @ calls (wpa_ctrl_open env (Some path)) h"
  let ?h' = "?h @ calls (wpa_ctrl_attach env n ctrl) ?h"
  obtain b s' where loop:
    "outcome (runEventLoop env (monitor_callback env bits fuel classes cls) iface ctrl n s) ?h' = (b, s')"
    by (metis prod.collapse)
  note served = moves(5)[OF event_loop_ended[OF loop]]
  have lost: "follows Connecting os LostCheck" if "follows Connecting os Detaching" for os
    using follows_trans[OF that moves(12)[OF stay]] by simp
  show ?thesis
    using Some loop served
    by (cases b) (auto simp: try_connection_def run_simps extends_rules monitor.loop_extends
        attempt_ends_def stay moves(4)[OF stay] lost split: option.split)
qed

lemma reconnect_follows:
  "\<exists>q. follows Head
      (observed env h
        (calls (reconnect_loop env (monitor_callback env bits fuel classes cls) iface path k n backoff s) h)) q \<and>
    (q = Finished \<longleftrightarrow>
      fst (outcome (reconnect_loop env (monitor_callback env bits fuel classes cls) iface path k n backoff s) h))"
proof (induction n arbitrary: backoff s h)
  case 0
  then show ?case using stay[of Head] by auto
next
  case (Suc n)
  let ?cb = "monitor_callback env bits fuel classes cls"
  let ?loop = "reconnect_loop env ?cb iface path k n"
  let ?h = "h @ [Flag LoadStop]"
  let ?t = "try_connection env ?cb iface path k s"
  let ?h' = "?h @ calls ?t ?h"
  let ?stop = "\<lambda>h. rc (env h (Flag LoadStop)) \<noteq> 0"
  show ?case
  proof (cases "?stop h")
    case True
    then show ?thesis
      using moves(2)[OF stay] by (auto simp: run_simps extends_rules monitor.loop_extends)
  next
    case go: False
    obtain q where q: "q \<in> attempt_ends (fst (outcome ?t ?h))"
      and path: "follows Head (ReadFlag False # observed env ?h (calls ?t ?h)) q"
      using attempt_follows[of env bits fuel classes cls iface path k s ?h] moves(3) by blast
    have path_to: "follows Head (ReadFlag False # observed env ?h (calls ?t ?h) @ os) r"
      if "follows q os r" for os r
      using follows_trans[OF path that] by simp
    let ?rest = "\<lambda>b s1. do {
        again \<leftarrow> perform env (Flag LoadStop);
        (if rc again \<noteq> 0 then return (True, s1)
         else do { _ \<leftarrow> perform env (Flag (WaitStop b)); ?loop (next_backoff b) s1 }) }"
    have ext: "extends (?rest b s1)" for b s1
      by (intro extends_rules monitor.loop_extends)
    have rest: "\<exists>r. follows RetryCheck (observed env h1 (calls (?rest b s1) h1)) r \<and>
        (r = Finished \<longleftrightarrow> fst (outcome (?rest b s1) h1))" for h1 b s1
    proof (cases "?stop h1")
      case True
      then show ?thesis
        using moves(15)[OF stay] by (auto simp: run_simps extends_rules monitor.loop_extends)
    next
      case False
      obtain r where "follows Head (observed env (h1 @ [Flag LoadStop, Flag (WaitStop b)])
            (calls (?loop (next_backoff b) s1) (h1 @ [Flag LoadStop, Flag (WaitStop b)]))) r"
        and "r = Finished \<longleftrightarrow>
          fst (outcome (?loop (next_backoff b) s1) (h1 @ [Flag LoadStop, Flag (WaitStop b)]))"
        using Suc by blast
      with False show ?thesis
        by (intro exI[of _ r])
          (simp add: run_simps extends_rules monitor.loop_extends moves(16)[OF moves(17)])
    qed
    show ?thesis
    proof (cases "fst (outcome ?t ?h)")
      case StillTrying
      then show ?thesis
        using go q path by (auto simp: run_simps extends_rules monitor.loop_extends attempt_ends_def)
    next
      case NotAttached
      then have q': "q = RetryCheck" using q by (simp add: attempt_ends_def)
      obtain r where r: "follows RetryCheck (observed env ?h' (calls (?rest backoff (snd (outcome ?t ?h))) ?h')) r"
        "r = Finished \<longleftrightarrow> fst (outcome (?rest backoff (snd (outcome ?t ?h))) ?h')"
        using rest by blast
      have "calls (reconnect_loop env ?cb iface path k (Suc n) backoff s) h =
          Flag LoadStop # calls ?t ?h @ calls (?rest backoff (snd (outcome ?t ?h))) ?h'"
        "outcome (reconnect_loop env ?cb iface path k (Suc n) backoff s) h =
          outcome (?rest backoff (snd (outcome ?t ?h))) ?h'"
        using NotAttached go ext
        by (simp_all add: run_simps extends_rules monitor.loop_extends Let_def)
      then show ?thesis
        using path_to[of _ r] r go q' by (intro exI[of _ r]) simp
    next
      case ConnectionLost
      then have q': "q = LostCheck" using q by (simp add: attempt_ends_def)
      show ?thesis
      proof (cases "?stop ?h'")
        case True
        then show ?thesis
          using ConnectionLost go q' path_to[OF moves(13)[OF stay, folded q']]
          by (auto simp: run_simps extends_rules monitor.loop_extends)
      next
        case False
        let ?r = "?rest kInitialBackoff (snd (outcome ?t ?h))"
        let ?h1 = "?h' @ [Flag LoadStop]"
        obtain r where r: "follows RetryCheck (observed env ?h1 (calls ?r ?h1)) r"
          "r = Finished \<longleftrightarrow> fst (outcome ?r ?h1)"
          using rest by blast
        have "calls (reconnect_loop env ?cb iface path k (Suc n) backoff s) h =
            Flag LoadStop # calls ?t ?h @ Flag LoadStop # calls ?r ?h1"
          "outcome (reconnect_loop env ?cb iface path k (Suc n) backoff s) h = outcome ?r ?h1"
          using ConnectionLost go False ext
          by (simp_all add: run_simps extends_rules monitor.loop_extends Let_def)
        then show ?thesis
          using path_to[of _ r] moves(14)[OF r(1)] r(2) go False q' by (intro exI[of _ r]) simp
      qed
    qed
  qed
qed

text \<open>C10: a monitor's thread, with all its connections and whatever the kernel and the supplicant
  answer, moves through the control points of theory Threads by the steps of that theory, from before
  \<^verbatim>\<open>start\<close>: every reading of the flag, every wait and every line that it takes is one of those steps,
  and it has returned exactly when it is at the last point.\<close>

theorem thread_follows_points:
  "\<exists>q. follows Created (observed env h (calls (monitor_thread env bits fuel classes cls k n s) h)) q \<and>
     (q = Finished \<longleftrightarrow> fst (outcome (monitor_thread env bits fuel classes cls k n s) h) \<noteq> None)"
proof -
  let ?w = "make_watch env bits fuel classes cls"
  let ?loop = "reconnect_loop env (monitor_callback env bits fuel classes cls) (w_iface ?w)
    (w_ctrlPath ?w) k n kInitialBackoff (w_fsm ?w, s)"
  let ?h = "h @ [Flag (StoreStop False)]"
  obtain q where "follows Head (observed env ?h (calls ?loop ?h)) q"
    and "q = Finished \<longleftrightarrow> fst (outcome ?loop ?h)"
    using reconnect_follows by blast
  then show ?thesis
    by (intro exI[of _ q])
      (simp add: monitor_thread_def start_monitor_def run_simps extends_rules monitor.loop_extends
        Let_def moves(1))
qed

end
