(* ===== verification/Backoff_Wait.thy ===== *)
theory Backoff_Wait
  imports Main
begin

text \<open>
  The wait between two attempts in \<^verbatim>\<open>WpaMonitor::start\<close> and \<^verbatim>\<open>WpaMonitor::stop\<close> of
  \<^verbatim>\<open>wpa/wpa_monitor.cpp\<close>, at the condition variable's level. \<^verbatim>\<open>wait_for\<close> tests the flag, then waits
  until it is notified or the time is over, and tests again; \<^verbatim>\<open>stop\<close> stores the flag and notifies,
  without the mutex, so its two actions may fall anywhere between the waiter's. In theory Wpa_Loop
  this is one call, in theory Threads one step.
\<close>

subsection \<open>Steps\<close>

text \<open>The waiter: at a test of the flag, with the mutex; past a test that read false, before it is in
  the variable's queue; in the queue; after the return. The stopper: before the store, between the
  store and \<^verbatim>\<open>notify_all\<close>, after it.\<close>

datatype wait_point = Testing | Entering | Queued | Over
datatype stop_point = BeforeStore | BeforeNotify | StopReturned

record backoff =
  waiter :: wait_point
  stopper :: stop_point
  flag :: bool
  time_over :: bool

definition backoff_start :: backoff where
  "backoff_start = \<lparr>waiter = Testing, stopper = BeforeStore, flag = False, time_over = False\<rparr>"

datatype wait_label = WaiterStep | StopperStep | TimeOut

text \<open>The first test is at the entry, the later ones after a wake-up, which may be spurious; when the
  time is over the wait returns after a last test, whatever it reads.\<close>

inductive wait_step :: "backoff \<Rightarrow> wait_label \<Rightarrow> backoff \<Rightarrow> bool" where
  test_true: "waiter s = Testing \<Longrightarrow> flag s \<Longrightarrow> wait_step s WaiterStep (s\<lparr>waiter := Over\<rparr>)"
| test_late: "waiter s = Testing \<Longrightarrow> time_over s \<Longrightarrow> wait_step s WaiterStep (s\<lparr>waiter := Over\<rparr>)"
| test_false: "waiter s = Testing \<Longrightarrow> \<not> flag s \<Longrightarrow> \<not> time_over s \<Longrightarrow>
    wait_step s WaiterStep (s\<lparr>waiter := Entering\<rparr>)"
| enter: "waiter s = Entering \<Longrightarrow> wait_step s WaiterStep (s\<lparr>waiter := Queued\<rparr>)"
| spurious: "waiter s = Queued \<Longrightarrow> wait_step s WaiterStep (s\<lparr>waiter := Testing\<rparr>)"
| time_out: "waiter s = Queued \<Longrightarrow>
    wait_step s TimeOut (s\<lparr>waiter := Testing, time_over := True\<rparr>)"
| store: "stopper s = BeforeStore \<Longrightarrow>
    wait_step s StopperStep (s\<lparr>stopper := BeforeNotify, flag := True\<rparr>)"
| notify: "stopper s = BeforeNotify \<Longrightarrow>
    wait_step s StopperStep (s\<lparr>stopper := StopReturned,
      waiter := if waiter s = Queued then Testing else waiter s\<rparr>)"

inductive wait_reachable :: "backoff \<Rightarrow> bool" where
  begin_wait: "wait_reachable backoff_start"
| more_wait: "wait_reachable s \<Longrightarrow> wait_step s l s' \<Longrightarrow> wait_reachable s'"

inductive_cases wait_stepE: "wait_step s l s'"

subsection \<open>Properties\<close>

lemma flag_stored: "wait_reachable s \<Longrightarrow> flag s \<longleftrightarrow> stopper s \<noteq> BeforeStore"
proof (induction rule: wait_reachable.induct)
  case begin_wait
  then show ?case by (simp add: backoff_start_def)
next
  case (more_wait s l s')
  from more_wait(2,3) show ?case by (cases rule: wait_step.cases) auto
qed

text \<open>A wait that a stop finds in the queue is over after one more test; so is one that has not
  begun.\<close>

theorem queued_wait_interrupted:
  assumes "wait_reachable s" and "stopper s = BeforeNotify" and "waiter s = Queued \<or> waiter s = Testing"
    and "wait_step s StopperStep s'" and "wait_step s' l s''"
  shows "waiter s'' = Over"
proof -
  have "flag s" using flag_stored[OF assms(1)] assms(2) by simp
  with assms(2,3,4) have s': "waiter s' = Testing" "flag s'" "stopper s' = StopReturned"
    by (auto elim!: wait_stepE)
  from assms(5) show ?thesis using s' by (cases rule: wait_step.cases) auto
qed

text \<open>A stop that comes between the test and the queue is not noticed: it has returned, the flag
  is set, and the waiter sleeps; unless it wakes for no reason only the time-out ends that.\<close>

theorem wake_up_lost:
  "\<exists>s. wait_reachable s \<and> stopper s = StopReturned \<and> flag s \<and> waiter s = Queued \<and> \<not> time_over s \<and>
     (\<forall>s'. \<not> wait_step s StopperStep s')"
proof -
  let ?s = "\<lambda>w p f. \<lparr>waiter = w, stopper = p, flag = f, time_over = False\<rparr>"
  have "wait_reachable (?s Entering BeforeStore False)"
    using more_wait[OF begin_wait test_false[of backoff_start]] by (simp add: backoff_start_def)
  from more_wait[OF this store] have "wait_reachable (?s Entering BeforeNotify True)" by simp
  from more_wait[OF this notify] have "wait_reachable (?s Entering StopReturned True)" by simp
  from more_wait[OF this enter] have "wait_reachable (?s Queued StopReturned True)" by simp
  moreover have "\<not> wait_step (?s Queued StopReturned True) StopperStep s'" for s'
    by (auto elim!: wait_stepE)
  ultimately show ?thesis by force
qed

end
