(* ===== verification/Api_Threads.thy ===== *)
theory Api_Threads
  imports Main
begin

text \<open>
  The registry of \<^verbatim>\<open>api/consumer_api_server.cpp\<close> under its mutex, as the server's thread and the
  monitors' threads share it. The server's thread takes events of connections in batches, accepts,
  answers requests and removes clients; a monitor's thread sends a notification to every consumer of
  a class and removes those it failed on. A descriptor is a number that the kernel gives out again
  once it is closed, to any thread; a step says what a descriptor denotes when it is used.

  Only what concerns descriptors is here: what the messages say is in theory Api_Server, and
  stopping the server, which joins its thread first, in Api_Lifecycle.
\<close>

subsection \<open>State\<close>

type_synonym fd = nat

text \<open>What an open descriptor denotes: a connection, counted, or something of another component.\<close>

datatype owner = Connection nat | Foreign

text \<open>A registered descriptor with the connection that asked for the registration.\<close>

type_synonym registration = "fd \<times> nat"

text \<open>The server's thread: between events; with a request read from a connection; with an answer to
  send; in \<^verbatim>\<open>removeClient\<close> after \<^verbatim>\<open>close\<close>, before it has the mutex.\<close>

datatype server_point = Dispatching | Handling fd nat | Answering fd | ClosedBeforeLock fd

text \<open>The thread that broadcasts and holds the mutex: sending, with the descriptors to come and those
  that failed; removing those.\<close>

datatype broadcast_point = Quiet | Sending "fd list" "fd list" | Removing "fd list"

record api_state =
  table :: "fd \<Rightarrow> owner option"
  fresh :: nat
  registered :: "registration list"
  batch :: "fd list"
  server_at :: server_point
  broadcast_at :: broadcast_point

definition initial_api :: api_state where
  "initial_api = \<lparr>table = (\<lambda>fd. None), fresh = 0, registered = [], batch = [],
     server_at = Dispatching, broadcast_at = Quiet\<rparr>"

text \<open>The mutex is free when no broadcast is under way; the server's own sections under it are
  single steps.\<close>

definition mutex_free :: "api_state \<Rightarrow> bool" where
  "mutex_free s \<longleftrightarrow> broadcast_at s = Quiet"

text \<open>\<^verbatim>\<open>std::find_if\<close> and \<^verbatim>\<open>erase\<close> of the entry with the descriptor.\<close>

fun erase_fd :: "fd \<Rightarrow> registration list \<Rightarrow> registration list" where
  "erase_fd fd [] = []"
| "erase_fd fd (e # es) = (if fst e = fd then es else e # erase_fd fd es)"

subsection \<open>Steps\<close>

text \<open>What a descriptor is used for, with what it denotes at that moment: the server's thread
  answers on it or closes it; a broadcast notifies it or drops it.\<close>

datatype api_label =
    Silent
  | Answered fd "owner option"
  | Closed fd "owner option"
  | Notified fd "owner option"
  | Dropped fd "owner option"

text \<open>
  \<^item> \<open>foreign_open\<close>, \<open>foreign_close\<close>: another component opens or closes a descriptor of its own.
  \<^item> \<open>epoll_wait\<close>: the kernel reports events of open connections, each once; \<open>accept\<close>:
    \<^verbatim>\<open>handleAccept\<close>, one connection.
  \<^item> \<open>recv_request\<close>: \<^verbatim>\<open>recvMsg\<close> succeeds; only connections deliver whole messages.
    \<open>remove_close\<close>: a hang-up, or a \<^verbatim>\<open>recvMsg\<close> that fails; \<open>remove_erase\<close>: the rest of
    \<^verbatim>\<open>removeClient\<close>.
  \<^item> \<open>register\<close>: the section of \<^verbatim>\<open>handleRegister\<close> under the mutex; \<open>unregister\<close>: that of
    \<^verbatim>\<open>handleUnregister\<close>, which also answers, for whatever consumer the handle names;
    \<open>no_lock\<close>: the other requests and the refused ones; \<open>answer\<close>: \<^verbatim>\<open>sendMsg\<close> after those.
  \<^item> The rest is \<^verbatim>\<open>broadcastPathEvent\<close> from its lock on; \<open>wanted\<close> are the entries of the class.
\<close>

inductive api_step :: "api_state \<Rightarrow> api_label \<Rightarrow> api_state \<Rightarrow> bool" where
  foreign_open: "table s fd = None \<Longrightarrow> api_step s Silent (s\<lparr>table := (table s)(fd \<mapsto> Foreign)\<rparr>)"
| foreign_close: "table s fd = Some Foreign \<Longrightarrow>
    api_step s Silent (s\<lparr>table := (table s)(fd := None)\<rparr>)"
| epoll_wait: "server_at s = Dispatching \<Longrightarrow> batch s = [] \<Longrightarrow>
    distinct fds \<Longrightarrow> list_all (\<lambda>fd. \<exists>c. table s fd = Some (Connection c)) fds \<Longrightarrow>
    api_step s Silent (s\<lparr>batch := fds\<rparr>)"
| accept: "server_at s = Dispatching \<Longrightarrow> table s fd = None \<Longrightarrow>
    api_step s Silent (s\<lparr>table := (table s)(fd \<mapsto> Connection (fresh s)), fresh := Suc (fresh s)\<rparr>)"
| recv_request: "server_at s = Dispatching \<Longrightarrow> batch s = fd # fds \<Longrightarrow>
    table s fd = Some (Connection c) \<Longrightarrow>
    api_step s Silent (s\<lparr>batch := fds, server_at := Handling fd c\<rparr>)"
| remove_close: "server_at s = Dispatching \<Longrightarrow> batch s = fd # fds \<Longrightarrow>
    api_step s (Closed fd (table s fd))
      (s\<lparr>batch := fds, table := (table s)(fd := None), server_at := ClosedBeforeLock fd\<rparr>)"
| remove_erase: "server_at s = ClosedBeforeLock fd \<Longrightarrow> mutex_free s \<Longrightarrow>
    api_step s Silent (s\<lparr>registered := erase_fd fd (registered s), server_at := Dispatching\<rparr>)"
| register: "server_at s = Handling fd c \<Longrightarrow> mutex_free s \<Longrightarrow>
    api_step s Silent (s\<lparr>registered := filter (\<lambda>e. fst e \<noteq> fd) (registered s) @ [(fd, c)],
      server_at := Answering fd\<rparr>)"
| unregister: "server_at s = Handling fd c \<Longrightarrow> mutex_free s \<Longrightarrow>
    api_step s (Answered fd (table s fd))
      (s\<lparr>registered := erase_fd victim (registered s), server_at := Dispatching\<rparr>)"
| no_lock: "server_at s = Handling fd c \<Longrightarrow> api_step s Silent (s\<lparr>server_at := Answering fd\<rparr>)"
| answer: "server_at s = Answering fd \<Longrightarrow>
    api_step s (Answered fd (table s fd)) (s\<lparr>server_at := Dispatching\<rparr>)"
| broadcast_lock: "mutex_free s \<Longrightarrow>
    api_step s Silent (s\<lparr>broadcast_at := Sending (map fst (filter wanted (registered s))) []\<rparr>)"
| send_ok: "broadcast_at s = Sending (fd # fds) dead \<Longrightarrow> table s fd \<noteq> None \<Longrightarrow>
    api_step s (Notified fd (table s fd)) (s\<lparr>broadcast_at := Sending fds dead\<rparr>)"
| send_failed: "broadcast_at s = Sending (fd # fds) dead \<Longrightarrow>
    api_step s (Notified fd (table s fd)) (s\<lparr>broadcast_at := Sending fds (dead @ [fd])\<rparr>)"
| all_sent: "broadcast_at s = Sending [] dead \<Longrightarrow>
    api_step s Silent (s\<lparr>broadcast_at := Removing dead\<rparr>)"
| remove_dead_one: "broadcast_at s = Removing (fd # fds) \<Longrightarrow>
    api_step s (Dropped fd (table s fd))
      (s\<lparr>registered := erase_fd fd (registered s), table := (table s)(fd := None),
         broadcast_at := Removing fds\<rparr>)"
| broadcast_unlock: "broadcast_at s = Removing [] \<Longrightarrow>
    api_step s Silent (s\<lparr>broadcast_at := Quiet\<rparr>)"

inductive_cases answeredE: "api_step s (Answered fd w) s'"
inductive_cases closedE: "api_step s (Closed fd w) s'"

fun is_drop :: "api_label \<Rightarrow> bool" where
  "is_drop (Dropped fd w) = True"
| "is_drop _ = False"

text \<open>The states of runs, and of those in which no broadcast has dropped a consumer.\<close>

inductive api_reachable :: "api_state \<Rightarrow> bool" where
  start_api: "api_reachable initial_api"
| step_api: "api_reachable s \<Longrightarrow> api_step s l s' \<Longrightarrow> api_reachable s'"

inductive undropped :: "api_state \<Rightarrow> bool" where
  start_undropped: "undropped initial_api"
| step_undropped: "undropped s \<Longrightarrow> api_step s l s' \<Longrightarrow> \<not> is_drop l \<Longrightarrow> undropped s'"

lemma undropped_reachable: "undropped s \<Longrightarrow> api_reachable s"
  by (induction rule: undropped.induct) (blast intro: start_api step_api)+

subsection \<open>The registry under the mutex\<close>

lemma set_erase_fd: "set (erase_fd fd es) \<subseteq> set es"
  by (induction es) auto

lemma fst_erase_fd: "distinct (map fst es) \<Longrightarrow>
  fst ` set (erase_fd fd es) = fst ` set es - {fd}"
proof (induction es)
  case (Cons e es)
  then show ?case by (cases "fst e = fd") auto
qed simp

lemma distinct_erase_fd: "distinct (map fst es) \<Longrightarrow> distinct (map fst (erase_fd fd es))"
proof (induction es)
  case (Cons e es)
  then show ?case using set_erase_fd[of fd es] by auto
qed simp

lemma erase_fd_others:
  assumes "distinct (map fst es)" and "e \<in> set (erase_fd fd es)"
  shows "e \<in> set es \<and> fst e \<noteq> fd"
  using assms set_erase_fd[of fd es] fst_erase_fd[of es fd] by blast

text \<open>What is left to do under the mutex.\<close>

fun pending :: "broadcast_point \<Rightarrow> fd list" where
  "pending Quiet = []"
| "pending (Sending fds dead) = dead @ fds"
| "pending (Removing fds) = fds"

definition registry_locked :: "api_state \<Rightarrow> bool" where
  "registry_locked s \<longleftrightarrow>
     distinct (map fst (registered s)) \<and>
     distinct (pending (broadcast_at s)) \<and>
     set (pending (broadcast_at s)) \<subseteq> fst ` set (registered s)"

lemma distinct_wanted: "distinct (map fst es) \<Longrightarrow> distinct (map fst (filter wanted es))"
  by (simp add: distinct_map_filter)

lemma registry_locked_step: "api_step s l s' \<Longrightarrow> registry_locked s \<Longrightarrow> registry_locked s'"
  by (induction rule: api_step.induct)
    (auto simp: registry_locked_def mutex_free_def fst_erase_fd distinct_erase_fd distinct_wanted)

lemma registry_locked_reachable: "api_reachable s \<Longrightarrow> registry_locked s"
proof (induction rule: api_reachable.induct)
  case start_api
  then show ?case by (simp add: registry_locked_def initial_api_def)
next
  case (step_api s l s')
  then show ?case using registry_locked_step by blast
qed

subsection \<open>As long as no broadcast has dropped a consumer\<close>

text \<open>A registered descriptor denotes the connection it was registered for, unless the server's
  thread has just closed it; so do the descriptors in the batch and the one in hand.\<close>

definition entries_live :: "api_state \<Rightarrow> bool" where
  "entries_live s \<longleftrightarrow>
     (\<forall>fd c. (fd, c) \<in> set (registered s) \<longrightarrow>
        table s fd = Some (Connection c) \<or> server_at s = ClosedBeforeLock fd) \<and>
     (\<forall>fd \<in> set (batch s). \<exists>c. table s fd = Some (Connection c)) \<and> distinct (batch s) \<and>
     (\<forall>fd c. server_at s = Handling fd c \<longrightarrow> table s fd = Some (Connection c)) \<and>
     (\<forall>fd. server_at s = Answering fd \<longrightarrow> (\<exists>c. table s fd = Some (Connection c)))"

lemma entries_liveI:
  assumes "\<And>fd c. (fd, c) \<in> set (registered s) \<Longrightarrow>
      table s fd = Some (Connection c) \<or> server_at s = ClosedBeforeLock fd"
    and "\<And>fd. fd \<in> set (batch s) \<Longrightarrow> \<exists>c. table s fd = Some (Connection c)"
    and "distinct (batch s)"
    and "\<And>fd c. server_at s = Handling fd c \<Longrightarrow> table s fd = Some (Connection c)"
    and "\<And>fd. server_at s = Answering fd \<Longrightarrow> \<exists>c. table s fd = Some (Connection c)"
  shows "entries_live s"
  using assms unfolding entries_live_def by blast

lemma entries_liveD:
  assumes "entries_live s"
  shows "(fd, c) \<in> set (registered s) \<Longrightarrow>
      table s fd = Some (Connection c) \<or> server_at s = ClosedBeforeLock fd"
    and "fd \<in> set (batch s) \<Longrightarrow> \<exists>c. table s fd = Some (Connection c)"
    and "distinct (batch s)"
    and "server_at s = Handling fd c \<Longrightarrow> table s fd = Some (Connection c)"
    and "server_at s = Answering fd \<Longrightarrow> \<exists>c. table s fd = Some (Connection c)"
  using assms unfolding entries_live_def by blast+

lemma entries_live_step:
  "api_step s l s' \<Longrightarrow> \<not> is_drop l \<Longrightarrow> registry_locked s \<Longrightarrow> entries_live s \<Longrightarrow> entries_live s'"
proof (induction rule: api_step.induct)
  case (remove_erase s fd)
  then show ?case
    using erase_fd_others[of "registered s" _ fd]
    by (fastforce simp: entries_live_def registry_locked_def)
next
  case (unregister s fd c victim)
  then show ?case
    using set_erase_fd[of victim "registered s"]
    by (fastforce simp: entries_live_def)
next
  case (epoll_wait s fds)
  then show ?case by (auto simp: entries_live_def list_all_iff)
next
  case (remove_close s fd fds)
  then show ?case by (auto simp: entries_live_def)
qed (unfold entries_live_def, (force simp: mutex_free_def)+)

lemma entries_live_undropped: "undropped s \<Longrightarrow> entries_live s"
proof (induction rule: undropped.induct)
  case start_undropped
  then show ?case by (simp add: entries_live_def initial_api_def)
next
  case (step_undropped s l s')
  then show ?case
    using entries_live_step registry_locked_reachable undropped_reachable by blast
qed

text \<open>C25: As long as no broadcast has dropped a consumer, a registered descriptor denotes the
  connection that it was registered for, unless the server's thread is about to erase its entry,
  and the server's thread answers on and closes nothing but connections.\<close>

theorem undropped_entries_live:
  assumes "undropped s"
  shows "(\<forall>fd c. (fd, c) \<in> set (registered s) \<longrightarrow>
        table s fd = Some (Connection c) \<or> server_at s = ClosedBeforeLock fd)
    \<and> (\<forall>fd w s'. api_step s (Answered fd w) s' \<or> api_step s (Closed fd w) s' \<longrightarrow>
        (\<exists>c. w = Some (Connection c)))"
proof -
  have "entries_live s" using assms by (rule entries_live_undropped)
  note live = entries_liveD[OF this]
  have "\<exists>c. w = Some (Connection c)" if "api_step s (Answered fd w) s'" for fd w s'
    using that by (cases rule: answeredE) (auto dest: live(4,5))
  moreover have "\<exists>c. w = Some (Connection c)" if "api_step s (Closed fd w) s'" for fd w s'
    using that by (cases rule: closedE) (auto intro: live(2))
  ultimately show ?thesis using live(1) by blast
qed

subsection \<open>Runs\<close>

lemma reach_step: "api_reachable s \<Longrightarrow> api_step s l s' \<Longrightarrow> s' = t \<Longrightarrow> api_reachable t"
  using step_api by blast

lemma undropped_step:
  "undropped s \<Longrightarrow> api_step s l s' \<Longrightarrow> \<not> is_drop l \<Longrightarrow> s' = t \<Longrightarrow> undropped t"
  using step_undropped by blast

text \<open>States with at most one connection, on the descriptor 0.\<close>

abbreviation api_at :: "(fd \<Rightarrow> owner option) \<Rightarrow> registration list \<Rightarrow> fd list \<Rightarrow> server_point \<Rightarrow>
    broadcast_point \<Rightarrow> api_state" where
  "api_at t r b v w \<equiv>
     \<lparr>table = t, fresh = 1, registered = r, batch = b, server_at = v, broadcast_at = w\<rparr>"

abbreviation joined :: "fd \<Rightarrow> owner option" where
  "joined \<equiv> [0 \<mapsto> Connection 0]"

abbreviation entry :: "registration list" where
  "entry \<equiv> [(0, 0)]"

text \<open>One consumer has connected and registered, and its connection has something to read.\<close>

lemma one_consumer: "undropped (api_at joined entry [0] Dispatching Quiet)"
proof -
  have "undropped (api_at joined [] [] Dispatching Quiet)"
    using undropped_step[OF start_undropped accept[of _ 0]] by (simp add: initial_api_def)
  from undropped_step[OF this epoll_wait[of _ "[0]"]]
  have "undropped (api_at joined [] [0] Dispatching Quiet)" by simp
  from undropped_step[OF this recv_request[of _ 0 "[]" 0]]
  have "undropped (api_at joined [] [] (Handling 0 0) Quiet)" by simp
  from undropped_step[OF this register[of _ 0 0]]
  have "undropped (api_at joined entry [] (Answering 0) Quiet)" by (simp add: mutex_free_def)
  from undropped_step[OF this answer[of _ 0]]
  have "undropped (api_at joined entry [] Dispatching Quiet)" by simp
  from undropped_step[OF this epoll_wait[of _ "[0]"]]
  show ?thesis by simp
qed

lemma undropped_entries_live_witness:
  "table (api_at joined entry [0] Dispatching Quiet) 0 = Some (Connection 0)
    \<or> server_at (api_at joined entry [0] Dispatching Quiet) = ClosedBeforeLock 0"
  using undropped_entries_live[OF one_consumer] by auto

text \<open>A hang-up closes the number; the next holder is there when the broadcast drops it.\<close>

lemma hang_up_race: "undropped (api_at [0 \<mapsto> Foreign] entry [] (ClosedBeforeLock 0) (Removing [0]))"
proof -
  let ?at = "\<lambda>t w. api_at t entry [] (ClosedBeforeLock 0) w"
  have "undropped (?at Map.empty Quiet)"
    using undropped_step[OF one_consumer remove_close[of _ 0 "[]"]] by simp
  from undropped_step[OF this foreign_open[of _ 0]]
  have "undropped (?at [0 \<mapsto> Foreign] Quiet)" by simp
  from undropped_step[OF this broadcast_lock[of _ "\<lambda>_. True"]]
  have "undropped (?at [0 \<mapsto> Foreign] (Sending [0] []))" by (simp add: mutex_free_def)
  from undropped_step[OF this send_failed[of _ 0 "[]" "[]"]]
  have "undropped (?at [0 \<mapsto> Foreign] (Sending [] [0]))" by simp
  from undropped_step[OF this all_sent[of _ "[0]"]]
  show ?thesis by simp
qed

text \<open>A broadcast drops the consumer, whatever the server's thread is at.\<close>

lemma dropped:
  assumes "api_reachable (api_at joined entry b v Quiet)"
  shows "api_reachable (api_at Map.empty [] b v Quiet)"
proof -
  from reach_step[OF assms broadcast_lock[of _ "\<lambda>_. True"]]
  have "api_reachable (api_at joined entry b v (Sending [0] []))" by (simp add: mutex_free_def)
  from reach_step[OF this send_failed[of _ 0 "[]" "[]"]]
  have "api_reachable (api_at joined entry b v (Sending [] [0]))" by simp
  from reach_step[OF this all_sent[of _ "[0]"]]
  have "api_reachable (api_at joined entry b v (Removing [0]))" by simp
  from reach_step[OF this remove_dead_one[of _ 0 "[]"]]
  have "api_reachable (api_at Map.empty [] b v (Removing []))" by simp
  from reach_step[OF this broadcast_unlock]
  show ?thesis by simp
qed

lemma stale_event_race: "api_reachable (api_at [0 \<mapsto> Foreign] [] [0] Dispatching Quiet)"
  using reach_step[OF dropped[OF undropped_reachable[OF one_consumer]] foreign_open[of _ 0]] by simp

lemma renewal_race: "api_reachable (api_at Map.empty entry [] Dispatching Quiet)"
proof -
  have "api_reachable (api_at joined entry [] (Handling 0 0) Quiet)"
    using reach_step[OF undropped_reachable[OF one_consumer] recv_request[of _ 0 "[]" 0]] by simp
  from reach_step[OF dropped[OF this] register[of _ 0 0]]
  have "api_reachable (api_at Map.empty entry [] (Answering 0) Quiet)" by (simp add: mutex_free_def)
  from reach_step[OF this answer[of _ 0]]
  show ?thesis by simp
qed

text \<open>A new consumer is notified before its registration is answered.\<close>

lemma event_before_answer:
  "\<exists>s s'. undropped s \<and> server_at s = Answering 0 \<and>
     api_step s (Notified 0 (Some (Connection 0))) s'"
proof -
  let ?s = "api_at joined entry [] (Answering 0)"
  have "undropped (api_at joined entry [] (Handling 0 0) Quiet)"
    using undropped_step[OF one_consumer recv_request[of _ 0 "[]" 0]] by simp
  from undropped_step[OF this register[of _ 0 0]]
  have "undropped (?s Quiet)" by (simp add: mutex_free_def)
  from undropped_step[OF this broadcast_lock[of _ "\<lambda>_. True"]]
  have "undropped (?s (Sending [0] []))" by (simp add: mutex_free_def)
  moreover have "api_step (?s (Sending [0] [])) (Notified 0 (Some (Connection 0))) (?s (Sending [] []))"
    using send_ok[of "?s (Sending [0] [])" 0 "[]" "[]"] by simp
  ultimately show ?thesis by force
qed

text \<open>C26: A descriptor can be used for what it no longer denotes. A broadcast can drop, and close, a
  descriptor of another component, when a hang-up has closed the number and its entry is still
  there. The server's thread can close one, when a broadcast has closed the number that an event is
  pending for. And a consumer that registers again while a broadcast drops it stays registered
  without a connection.\<close>

theorem descriptors_reused:
  "(\<exists>s s'. undropped s \<and> api_step s (Dropped 0 (Some Foreign)) s')
   \<and> (\<exists>s s'. api_reachable s \<and> api_step s (Closed 0 (Some Foreign)) s')
   \<and> (\<exists>s. api_reachable s \<and> (0, 0) \<in> set (registered s) \<and> table s 0 = None \<and>
        batch s = [] \<and> server_at s = Dispatching \<and> broadcast_at s = Quiet)"
proof (intro conjI)
  let ?hung_up = "api_at [0 \<mapsto> Foreign] entry [] (ClosedBeforeLock 0) (Removing [0])"
  let ?stale = "api_at [0 \<mapsto> Foreign] [] [0] Dispatching Quiet"
  have "api_step ?hung_up (Dropped 0 (table ?hung_up 0))
      (api_at Map.empty [] [] (ClosedBeforeLock 0) (Removing []))"
    using remove_dead_one[of ?hung_up 0 "[]"] by simp
  with hang_up_race show "\<exists>s s'. undropped s \<and> api_step s (Dropped 0 (Some Foreign)) s'"
    by (metis api_state.select_convs(1) fun_upd_same)
  have "api_step ?stale (Closed 0 (table ?stale 0))
      (api_at Map.empty [] [] (ClosedBeforeLock 0) Quiet)"
    using remove_close[of ?stale 0 "[]"] by simp
  with stale_event_race show "\<exists>s s'. api_reachable s \<and> api_step s (Closed 0 (Some Foreign)) s'"
    by (metis api_state.select_convs(1) fun_upd_same)
  show "\<exists>s. api_reachable s \<and> (0, 0) \<in> set (registered s) \<and> table s 0 = None \<and>
      batch s = [] \<and> server_at s = Dispatching \<and> broadcast_at s = Quiet"
    using renewal_race by force
qed

end
