(* ===== verification/Mock_Consumer.thy ===== *)
theory Mock_Consumer
  imports Daemon Api_Threads
begin

text \<open>
  \<^verbatim>\<open>tests/mock_consumer.cpp\<close>: the repository's consumer of the API, which is the other end of the
  protocol. It connects, registers for a class, takes notifications up to a number and
  unregisters. With the server of Api_Server at the other end of the stream this gives the
  registration from one process to the other. Its \<^verbatim>\<open>sendMsg\<close> and \<^verbatim>\<open>recvMsg\<close> are those of the
  server, line for line (\<^verbatim>\<open>sendMsg\<close> returns whether it succeeded, as the server's \<^verbatim>\<open>trySendMsg\<close>).
  What it prints is not modelled.
\<close>

subsection \<open>Arguments\<close>

record consumer_args =
  arg_socket :: string
  arg_class :: string
  arg_events :: int

definition default_args :: consumer_args where
  "default_args =
     \<lparr>arg_socket = kSocketPath, arg_class = ''multipath'', arg_events = 10\<rparr>"

text \<open>\<^verbatim>\<open>std::stoi\<close>: white space, a sign, the longest run of digits; it throws without a digit and
  when the value is not an \<^verbatim>\<open>int\<close>, and nothing here catches that.\<close>

definition stoi :: "string \<Rightarrow> int option" where
  "stoi s =
     (let t = dropWhile is_space s;
          neg = t \<noteq> [] \<and> hd t = CHR ''-'';
          u = (if t \<noteq> [] \<and> (hd t = CHR ''-'' \<or> hd t = CHR ''+'') then tl t else t);
          n = int (digits_value 10 0 u);
          v = (if neg then - n else n)
      in if u = [] \<or> \<not> is_digit 10 (hd u) then None
         else if - (2 ^ 31) \<le> v \<and> v < 2 ^ 31 then Some v else None)"

text \<open>The arguments after the program's name; an option in the last place is ignored.\<close>

fun parse_consumer_args :: "consumer_args \<Rightarrow> string list \<Rightarrow> consumer_args option" where
  "parse_consumer_args a [] = Some a"
| "parse_consumer_args a [v] = Some a"
| "parse_consumer_args a (v # w # vs) =
     (if v = ''--socket'' then parse_consumer_args (a\<lparr>arg_socket := w\<rparr>) vs
      else if v = ''--class'' then parse_consumer_args (a\<lparr>arg_class := w\<rparr>) vs
      else if v = ''--events'' then
        (case stoi w of
           None \<Rightarrow> None
         | Some n \<Rightarrow> parse_consumer_args (a\<lparr>arg_events := n\<rparr>) vs)
      else parse_consumer_args a (w # vs))"

subsection \<open>The program\<close>

definition register_request :: "string \<Rightarrow> int \<Rightarrow> ApiMsg" where
  "register_request classId pid =
     zero_msg\<lparr>msg_type := MsgType_code Register, msg_pid := word_of_int pid,
       msg_classId := put_text classId\<rparr>"

definition unregister_request :: "u64 \<Rightarrow> ApiMsg" where
  "unregister_request handle = zero_msg\<lparr>msg_type := MsgType_code Unregister, msg_handle := handle\<rparr>"

text \<open>Registration over an open connection: the answer is the next message, of whatever type.\<close>

definition register_on :: "env \<Rightarrow> string \<Rightarrow> int \<Rightarrow> int \<Rightarrow> ApiMsg option os" where
  "register_on env classId pid fd = do {
     sent_ok \<leftarrow> trySendMsg env fd (register_request classId pid);
     (if \<not> sent_ok then return None
      else do {
        r \<leftarrow> recvMsg env fd;
        return (case r of
            None \<Rightarrow> None
          | Some ack \<Rightarrow> if msg_error ack \<noteq> 0 then None else Some ack) }) }"

text \<open>\<open>n\<close> bounds the messages that are read; notifications count, others do not. None: more than
  that was sent.\<close>

fun receive_events :: "env \<Rightarrow> nat \<Rightarrow> int \<Rightarrow> int \<Rightarrow> ApiMsg list \<Rightarrow> ApiMsg list option os" where
  "receive_events env 0 fd maxEvents got = return None"
| "receive_events env (Suc n) fd maxEvents got =
     (if int (length got) \<ge> maxEvents then return (Some got)
      else do {
        r \<leftarrow> recvMsg env fd;
        (case r of
           None \<Rightarrow> return (Some got)
         | Some event \<Rightarrow> receive_events env n fd maxEvents
             (if msg_type event = MsgType_code PathEvent then got @ [event] else got)) })"

text \<open>The part after the registration: exit status 0, whatever happens.\<close>

definition consume :: "env \<Rightarrow> nat \<Rightarrow> int \<Rightarrow> int \<Rightarrow> u64 \<Rightarrow> (nat \<times> ApiMsg list) option os" where
  "consume env n fd maxEvents handle = do {
     _ \<leftarrow> perform env (Sock (RecvTimeout fd 30));
     r \<leftarrow> receive_events env n fd maxEvents [];
     (case r of
        None \<Rightarrow> return None
      | Some events \<Rightarrow> do {
          _ \<leftarrow> trySendMsg env fd (unregister_request handle);
          _ \<leftarrow> recvMsg env fd;
          _ \<leftarrow> perform env (Sock (CloseFd fd));
          return (Some (0, events)) }) }"

text \<open>\<^verbatim>\<open>main\<close>: the exit status and the notifications that were taken.\<close>

definition mock_consumer :: "env \<Rightarrow> nat \<Rightarrow> consumer_args \<Rightarrow> (nat \<times> ApiMsg list) option os" where
  "mock_consumer env n args = do {
     s \<leftarrow> perform env (Sock SocketUnix);
     (if rc s < 0 then return (Some (1, []))
      else do {
        c \<leftarrow> perform env (Ctl (ConnectUnix (rc s) (take 107 (c_str (arg_socket args)))));
        (if rc c < 0 then do {
           _ \<leftarrow> perform env (Sock (CloseFd (rc s)));
           return (Some (1, [])) }
         else do {
           p \<leftarrow> perform env (Ctl GetPid);
           r \<leftarrow> register_on env (arg_class args) (rc p) (rc s);
           (case r of
              None \<Rightarrow> do {
                _ \<leftarrow> perform env (Sock (CloseFd (rc s)));
                return (Some (1, [])) }
            | Some ack \<Rightarrow> consume env n (rc s) (arg_events args) (msg_handle ack)) }) }) }"

lemma extends_register_on [extends_rules]: "extends (register_on env c pid fd)"
  unfolding register_on_def by (intro extends_rules)

lemma extends_receive_events [extends_rules]: "extends (receive_events env n fd m got)"
  by (induction n arbitrary: got) (auto intro!: extends_rules)

lemma extends_consume [extends_rules]: "extends (consume env n fd m k)"
  unfolding consume_def by (intro extends_rules)

lemma extends_mock_consumer [extends_rules]: "extends (mock_consumer env n args)"
  unfolding mock_consumer_def by (intro extends_rules)

subsection \<open>Both ends of the stream\<close>

lemma wf_register_request [simp]: "wf_msg (register_request c pid)"
  by (simp add: register_request_def wf_msg_def zero_msg_def)

text \<open>The bytes of a message are that message at the other end.\<close>

lemma recv_encoded:
  assumes "recv_contract env" and "wf_msg m"
    and "received env h (calls (recvMsg env fd) h) = encode_msg m"
  shows "outcome (recvMsg env fd) h = Some m"
  using recv_loop_received[OF assms(1), where fd = fd and rem = 96 and got = "[]" and h = h]
    assms(2,3) msg_field.enc_length[OF assms(2)]
  by (auto simp: recvMsg_def run_simps extends_rules msg_field.dec_enc split: option.splits)

lemma trySend_sent:
  "outcome (trySendMsg env fd m) h \<Longrightarrow>
     sent env h (calls (trySendMsg env fd m) h) = encode_msg m"
  using send_loop_sent[of env h fd "encode_msg m"] by (simp add: trySendMsg_def)

lemma sent_append: "sent env h (cs @ ds) = sent env h cs @ sent env (h @ cs) ds"
  by (simp add: sent_def exchanges_append)

lemma recv_loop_sends_nothing: "sent env h (calls (recv_loop env fd rem got) h) = []"
proof (induction env fd rem got arbitrary: h rule: recv_loop.induct)
  case (1 env fd rem got)
  then show ?case
    by (auto simp: recv_loop_run[of env fd rem] sent_Cons Let_def) (simp_all add: sent_def)
qed

lemma recvMsg_sends_nothing: "sent env h (calls (recvMsg env fd) h) = []"
  by (simp add: recvMsg_def run_simps extends_rules recv_loop_sends_nothing)

lemma append_pid_sends_nothing: "sent env h (calls (append_pid env path pid) h) = []"
  by (simp add: append_pid_def run_simps extends_rules sent_def)

text \<open>What the server sends for a registration that it has read.\<close>

lemma registration_answered:
  assumes "takes_all env" and "outcome (recvMsg env fd) h = Some msg"
    and "msg_type msg = MsgType_code Register"
    and "findClass (classStates s) (get_text (msg_classId msg)) = Some cls"
  shows "sent env h (calls (handleClient env fd s) h) = encode_msg (register_ack s cls)"
    and "outcome (handleClient env fd s) h = register_entry fd msg s"
proof -
  have "dispatch env fd msg s = handleRegister env fd msg s"
    using assms(3) by (simp add: dispatch_def MsgType_of_code_def)
  then show "sent env h (calls (handleClient env fd s) h) = encode_msg (register_ack s cls)"
    using assms
    by (simp add: handleClient_def run_simps extends_rules handleRegister_calls sent_append
        recvMsg_sends_nothing append_pid_sends_nothing msg_call_def sent_Cons takes_all_def)
      (simp add: sent_def)
  show "outcome (handleClient env fd s) h = register_entry fd msg s"
    using assms by (simp add: outcome_handleClient apply_msg_def MsgType_of_code_def)
qed

text \<open>C24: a consumer whose request reaches the server, which has the class, and to which the
  server's answer comes back, over streams that split the bytes as they like, ends up with the
  handle under which the server has its process and class on that connection, and with the state
  of the path.\<close>

theorem registration_end_to_end:
  assumes ends: "recv_contract cenv" "recv_contract senv" "takes_all senv"
    and cls: "findClass (classStates s) (take 31 (c_str c)) = Some cls"
    and gone: "outcome (trySendMsg cenv cfd (register_request c pid)) hc"
    and up: "received senv hs (calls (recvMsg senv sfd) hs) =
      sent cenv hc (calls (trySendMsg cenv cfd (register_request c pid)) hc)"
    and h': "h' = hc @ calls (trySendMsg cenv cfd (register_request c pid)) hc"
    and down: "received cenv h' (calls (recvMsg cenv cfd) h') =
      sent senv hs (calls (handleClient senv sfd s) hs)"
  shows "\<exists>ack. outcome (register_on cenv c pid cfd) hc = Some ack \<and>
    PathState_of_code (msg_state ack) = Some (cs_state cls) \<and>
    find_fd (registry (outcome (handleClient senv sfd s) hs)) sfd =
      Some \<lparr>ent_fd = sfd, ent_pid = word_of_int pid, ent_handle = msg_handle ack,
        ent_classId = take 31 (c_str c)\<rparr>"
proof -
  let ?req = "register_request c pid"
  have read: "outcome (recvMsg senv sfd) hs = Some ?req"
    using recv_encoded[OF ends(2)] up trySend_sent[OF gone] by simp
  have m: "msg_type ?req = MsgType_code Register"
    "get_text (msg_classId ?req) = take 31 (c_str c)" "msg_pid ?req = word_of_int pid"
    by (simp_all add: register_request_def get_put_text)
  note answered = registration_answered[OF ends(3) read m(1), of s cls]
  have "wf_msg (register_ack s cls)"
    by (simp add: register_ack_def wf_msg_def zero_msg_def)
  then have "outcome (recvMsg cenv cfd) h' = Some (register_ack s cls)"
    using recv_encoded[OF ends(1)] down answered(1) m(2) cls by simp
  then have "outcome (register_on cenv c pid cfd) hc = Some (register_ack s cls)"
    using gone by (simp add: register_on_def run_simps extends_rules h' register_ack_def zero_msg_def)
  moreover have "find_fd (registry (register_entry sfd ?req s)) sfd =
      Some \<lparr>ent_fd = sfd, ent_pid = msg_pid ?req, ent_handle = nextHandle s,
        ent_classId = take 31 (c_str c)\<rparr>"
    using m(2) cls
    by (simp add: register_entry_def find_fd_def put_entry_def find_append find_key_filter)
  ultimately show ?thesis
    using answered(2) m cls by (simp add: register_ack_def)
qed

text \<open>One end of a stream that has \<open>bytes\<close> to read: the answers of its kernel.\<close>

definition stream_end :: "string \<Rightarrow> env" where
  "stream_end bytes h c =
     (case c of
        Sock (SockSend fd p) \<Rightarrow> reply (int (length p)) EAGAIN
      | Sock (SockRecv fd n) \<Rightarrow>
          (reply (int (min n (length bytes))) EAGAIN)\<lparr>content := take n bytes\<rparr>
      | _ \<Rightarrow> reply 42 EAGAIN)"

lemma stream_end_contract: "recv_contract (stream_end b)" "takes_all (stream_end b)"
  by (simp_all add: recv_contract_def takes_all_def stream_end_def Let_def min.commute)

lemma stream_end_received:
  "length b = 96 \<Longrightarrow> received (stream_end b) h (calls (recvMsg (stream_end b) fd) h) = b"
  by (simp add: recvMsg_def run_simps extends_rules recv_loop_run Let_def stream_end_def
      received_Cons) (simp add: received_def)

lemma stream_end_sent: "sent (stream_end b) h [msg_call fd m] = encode_msg m"
  by (simp add: sent_def msg_call_def stream_end_def)

lemmas stream_end_simps = stream_end_contract stream_end_received stream_end_sent
  takes_all_send[OF stream_end_contract(2)] trySend_sent msg_field.enc_length

theorem registration_end_to_end_witness:
  "\<exists>ack. outcome (register_on
      (stream_end (encode_msg (register_ack sample_server (hd (classStates sample_server)))))
      ''multipath'' 42 7) [] = Some ack \<and>
    PathState_of_code (msg_state ack) = Some (cs_state (hd (classStates sample_server)))"
proof -
  let ?cls = "hd (classStates sample_server)" and ?req = "register_request ''multipath'' 42"
  let ?cenv = "stream_end (encode_msg (register_ack sample_server ?cls))"
  let ?senv = "stream_end (encode_msg ?req)"
  have wf: "wf_msg (register_ack sample_server ?cls)" "wf_msg ?req"
    by (simp add: register_ack_def wf_msg_def zero_msg_def, rule wf_register_request)
  have cls: "findClass (classStates sample_server) (take 31 (c_str ''multipath'')) = Some ?cls"
    by (simp add: sample_server_def findClass_def new_server_def)
  have read: "outcome (recvMsg ?senv 9) [] = Some ?req"
    using recv_encoded[OF stream_end_contract(1) wf(2)] wf(2) by (simp add: stream_end_simps)
  have "sent ?senv [] (calls (handleClient ?senv 9 sample_server) []) =
      encode_msg (register_ack sample_server ?cls)"
    by (rule registration_answered(1)[OF stream_end_contract(2) read])
      (use cls in \<open>simp_all add: register_request_def get_put_text\<close>)
  then have "\<exists>ack. outcome (register_on ?cenv ''multipath'' 42 7) [] = Some ack \<and>
    PathState_of_code (msg_state ack) = Some (cs_state ?cls) \<and>
    find_fd (registry (outcome (handleClient ?senv 9 sample_server) [])) 9 =
      Some \<lparr>ent_fd = 9, ent_pid = word_of_int 42, ent_handle = msg_handle ack,
        ent_classId = take 31 (c_str ''multipath'')\<rparr>"
    using wf by (intro registration_end_to_end[OF stream_end_contract(1) stream_end_contract(1)
        stream_end_contract(2) cls _ _ refl]) (simp_all only: stream_end_simps)
  then show ?thesis by blast
qed

text \<open>C27: a notification that comes before the acknowledgement is taken for it. The consumer goes
  on with the handle 0, under which no server in its first events has anybody, so that its
  request to unregister changes nothing.\<close>

theorem event_taken_for_ack:
  assumes "recv_contract cenv"
    and gone: "outcome (trySendMsg cenv cfd (register_request c pid)) hc"
    and h': "h' = hc @ calls (trySendMsg cenv cfd (register_request c pid)) hc"
    and first: "received cenv h' (calls (recvMsg cenv cfd) h') =
      encode_msg (path_event cid st iface rssi)"
    and young: "length evs < 2 ^ 64 - 1"
  shows "\<exists>ack. outcome (register_on cenv c pid cfd) hc = Some ack \<and> msg_handle ack = kInvalidHandle \<and>
    (let s = fst (fold (serve senv) evs (new_server classes path, h))
     in outcome (dispatch senv fd (unregister_request (msg_handle ack)) s) hs = s)"
proof -
  have wf: "wf_msg (path_event cid st iface rssi)"
    by (simp add: path_event_def wf_msg_def zero_msg_def)
  have "outcome (register_on cenv c pid cfd) hc = Some (path_event cid st iface rssi)"
    using gone recv_encoded[OF assms(1) wf first]
    by (simp add: register_on_def run_simps extends_rules h' path_event_def zero_msg_def)
  moreover have "msg_handle (path_event cid st iface rssi) = kInvalidHandle"
    by (simp add: path_event_def zero_msg_def kInvalidHandle_def)
  moreover have "outcome (dispatch senv fd (unregister_request kInvalidHandle)
      (fst (fold (serve senv) evs (new_server classes path, h)))) hs =
      fst (fold (serve senv) evs (new_server classes path, h))" (is "outcome _ hs = ?s")
  proof -
    have "e \<in> set (registry ?s) \<Longrightarrow> ent_handle e \<noteq> 0" for e
      using handles_positive[OF young] by blast
    then have "find (\<lambda>e. ent_handle e = kInvalidHandle) (registry ?s) = None"
      by (simp add: find_None_iff kInvalidHandle_def)
    then show ?thesis
      by (simp add: outcome_dispatch apply_msg_def unregister_request_def MsgType_of_code_def
          unregister_entry_def erase_first_absent)
  qed
  ultimately show ?thesis by simp
qed

theorem event_taken_for_ack_witness:
  "\<exists>ack. outcome (register_on
      (stream_end (encode_msg (path_event ''multipath'' PathUp ''wlan0'' (-60))))
      ''multipath'' 42 7) [] = Some ack \<and> msg_handle ack = kInvalidHandle"
proof -
  have wf: "wf_msg (path_event ''multipath'' PathUp ''wlan0'' (-60))"
    by (simp add: path_event_def wf_msg_def zero_msg_def)
  let ?b = "encode_msg (path_event ''multipath'' PathUp ''wlan0'' (-60))"
  have "received (stream_end ?b) h' (calls (recvMsg (stream_end ?b) 7) h') = ?b" for h'
    using wf by (simp add: stream_end_received msg_field.enc_length)
  moreover have "outcome (trySendMsg (stream_end ?b) 7 (register_request ''multipath'' 42)) []"
    by (simp add: stream_end_simps)
  ultimately have "\<exists>ack. outcome (register_on (stream_end ?b) ''multipath'' 42 7) [] = Some ack \<and>
      msg_handle ack = kInvalidHandle \<and>
      (let s = fst (fold (serve accepting) [] (new_server [] [], []))
       in outcome (dispatch accepting 1 (unregister_request (msg_handle ack)) s) [] = s)"
    by (intro event_taken_for_ack[OF stream_end_contract(1) _ refl]) simp_all
  then show ?thesis by blast
qed

subsection \<open>What a consumer takes and gives back\<close>

lemma receive_events_counted:
  assumes "outcome (receive_events env n fd maxEvents got) h = Some events"
    and "int (length got) \<le> max 0 maxEvents"
    and "list_all (\<lambda>m. msg_type m = MsgType_code PathEvent) got"
  shows "int (length events) \<le> max 0 maxEvents \<and>
    list_all (\<lambda>m. msg_type m = MsgType_code PathEvent) events"
  using assms
proof (induction n arbitrary: got h)
  case (Suc n)
  consider "int (length got) \<ge> maxEvents" | "int (length got) < maxEvents"
      "outcome (recvMsg env fd) h = None"
    | m where "int (length got) < maxEvents" "outcome (recvMsg env fd) h = Some m"
    by fastforce
  then show ?case
  proof cases
    case (3 m)
    then show ?thesis
      using Suc.prems Suc.IH[of "if msg_type m = MsgType_code PathEvent then got @ [m] else got"
          "h @ calls (recvMsg env fd) h"]
      by (auto simp: run_simps extends_rules split: if_splits)
  qed (use Suc.prems in \<open>auto simp: run_simps extends_rules\<close>)
qed simp

lemma recv_closes [simp]: "closes (calls (recvMsg env fd) h) = []"
proof -
  have "closes (calls (recv_loop env fd rem got) h) = []" for rem got
  proof (induction env fd rem got arbitrary: h rule: recv_loop.induct)
    case (1 env fd rem got)
    then show ?case
      by (auto simp: recv_loop_run[of env fd rem] Let_def)
  qed
  then show ?thesis by (simp add: recvMsg_def run_simps extends_rules)
qed

lemma receive_events_closes [simp]: "closes (calls (receive_events env n fd m got) h) = []"
  by (induction n arbitrary: got h)
    (auto simp: run_simps extends_rules split: option.split)

lemma register_on_closes [simp]: "closes (calls (register_on env c pid fd) h) = []"
  by (simp add: register_on_def run_simps extends_rules)

text \<open>A consumer that ends has closed its connection, once, and taken no more notifications than it
  was told to.\<close>

theorem consumer_ends:
  assumes "outcome (mock_consumer env n args) h = Some (status, events)"
  shows "closes (calls (mock_consumer env n args) h) =
      (let s = rc (env h (Sock SocketUnix)) in if s < 0 then [] else [s]) \<and>
    int (length events) \<le> max 0 (arg_events args)"
  using assms receive_events_counted[where got = "[]"]
  by (auto simp: mock_consumer_def consume_def run_simps extends_rules Let_def
      split: option.splits if_splits)

end
