(* ===== verification/Notice_Stream.thy ===== *)
theory Notice_Stream
  imports Mock_Consumer
begin

text \<open>
  The daemon and a consumer end to end. While lines of the supplicants come in, what goes out on the
  connection of a registered consumer is one message for each change of its class, and the
  consumer of theory Mock_Consumer at the other end of the stream reads just those.
\<close>

subsection \<open>What goes out on a connection\<close>

fun to_consumer :: "int \<Rightarrow> call \<Rightarrow> string option" where
  "to_consumer fd (Sock (SockSend f p)) = (if f = fd then Some p else None)"
| "to_consumer fd _ = None"

definition gather_step :: "int \<Rightarrow> call \<Rightarrow> string list \<Rightarrow> string list" where
  "gather_step fd c out = out @ view (to_consumer fd) [c]"

lemma gather_step_simps [simp]:
  "gather_step fd (Nl c) out = out" "gather_step fd (File f) out = out"
  by (simp_all add: gather_step_def)

lemma fold_gather: "fold (gather_step fd) cs out = out @ view (to_consumer fd) cs"
proof (induction cs arbitrary: out)
  case (Cons c cs)
  then show ?case by (simp add: gather_step_def split: option.split)
qed simp

lemma on_path_sends_nothing [simp]:
  "view (to_consumer fd) (calls (on_path_up env bits fuel classes cls i t) h) = []"
  "view (to_consumer fd) (calls (on_path_down env i t) h) = []"
  using silentD(2)[OF silent_on_path(1)[of "gather_step fd" env bits fuel classes cls i t], of h "[]"]
    silentD(2)[OF silent_on_path(2)[of "gather_step fd" env i t], of h "[]"]
  by (simp_all add: fold_gather)

lemma to_consumer_messages:
  "view (to_consumer fd) (map (\<lambda>e. msg_call (ent_fd e) m) es) =
     map (\<lambda>e. encode_msg m) (filter (\<lambda>e. ent_fd e = fd) es)"
  by (induction es) (simp_all add: msg_call_def)

text \<open>A descriptor that is registered once gets one copy, if it is for the class.\<close>

lemma one_entry:
  "distinct (map ent_fd es) \<Longrightarrow> e \<in> set es \<Longrightarrow>
     filter (\<lambda>x. ent_classId x = c \<and> ent_fd x = ent_fd e) es =
       (if ent_classId e = c then [e] else [])"
proof (induction es)
  case (Cons x xs)
  have "x = e \<Longrightarrow> filter (\<lambda>x. ent_classId x = c \<and> ent_fd x = ent_fd e) xs = []"
    using Cons.prems(1) by (auto simp: filter_empty_conv image_iff)
  then show ?case using Cons by auto
qed simp

subsection \<open>One line\<close>

text \<open>The changes of a path as its events come, from the transition function alone.\<close>

fun path_changes :: "RssiThresholds \<Rightarrow> PathState \<Rightarrow> WpaEvent list \<Rightarrow> (PathState \<times> string \<times> int) list" where
  "path_changes t st [] = []"
| "path_changes t st (ev # evs) =
     (let new = nextState st ev t
      in (if new = st then [] else [(new, ev_iface ev, ev_rssi ev)]) @ path_changes t new evs)"

fun change_event :: "string \<Rightarrow> PathState \<times> string \<times> int \<Rightarrow> ApiMsg" where
  "change_event c (st, iface, rssi) = path_event c st iface rssi"

lemma wf_change_event [simp]: "wf_msg (change_event c x)"
  by (cases x) (simp add: path_event_def wf_msg_def zero_msg_def)

lemma change_event_type [simp]: "msg_type (change_event c x) = MsgType_code PathEvent"
  by (cases x) (simp add: path_event_def)

text \<open>What the actions of one transition add, on a connection.\<close>

lemma registry_on_state_changed:
  "takes_all env \<Longrightarrow> registry (outcome (on_state_changed env cls to i r s) h) = registry s"
  by (simp add: on_state_changed_def run_simps extends_rules outcome_broadcastPathEvent
      send_to_class_takes_all cache_event_def updateCurrentState_def Let_def)

lemma actions_send:
  assumes "takes_all env" and "distinct (map ent_fd (registry s))" and "e \<in> set (registry s)"
  shows "\<exists>s' t. fold (act (class_callbacks env bits fuel classes cls))
      (transition_actions config prev active new i r) (s, h) = (s', h @ t) \<and>
    registry s' = registry s \<and>
    view (to_consumer (ent_fd e)) t =
      (if new \<noteq> prev \<and> ent_classId e = cls_id cls then [encode_msg (path_event (cls_id cls) new i r)]
       else [])"
  by (auto simp: transition_actions_def calls_on_state_changed[OF assms(1)]
      registry_on_state_changed[OF assms(1)] to_consumer_messages one_entry[OF assms(2,3)]
      simp del: act.simps)


text \<open>In any run of the daemon a descriptor is registered once.\<close>

lemma registry_ok_on_state_changed:
  assumes "registry_ok (s, h)"
  shows "registry_ok (outcome (on_state_changed env cls to i r s) h, h')"
proof -
  have "registry_ok (serve env (Notify (cls_id cls) to i r) (s, h))"
    using assms by (rule registry_ok_step)
  then show ?thesis
    by (auto simp: registry_ok_def on_state_changed_def run_simps extends_rules fst_serve
        server_prog_def updateCurrentState_def class_table.lookup_modify)
qed

lemma registry_ok_act:
  "registry_ok sh \<Longrightarrow> registry_ok (act (class_callbacks env bits fuel classes cls) a sh)"
proof (cases a)
  case (StateChanged prev to i r)
  assume "registry_ok sh"
  then show ?thesis
    using registry_ok_on_state_changed[of "fst sh" "snd sh" env cls to i r]
    by (cases sh) (simp add: StateChanged del: act.simps)
qed (cases sh; simp add: registry_ok_def del: act.simps)+

lemma registry_ok_acts:
  "registry_ok sh \<Longrightarrow> registry_ok (fold (act (class_callbacks env bits fuel classes cls)) as sh)"
  by (induction as arbitrary: sh) (simp_all add: registry_ok_act del: act.simps)

lemma daemon_registry_ok:
  assumes "valid_config classes"
  shows "registry_ok (d_world (fold (daemon_step env) evs (new_daemon env bits fuel classes h)))"
proof (induction evs rule: rev_induct)
  case Nil
  show ?case by (simp add: new_daemon_def registry_ok_def new_server_def)
next
  case (snoc ev evs)
  define d where "d = fold (daemon_step env) evs (new_daemon env bits fuel classes h)"
  then have ok: "registry_ok (d_world d)" using snoc by simp
  have "registry_ok (d_world (daemon_step env ev d))"
  proof (cases ev)
    case (WpaLine i raw)
    show ?thesis
    proof (cases "i < length (d_watches d)")
      case True
      have "fsm_callbacks (w_fsm (d_watches d ! i)) =
          class_callbacks env bits fuel (d_classes d) (fsm_config (w_fsm (d_watches d ! i)))"
        using run_daemon_inv[OF assms] nth_mem[OF True] by (simp add: daemon_inv_def d_def)
      then show ?thesis
        using ok by (simp add: WpaLine daemon_step_line[OF True] Let_def onWpaEvent_world
            registry_ok_acts del: act.simps fold_daemon_step_keeps)
    qed (use ok WpaLine in \<open>simp add: daemon_step_def\<close>)
  qed (use ok in \<open>simp_all add: daemon_step_def registry_ok_step\<close>)
  then show ?case by (simp add: d_def)
qed

subsection \<open>Many lines\<close>

fun is_line :: "daemon_event \<Rightarrow> bool" where
  "is_line (WpaLine i raw) = True"
| "is_line _ = False"

text \<open>A run of the daemon, and the state that it reports for a class.\<close>

abbreviation after :: "env \<Rightarrow> nat \<Rightarrow> nat \<Rightarrow> PathClassConfig list \<Rightarrow> call list \<Rightarrow> daemon_event list \<Rightarrow> daemon" where
  "after env bits fuel classes h evs \<equiv> fold (daemon_step env) evs (new_daemon env bits fuel classes h)"

abbreviation reported :: "daemon \<Rightarrow> PathClassConfig \<Rightarrow> PathState" where
  "reported d cls \<equiv> queryCurrentState (fst (d_world d)) (cls_id cls)"

lemma reported_line:
  assumes "valid_config classes" and "i < length classes" and "d = after env bits fuel classes h evs"
  shows "reported (daemon_step env (WpaLine j raw) d) (classes ! i) =
    (if j = i then nextState (reported d (classes ! i)) (parseEvent raw (hd (interfaces (classes ! i))))
       (rssi_cfg (classes ! i)) else reported d (classes ! i))"
proof -
  note w = watch_of_class[OF assms]
  have "daemon_step env (WpaLine j raw) d = after env bits fuel classes h (evs @ [WpaLine j raw])"
    by (simp add: assms(3))
  from watch_of_class(5)[OF assms(1,2) this] show ?thesis
    using w by (simp add: watch_step(2)[OF w(1)] onWpaEvent_state)
qed

lemma line_sends:
  assumes "valid_config classes" and "takes_all env" and "i < length classes"
    and d: "d = after env bits fuel classes h evs" and cls: "cls = classes ! i"
    and e: "e \<in> set (registry (fst (d_world d)))" "ent_classId e = cls_id cls"
    and line: "ev = WpaLine j raw"
  shows "\<exists>t. snd (d_world (daemon_step env ev d)) = snd (d_world d) @ t \<and>
    registry (fst (d_world (daemon_step env ev d))) = registry (fst (d_world d)) \<and>
    view (to_consumer (ent_fd e)) t =
      map (\<lambda>x. encode_msg (change_event (cls_id cls) x))
        (path_changes (rssi_cfg cls) (reported d cls) (monitor_events i (hd (interfaces cls)) [ev]))"
proof (cases "j < length classes")
  case True
  note wj = watch_of_class[OF assms(1) True d]
  obtain s h0 where world: "d_world d = (s, h0)" by (cases "d_world d")
  have "distinct (map ent_fd (registry s))"
    using daemon_registry_ok[OF assms(1), of env evs bits fuel h, folded d]
    by (simp add: registry_ok_def world)
  moreover have "cls_id (classes ! j) = cls_id cls \<longleftrightarrow> j = i"
    using assms(1,3) True nth_eq_iff_index_eq[of "map cls_id classes" j i]
    by (simp add: valid_config_def keys_distinct_def cls)
  moreover note actions_send[OF assms(2), of s e bits fuel classes "classes ! j" "classes ! j"
      "fsm_state (w_fsm (d_watches d ! j))" "activeIface (w_fsm (d_watches d ! j))"
      "nextState (fsm_state (w_fsm (d_watches d ! j)))
        (parseEvent raw (hd (interfaces (classes ! j)))) (rssi_cfg (classes ! j))"
      "ev_iface (parseEvent raw (hd (interfaces (classes ! j))))"
      "ev_rssi (parseEvent raw (hd (interfaces (classes ! j))))" h0]
  ultimately show ?thesis
    using e wj by (auto simp: line daemon_step_line Let_def onWpaEvent_world world cls
        simp del: act.simps)
next
  case False
  then have "daemon_step env ev d = d" and "j \<noteq> i"
    using assms(1,3) by (simp_all add: daemon_step_def line d new_daemon_def valid_watches)
  then show ?thesis by (simp add: line)
qed

lemma path_changes_append:
  "path_changes t st (xs @ ys) =
     path_changes t st xs @ path_changes t (fold (\<lambda>ev st. nextState st ev t) xs st) ys"
  by (induction xs arbitrary: st) (simp_all add: Let_def)

lemma last_change:
  "last (st # map fst (path_changes t st evs)) = fold (\<lambda>ev st. nextState st ev t) evs st"
proof (induction evs arbitrary: st)
  case (Cons ev evs)
  show ?case using Cons[of "nextState st ev t"] by (auto simp: Let_def)
qed simp

text \<open>Over many lines: the messages on the connection are the changes of the path, and the last of
  them is what the server reports.\<close>

lemma lines_send:
  assumes "valid_config classes" and "takes_all env" and "i < length classes" and cls: "cls = classes ! i"
    and "e \<in> set (registry (fst (d_world (after env bits fuel classes h evs))))"
    and "ent_classId e = cls_id cls" and "list_all is_line lines"
  shows "\<exists>t. snd (d_world (after env bits fuel classes h (evs @ lines))) =
      snd (d_world (after env bits fuel classes h evs)) @ t \<and>
    view (to_consumer (ent_fd e)) t =
      map (\<lambda>x. encode_msg (change_event (cls_id cls) x))
        (path_changes (rssi_cfg cls) (reported (after env bits fuel classes h evs) cls)
          (monitor_events i (hd (interfaces cls)) lines)) \<and>
    reported (after env bits fuel classes h (evs @ lines)) cls =
      fold (\<lambda>ev st. nextState st ev (rssi_cfg cls)) (monitor_events i (hd (interfaces cls)) lines)
        (reported (after env bits fuel classes h evs) cls)"
  using assms(5,7)
proof (induction lines arbitrary: evs)
  case (Cons ev lines)
  define d where "d = after env bits fuel classes h evs"
  obtain j raw where ev: "ev = WpaLine j raw"
    using Cons.prems(2) by (cases ev) simp_all
  have d': "after env bits fuel classes h (evs @ [ev]) = daemon_step env ev d"
    by (simp add: d_def)
  obtain t1 where t1: "snd (d_world (daemon_step env ev d)) = snd (d_world d) @ t1"
    "registry (fst (d_world (daemon_step env ev d))) = registry (fst (d_world d))"
    "view (to_consumer (ent_fd e)) t1 = map (\<lambda>x. encode_msg (change_event (cls_id cls) x))
      (path_changes (rssi_cfg cls) (reported d cls) (monitor_events i (hd (interfaces cls)) [ev]))"
    using line_sends[OF assms(1-3) d_def cls _ assms(6) ev] Cons.prems(1) by (auto simp: d_def)
  have state: "reported (daemon_step env ev d) cls = fold (\<lambda>ev st. nextState st ev (rssi_cfg cls))
      (monitor_events i (hd (interfaces cls)) [ev]) (reported d cls)"
    using reported_line[OF assms(1,3) d_def, of j raw] by (simp add: ev cls)
  have "e \<in> set (registry (fst (d_world (after env bits fuel classes h (evs @ [ev])))))"
    using Cons.prems(1) t1(2) by (simp only: d') (simp add: d_def)
  from Cons.IH[OF this] Cons.prems(2) obtain t2 where
    t2: "snd (d_world (after env bits fuel classes h (evs @ ev # lines))) =
      snd (d_world (daemon_step env ev d)) @ t2"
    "view (to_consumer (ent_fd e)) t2 = map (\<lambda>x. encode_msg (change_event (cls_id cls) x))
      (path_changes (rssi_cfg cls) (reported (daemon_step env ev d) cls)
        (monitor_events i (hd (interfaces cls)) lines))"
    "reported (after env bits fuel classes h (evs @ ev # lines)) cls =
      fold (\<lambda>ev st. nextState st ev (rssi_cfg cls)) (monitor_events i (hd (interfaces cls)) lines)
        (reported (daemon_step env ev d) cls)"
    by (auto simp: d_def)
  show ?case
    unfolding d_def[symmetric] monitor_events_Cons[of i _ ev lines] path_changes_append fold_append
    using t1 t2 state by (intro exI[of _ "t1 @ t2"]) simp
qed simp

subsection \<open>What the consumer reads\<close>

lemma received_append: "received env h (cs @ ds) = received env h cs @ received env (h @ cs) ds"
  by (simp add: received_def exchanges_append)

text \<open>A consumer that is sent notifications, and nothing after them, takes them all in their order.\<close>

lemma receive_events_stream:
  assumes "recv_contract env" and "list_all wf_msg ms"
    and "list_all (\<lambda>m. msg_type m = MsgType_code PathEvent) ms"
    and "received env h (calls (receive_events env n fd maxEvents got) h) = concat (map encode_msg ms)"
    and "length ms < n" and "int (length got + length ms) \<le> maxEvents"
  shows "outcome (receive_events env n fd maxEvents got) h = Some (got @ ms)"
  using assms(2-)
proof (induction n arbitrary: ms got h)
  case (Suc n)
  let ?h = "h @ calls (recvMsg env fd) h"
  have read: "case outcome (recvMsg env fd) h of
      Some m \<Rightarrow> encode_msg m = received env h (calls (recvMsg env fd) h) \<and> wf_msg m
    | None \<Rightarrow> length (received env h (calls (recvMsg env fd) h)) < 96"
    using recv_loop_received[OF assms(1), where fd = fd and rem = 96 and got = "[]" and h = h]
    by (auto simp: recvMsg_def run_simps extends_rules msg_field.enc_dec split: option.splits)
  show ?case
  proof (cases "maxEvents \<le> int (length got)")
    case True
    then have "ms = []" using Suc.prems(5) by (cases ms) auto
    then show ?thesis using True by simp
  next
    case wants: False
    show ?thesis
    proof (cases "outcome (recvMsg env fd) h")
      case None
      then have "length (concat (map encode_msg ms)) < 96"
        using read Suc.prems(3) wants by (simp add: run_simps extends_rules)
      then have "ms = []" using Suc.prems(1) by (cases ms) (simp_all add: msg_field.enc_length)
      then show ?thesis using None wants by (simp add: run_simps extends_rules)
    next
      case (Some m)
      let ?got = "if msg_type m = MsgType_code PathEvent then got @ [m] else got"
      let ?rest = "received env ?h (calls (receive_events env n fd maxEvents ?got) ?h)"
      have m: "wf_msg m" and stream: "encode_msg m @ ?rest = concat (map encode_msg ms)"
        using read Some Suc.prems(3) wants
        by (simp_all add: run_simps extends_rules received_append)
      then obtain m1 ms1 where ms: "ms = m1 # ms1" by (cases ms) (simp_all add: encode_nonempty)
      then have "encode_msg m = encode_msg m1" and rest: "?rest = concat (map encode_msg ms1)"
        using stream m Suc.prems(1) by (simp_all add: append_eq_append_conv msg_field.enc_length)
      then have same: "m = m1"
        using m Suc.prems(1) ms by (metis list.pred_inject(2) msg_field.dec_enc)
      then show ?thesis
        using Suc.IH[OF _ _ rest] Suc.prems ms Some wants
        by (simp add: run_simps extends_rules)
    qed
  qed
qed simp

subsection \<open>End to end\<close>

text \<open>C3: a registered consumer follows its path. From any state that the daemon reaches, over any
  lines of all supplicants, what is written on the consumer's connection are the changes of its
  class in their order, and the consumer that gets these bytes, in whatever pieces, takes exactly
  them; the last state that it knows is the one that the server reports.\<close>

theorem subscriber_follows_path:
  assumes "valid_config classes" and "takes_all senv" and "recv_contract cenv"
    and "i < length classes" and "cls = classes ! i"
    and "d = fold (daemon_step senv) evs (new_daemon senv bits fuel classes h)"
    and "e \<in> set (registry (fst (d_world d)))" and "ent_classId e = cls_id cls"
    and "list_all is_line lines" and "d' = fold (daemon_step senv) lines d"
    and "changes = path_changes (rssi_cfg cls) (reported d cls) (monitor_events i (hd (interfaces cls)) lines)"
    and "received cenv hc (calls (receive_events cenv n cfd maxEvents []) hc) =
      concat (view (to_consumer (ent_fd e)) (drop (length (snd (d_world d))) (snd (d_world d'))))"
    and "length changes < n" and "int (length changes) \<le> maxEvents"
  shows "outcome (receive_events cenv n cfd maxEvents []) hc = Some (map (change_event (cls_id cls)) changes) \<and>
    reported d' cls = last (reported d cls # map fst changes)"
proof -
  have d': "d' = after senv bits fuel classes h (evs @ lines)"
    by (simp add: assms(6,10))
  obtain t where t: "snd (d_world d') = snd (d_world d) @ t"
    "view (to_consumer (ent_fd e)) t = map (\<lambda>x. encode_msg (change_event (cls_id cls) x)) changes"
    "reported d' cls = last (reported d cls # map fst changes)"
    using lines_send[OF assms(1,2,4,5) assms(7)[unfolded assms(6)] assms(8,9)]
    unfolding assms(11) last_change d' by (auto simp: assms(6))
  have "outcome (receive_events cenv n cfd maxEvents []) hc =
      Some ([] @ map (change_event (cls_id cls)) changes)"
    using assms(3) by (rule receive_events_stream)
      (use assms(12-14) t in \<open>simp_all add: list_all_iff comp_def\<close>)
  with t(3) show ?thesis by simp
qed

theorem subscriber_follows_path_witness:
  "outcome (receive_events (stream_end (encode_msg (path_event ''multipath'' PathUp ''eth0.100'' 0))) 2 7 1 []) [] =
     Some [path_event ''multipath'' PathUp ''eth0.100'' 0]"
proof -
  let ?senv = "stream_end (encode_msg (register_request ''multipath'' 42))"
  let ?m = "path_event ''multipath'' PathUp ''eth0.100'' 0"
  let ?cenv = "stream_end (encode_msg ?m)"
  define d where "d = after ?senv 32 2 shipped_classes [] [ClientReady 9]"
  let ?lines = "[WpaLine 0 ''CTRL-EVENT-CONNECTED '', WpaLine 2 ''CTRL-EVENT-CONNECTED '',
    WpaLine 0 ''CTRL-EVENT-CONNECTED '']"
  let ?cls = "shipped_classes ! 0"
  have cls: "cls_id ?cls = ''multipath''" "hd (interfaces ?cls) = ''eth0.100''" "warn (rssi_cfg ?cls) = -75"
    and some: "0 < length shipped_classes"
    by (simp_all add: shipped_classes_def)
  let ?req = "register_request ''multipath'' 42" and ?s = "new_server shipped_classes kSocketPath"
  let ?e = "\<lparr>ent_fd = 9, ent_pid = 42, ent_handle = nextHandle ?s, ent_classId = ''multipath''\<rparr>"
  have read: "outcome (recvMsg ?senv 9) [] = Some ?req"
    using recv_encoded[OF stream_end_contract(1) wf_register_request]
    by (simp add: stream_end_received msg_field.enc_length)
  have "take 31 (c_str ''multipath'') = ''multipath''" by code_simp
  then have req: "get_text (msg_classId ?req) = ''multipath''" "msg_pid ?req = 42"
    "msg_type ?req = MsgType_code Register"
    by (simp_all add: register_request_def get_put_text)
  have "''multipath'' \<in> cls_id ` set shipped_classes"
    by (simp add: shipped_classes_def)
  then have known: "findClass (classStates ?s) ''multipath'' \<noteq> None"
    by (simp add: findClass_new_server del: not_None_eq)
  have "fst (d_world d) = outcome (handleClient ?senv 9 ?s) []"
    by (simp add: d_def new_daemon_def daemon_step_def fst_serve server_prog_def)
  also have "\<dots> = register_entry 9 ?req ?s"
    using read req(3) by (simp add: outcome_handleClient apply_msg_def)
  finally have server: "fst (d_world d) = register_entry 9 ?req ?s" .
  have e: "?e \<in> set (registry (fst (d_world d)))" "ent_classId ?e = cls_id ?cls"
    using known by (auto simp: server register_entry_def req put_entry_def cls)
  have "reported d ?cls = reported (new_daemon ?senv 32 2 shipped_classes []) ?cls"
    using known by (simp add: server register_entry_def req queryCurrentState_def new_daemon_def)
  also have "\<dots> = Idle"
    using nth_mem[OF some] by (simp add: new_daemon_def queryCurrentState_cached cached_new_server)
  finally have idle: "reported d ?cls = Idle" .
  have changes: "[(PathUp, ''eth0.100'', 0)] = path_changes (rssi_cfg ?cls) (reported d ?cls)
      (monitor_events 0 (hd (interfaces ?cls)) ?lines)"
    unfolding idle by (simp add: cls parseEvent_def stripPriority_def wpa_event_names nextState_def
        isDownState_def)
  have "list_all is_line ?lines" by simp
  from lines_send[OF shipped_valid stream_end_contract(2) some refl e[unfolded d_def] this]
  obtain t where t: "snd (d_world (fold (daemon_step ?senv) ?lines d)) = snd (d_world d) @ t"
    "view (to_consumer 9) t = [encode_msg ?m]"
    unfolding fold_append comp_apply d_def[symmetric] changes[symmetric] by (auto simp: cls(1))
  have out: "concat (view (to_consumer (ent_fd ?e)) (drop (length (snd (d_world d)))
      (snd (d_world (fold (daemon_step ?senv) ?lines d))))) = encode_msg ?m"
    unfolding t(1) by (simp add: t(2))
  have wf: "wf_msg ?m" using wf_change_event[of "''multipath''" "(PathUp, ''eth0.100'', 0)"] by simp
  have "outcome (recvMsg ?cenv 7) [] = Some ?m"
    using recv_encoded[OF stream_end_contract(1) wf] wf
    by (simp add: stream_end_received msg_field.enc_length)
  then have "received ?cenv [] (calls (receive_events ?cenv 2 7 1 []) []) = encode_msg ?m"
    using wf by (simp add: numeral_2_eq_2 run_simps extends_rules path_event_def stream_end_received
        msg_field.enc_length)
  with out have stream: "received ?cenv [] (calls (receive_events ?cenv 2 7 1 []) []) =
    concat (view (to_consumer (ent_fd ?e)) (drop (length (snd (d_world d)))
      (snd (d_world (fold (daemon_step ?senv) ?lines d)))))" by simp
  show ?thesis
    using subscriber_follows_path[OF shipped_valid stream_end_contract(2,1) some refl d_def e _ refl
        changes stream] by (simp add: cls)
qed

end
