(* ===== verification/Cached_State.thy ===== *)
theory Cached_State
  imports Api_Server
begin

text \<open>
  The cached state of a path class in \<^verbatim>\<open>api/consumer_api_server.cpp\<close>, as two threads use it without a
  lock: the thread of the class's monitor writes it field by field in \<^verbatim>\<open>broadcastPathEvent\<close>, before the
  mutex is taken, and the server's thread reads it field by field in \<^verbatim>\<open>handleQueryCurrent\<close>. To C++ this
  is a data race; here every read and write of one field is a step of its own, which is the
  best that can happen. Theory Api_Server has whole notifications and queries.
\<close>

subsection \<open>Steps\<close>

text \<open>The fields as one value, and the notifications in their order, the one under way included.\<close>

type_synonym snapshot = "PathState \<times> string \<times> int"

text \<open>What the writer has still to write, and what the reader has read.\<close>

datatype writer_point = WriterIdle | StateWritten string int | IfaceWritten int

datatype reader_point = ReaderIdle | GotState PathState | GotSignal PathState int | Replied snapshot

record cache =
  cached_now :: snapshot
  notices :: "snapshot list"
  writer_at :: writer_point
  reader_at :: reader_point

definition cache_start :: cache where
  "cache_start = \<lparr>cached_now = (Idle, [], 0), notices = [], writer_at = WriterIdle, reader_at = ReaderIdle\<rparr>"

datatype cache_label = Write | Read

inductive cache_step :: "cache \<Rightarrow> cache_label \<Rightarrow> cache \<Rightarrow> bool" where
  write_state: "writer_at s = WriterIdle \<Longrightarrow> cached_now s = (st0, i0, r0) \<Longrightarrow>
    cache_step s Write (s\<lparr>cached_now := (st, i0, r0), notices := notices s @ [(st, i, r)],
      writer_at := StateWritten i r\<rparr>)"
| write_iface: "writer_at s = StateWritten i r \<Longrightarrow> cached_now s = (st0, i0, r0) \<Longrightarrow>
    cache_step s Write (s\<lparr>cached_now := (st0, i, r0), writer_at := IfaceWritten r\<rparr>)"
| write_rssi: "writer_at s = IfaceWritten r \<Longrightarrow> cached_now s = (st0, i0, r0) \<Longrightarrow>
    cache_step s Write (s\<lparr>cached_now := (st0, i0, r), writer_at := WriterIdle\<rparr>)"
| read_state: "reader_at s = ReaderIdle \<Longrightarrow> cached_now s = (st, i, r) \<Longrightarrow>
    cache_step s Read (s\<lparr>reader_at := GotState st\<rparr>)"
| read_rssi: "reader_at s = GotState st0 \<Longrightarrow> cached_now s = (st, i, r) \<Longrightarrow>
    cache_step s Read (s\<lparr>reader_at := GotSignal st0 r\<rparr>)"
| read_iface: "reader_at s = GotSignal st0 r0 \<Longrightarrow> cached_now s = (st, i, r) \<Longrightarrow>
    cache_step s Read (s\<lparr>reader_at := Replied (st0, i, r0)\<rparr>)"
| next_query: "reader_at s = Replied x \<Longrightarrow> cache_step s Read (s\<lparr>reader_at := ReaderIdle\<rparr>)"

inductive_cases readE: "cache_step s Read s'"

inductive cache_reachable :: "cache \<Rightarrow> bool" where
  start_cache: "cache_reachable cache_start"
| step_cache: "cache_reachable s \<Longrightarrow> cache_step s l s' \<Longrightarrow> cache_reachable s'"

subsection \<open>What a reader can get\<close>

text \<open>The values that the fields have had: those of the notifications, and the first ones.\<close>

definition history :: "cache \<Rightarrow> snapshot list" where
  "history s = (Idle, [], 0) # notices s"

fun in_history :: "snapshot list \<Rightarrow> reader_point \<Rightarrow> bool" where
  "in_history h ReaderIdle = True"
| "in_history h (GotState st) = (st \<in> fst ` set h)"
| "in_history h (GotSignal st r) = (st \<in> fst ` set h \<and> r \<in> (snd \<circ> snd) ` set h)"
| "in_history h (Replied (st, i, r)) =
     (st \<in> fst ` set h \<and> i \<in> (fst \<circ> snd) ` set h \<and> r \<in> (snd \<circ> snd) ` set h)"

lemma in_history_mono: "in_history h p \<Longrightarrow> set h \<subseteq> set h' \<Longrightarrow> in_history h' p"
  by (cases "(h, p)" rule: in_history.cases) auto

text \<open>Between two notifications the fields are those of the last one; in the middle of one, those
  that are still to be written have their old values.\<close>

fun fields_ok :: "writer_point \<Rightarrow> snapshot list \<Rightarrow> snapshot \<Rightarrow> bool" where
  "fields_ok WriterIdle h x = (last h = x)"
| "fields_ok (StateWritten i r) h (st, i0, r0) =
     (2 \<le> length h \<and> last h = (st, i, r) \<and> snd (last (butlast h)) = (i0, r0))"
| "fields_ok (IfaceWritten r) h (st, i, r0) =
     (2 \<le> length h \<and> last h = (st, i, r) \<and> snd (snd (last (butlast h))) = r0)"

definition cache_inv :: "cache \<Rightarrow> bool" where
  "cache_inv s \<longleftrightarrow> fields_ok (writer_at s) (history s) (cached_now s) \<and>
     in_history (history s) (reader_at s)"

lemma last_history: "last (history s) \<in> set (history s)"
  by (simp add: history_def)

lemma before_last: "2 \<le> length h \<Longrightarrow> last (butlast h) \<in> set h"
proof -
  assume "2 \<le> length h"
  then have "butlast h \<noteq> []" by (cases h rule: rev_cases) auto
  then show ?thesis by (meson in_set_butlastD last_in_set)
qed

lemma cached_in_history:
  assumes "fields_ok w h (st, i, r)" and "h \<noteq> []"
  shows "st \<in> fst ` set h \<and> i \<in> (fst \<circ> snd) ` set h \<and> r \<in> (snd \<circ> snd) ` set h"
proof (cases w)
  case WriterIdle
  with assms have "(st, i, r) \<in> set h" using last_in_set[OF assms(2)] by simp
  then show ?thesis by force
next
  case (StateWritten i1 r1)
  with assms have "fst (last h) = st" "snd (last (butlast h)) = (i, r)"
    and "last (butlast h) \<in> set h"
    using before_last by auto
  with assms(2) show ?thesis
    by (auto simp: image_iff intro: bexI[of _ "last h"] bexI[of _ "last (butlast h)"])
next
  case (IfaceWritten r1)
  with assms have last_two: "(st, i, r1) \<in> set h" "snd (snd (last (butlast h))) = r"
    and "last (butlast h) \<in> set h"
    using before_last[of h] last_in_set[OF assms(2)] by auto
  then have "r \<in> (snd \<circ> snd) ` set h" by (auto simp: image_iff intro: bexI[of _ "last (butlast h)"])
  with last_two(1) show ?thesis by force
qed

lemma cache_inv_step: "cache_step s l s' \<Longrightarrow> cache_inv s \<Longrightarrow> cache_inv s'"
proof (induction rule: cache_step.induct)
  case (write_state s st0 i0 r0 i r st)
  have "set (history s) \<subseteq> set (history s @ [(st, i, r)])" by auto
  with write_state show ?case
    using in_history_mono[of "history s" "reader_at s" "history s @ [(st, i, r)]"]
    by (auto simp: cache_inv_def history_def)
next
  case (read_state s st i r)
  then show ?case
    using cached_in_history[of "writer_at s" "history s" st i r]
    by (auto simp: cache_inv_def history_def)
next
  case (read_rssi s st0 st i r)
  then show ?case
    using cached_in_history[of "writer_at s" "history s" st i r]
    by (auto simp: cache_inv_def history_def)
next
  case (read_iface s st0 r0 st i r)
  then show ?case
    using cached_in_history[of "writer_at s" "history s" st i r]
    by (auto simp: cache_inv_def history_def)
qed (auto simp: cache_inv_def history_def)

lemma cache_inv_reachable: "cache_reachable s \<Longrightarrow> cache_inv s"
proof (induction rule: cache_reachable.induct)
  case start_cache
  then show ?case by (simp add: cache_inv_def cache_start_def history_def)
next
  case (step_cache s l s')
  then show ?case using cache_inv_step by blast
qed

text \<open>Every field of an answer is that of some notification, or the first one; an answer that is
  read between two notifications is the last one.\<close>

theorem answers_from_notices:
  assumes "cache_reachable s"
  shows "reader_at s = Replied (st, i, r) \<Longrightarrow>
      st \<in> fst ` set (history s) \<and> i \<in> (fst \<circ> snd) ` set (history s) \<and>
      r \<in> (snd \<circ> snd) ` set (history s)"
    and "writer_at s = WriterIdle \<Longrightarrow> reader_at s = ReaderIdle \<Longrightarrow> cache_step s Read s1 \<Longrightarrow>
      cache_step s1 Read s2 \<Longrightarrow> cache_step s2 Read s3 \<Longrightarrow>
      reader_at s3 = Replied (last (history s))"
proof -
  have i: "cache_inv s" using assms by (rule cache_inv_reachable)
  then show "reader_at s = Replied (st, i, r) \<Longrightarrow>
      st \<in> fst ` set (history s) \<and> i \<in> (fst \<circ> snd) ` set (history s) \<and>
      r \<in> (snd \<circ> snd) ` set (history s)"
    by (simp add: cache_inv_def)
  assume "writer_at s = WriterIdle" and "reader_at s = ReaderIdle" and "cache_step s Read s1"
    and "cache_step s1 Read s2" and "cache_step s2 Read s3"
  with i show "reader_at s3 = Replied (last (history s))"
    by (auto simp: cache_inv_def elim!: readE)
qed

text \<open>C38: a query beside a notification can be answered with the state of the new one and the
  interface and signal of the old one, a combination that the path never had.\<close>

theorem query_mixes_notices:
  "\<exists>s st i r. cache_reachable s \<and> reader_at s = Replied (st, i, r) \<and> (st, i, r) \<notin> set (history s)"
proof -
  let ?up = "(PathUp, ''wlan0'', -60)" and ?down = "(PathDown, [], 0)"
  let ?mixed = "(PathDown, ''wlan0'', -60)"
  let ?s = "\<lambda>x h w p. \<lparr>cached_now = x, notices = h, writer_at = w, reader_at = p\<rparr>"
  have "cache_reachable (?s (PathUp, [], 0) [?up] (StateWritten ''wlan0'' (-60)) ReaderIdle)"
    using step_cache[OF start_cache write_state[of cache_start Idle "[]" 0 "''wlan0''" "-60" PathUp]]
    by (simp add: cache_start_def)
  from step_cache[OF this write_iface] have "cache_reachable
    (?s (PathUp, ''wlan0'', 0) [?up] (IfaceWritten (-60)) ReaderIdle)" by simp
  from step_cache[OF this write_rssi] have "cache_reachable
    (?s ?up [?up] WriterIdle ReaderIdle)" by simp
  from step_cache[OF this write_state[of _ PathUp "''wlan0''" "-60" "[]" 0 PathDown]] have "cache_reachable
    (?s ?mixed [?up, ?down] (StateWritten [] 0) ReaderIdle)" by simp
  from step_cache[OF this read_state] have "cache_reachable
    (?s ?mixed [?up, ?down] (StateWritten [] 0) (GotState PathDown))" by simp
  from step_cache[OF this read_rssi] have "cache_reachable
    (?s ?mixed [?up, ?down] (StateWritten [] 0) (GotSignal PathDown (-60)))" by simp
  from step_cache[OF this read_iface] have "cache_reachable
    (?s ?mixed [?up, ?down] (StateWritten [] 0) (Replied ?mixed))" by simp
  then show ?thesis
    by (intro exI[of _ "?s ?mixed [?up, ?down] (StateWritten [] 0) (Replied ?mixed)"]
        exI[of _ PathDown] exI[of _ "''wlan0''"] exI[of _ "-60"]) (simp add: history_def)
qed

end
