(* ===== verification/Wpa_Events.thy ===== *)
theory Wpa_Events
  imports Wpa_Monitor
begin

unbundle bit_operations_syntax

text \<open>
  \<^verbatim>\<open>wpa/wpa_ctrl.h\<close>: the catalogue of the messages that wpa_supplicant and hostapd send over the
  control interface, each macro with its text, and the constants for the fields of a scan entry and
  for vendor elements. The monitor acts on four of the messages; here is what it does with all of
  them.
\<close>

subsection \<open>Messages\<close>

text \<open>Requests, and the events of a station: connection, authentication, scanning, roaming.\<close>

definition control_messages :: "(string \<times> string) list" where
  "control_messages = [
     (''WPA_CTRL_REQ'', ''CTRL-REQ-''),
     (''WPA_CTRL_RSP'', ''CTRL-RSP-''),
     (''WPA_EVENT_CONNECTED'', WPA_EVENT_CONNECTED),
     (''WPA_EVENT_DISCONNECTED'', WPA_EVENT_DISCONNECTED),
     (''WPA_EVENT_ASSOC_REJECT'', ''CTRL-EVENT-ASSOC-REJECT ''),
     (''WPA_EVENT_AUTH_REJECT'', ''CTRL-EVENT-AUTH-REJECT ''),
     (''WPA_EVENT_TERMINATING'', WPA_EVENT_TERMINATING),
     (''WPA_EVENT_PASSWORD_CHANGED'', ''CTRL-EVENT-PASSWORD-CHANGED ''),
     (''WPA_EVENT_EAP_NOTIFICATION'', ''CTRL-EVENT-EAP-NOTIFICATION ''),
     (''WPA_EVENT_EAP_STARTED'', ''CTRL-EVENT-EAP-STARTED ''),
     (''WPA_EVENT_EAP_PROPOSED_METHOD'', ''CTRL-EVENT-EAP-PROPOSED-METHOD ''),
     (''WPA_EVENT_EAP_METHOD'', ''CTRL-EVENT-EAP-METHOD ''),
     (''WPA_EVENT_EAP_PEER_CERT'', ''CTRL-EVENT-EAP-PEER-CERT ''),
     (''WPA_EVENT_EAP_PEER_ALT'', ''CTRL-EVENT-EAP-PEER-ALT ''),
     (''WPA_EVENT_EAP_TLS_CERT_ERROR'', ''CTRL-EVENT-EAP-TLS-CERT-ERROR ''),
     (''WPA_EVENT_EAP_STATUS'', ''CTRL-EVENT-EAP-STATUS ''),
     (''WPA_EVENT_EAP_RETRANSMIT'', ''CTRL-EVENT-EAP-RETRANSMIT ''),
     (''WPA_EVENT_EAP_RETRANSMIT2'', ''CTRL-EVENT-EAP-RETRANSMIT2 ''),
     (''WPA_EVENT_EAP_SUCCESS'', ''CTRL-EVENT-EAP-SUCCESS ''),
     (''WPA_EVENT_EAP_SUCCESS2'', ''CTRL-EVENT-EAP-SUCCESS2 ''),
     (''WPA_EVENT_EAP_FAILURE'', ''CTRL-EVENT-EAP-FAILURE ''),
     (''WPA_EVENT_EAP_FAILURE2'', ''CTRL-EVENT-EAP-FAILURE2 ''),
     (''WPA_EVENT_EAP_TIMEOUT_FAILURE'', ''CTRL-EVENT-EAP-TIMEOUT-FAILURE ''),
     (''WPA_EVENT_EAP_TIMEOUT_FAILURE2'', ''CTRL-EVENT-EAP-TIMEOUT-FAILURE2 ''),
     (''WPA_EVENT_EAP_ERROR_CODE'', ''EAP-ERROR-CODE ''),
     (''WPA_EVENT_TEMP_DISABLED'', ''CTRL-EVENT-SSID-TEMP-DISABLED ''),
     (''WPA_EVENT_REENABLED'', ''CTRL-EVENT-SSID-REENABLED ''),
     (''WPA_EVENT_SCAN_STARTED'', ''CTRL-EVENT-SCAN-STARTED ''),
     (''WPA_EVENT_SCAN_RESULTS'', ''CTRL-EVENT-SCAN-RESULTS ''),
     (''WPA_EVENT_SCAN_FAILED'', ''CTRL-EVENT-SCAN-FAILED ''),
     (''WPA_EVENT_STATE_CHANGE'', ''CTRL-EVENT-STATE-CHANGE ''),
     (''WPA_EVENT_BSS_ADDED'', ''CTRL-EVENT-BSS-ADDED ''),
     (''WPA_EVENT_BSS_REMOVED'', ''CTRL-EVENT-BSS-REMOVED ''),
     (''WPA_EVENT_NETWORK_NOT_FOUND'', ''CTRL-EVENT-NETWORK-NOT-FOUND ''),
     (''WPA_EVENT_SIGNAL_CHANGE'', WPA_EVENT_SIGNAL_CHANGE),
     (''WPA_EVENT_BEACON_LOSS'', ''CTRL-EVENT-BEACON-LOSS ''),
     (''WPA_EVENT_REGDOM_CHANGE'', ''CTRL-EVENT-REGDOM-CHANGE ''),
     (''WPA_EVENT_CHANNEL_SWITCH_STARTED'', ''CTRL-EVENT-STARTED-CHANNEL-SWITCH ''),
     (''WPA_EVENT_CHANNEL_SWITCH'', ''CTRL-EVENT-CHANNEL-SWITCH ''),
     (''WPA_EVENT_SAE_UNKNOWN_PASSWORD_IDENTIFIER'',
      ''CTRL-EVENT-SAE-UNKNOWN-PASSWORD-IDENTIFIER ''),
     (''WPA_EVENT_UNPROT_BEACON'', ''CTRL-EVENT-UNPROT-BEACON ''),
     (''WPA_EVENT_DO_ROAM'', ''CTRL-EVENT-DO-ROAM ''),
     (''WPA_EVENT_SKIP_ROAM'', ''CTRL-EVENT-SKIP-ROAM ''),
     (''WPA_EVENT_SUBNET_STATUS_UPDATE'', ''CTRL-EVENT-SUBNET-STATUS-UPDATE ''),
     (''IBSS_RSN_COMPLETED'', ''IBSS-RSN-COMPLETED ''),
     (''WPA_EVENT_FREQ_CONFLICT'', ''CTRL-EVENT-FREQ-CONFLICT ''),
     (''WPA_EVENT_AVOID_FREQ'', ''CTRL-EVENT-AVOID-FREQ ''),
     (''WPA_EVENT_NETWORK_ADDED'', ''CTRL-EVENT-NETWORK-ADDED ''),
     (''WPA_EVENT_NETWORK_REMOVED'', ''CTRL-EVENT-NETWORK-REMOVED ''),
     (''WPA_EVENT_MSCS_RESULT'', ''CTRL-EVENT-MSCS-RESULT '')]"

text \<open>Wi-Fi Protected Setup with its external registrar, and two policy results.\<close>

definition wps_messages :: "(string \<times> string) list" where
  "wps_messages = [
     (''WPS_EVENT_OVERLAP'', ''WPS-OVERLAP-DETECTED ''),
     (''WPS_EVENT_AP_AVAILABLE_PBC'', ''WPS-AP-AVAILABLE-PBC ''),
     (''WPS_EVENT_AP_AVAILABLE_AUTH'', ''WPS-AP-AVAILABLE-AUTH ''),
     (''WPS_EVENT_AP_AVAILABLE_PIN'', ''WPS-AP-AVAILABLE-PIN ''),
     (''WPS_EVENT_AP_AVAILABLE'', ''WPS-AP-AVAILABLE ''),
     (''WPS_EVENT_CRED_RECEIVED'', ''WPS-CRED-RECEIVED ''),
     (''WPS_EVENT_M2D'', ''WPS-M2D ''),
     (''WPS_EVENT_FAIL'', ''WPS-FAIL ''),
     (''WPS_EVENT_SUCCESS'', ''WPS-SUCCESS ''),
     (''WPS_EVENT_TIMEOUT'', ''WPS-TIMEOUT ''),
     (''WPS_EVENT_ACTIVE'', ''WPS-PBC-ACTIVE ''),
     (''WPS_EVENT_DISABLE'', ''WPS-PBC-DISABLE ''),
     (''WPS_EVENT_ENROLLEE_SEEN'', ''WPS-ENROLLEE-SEEN ''),
     (''WPS_EVENT_OPEN_NETWORK'', ''WPS-OPEN-NETWORK ''),
     (''WPA_EVENT_SCS_RESULT'', ''CTRL-EVENT-SCS-RESULT ''),
     (''WPA_EVENT_DSCP_POLICY'', ''CTRL-EVENT-DSCP-POLICY ''),
     (''WPS_EVENT_ER_AP_ADD'', ''WPS-ER-AP-ADD ''),
     (''WPS_EVENT_ER_AP_REMOVE'', ''WPS-ER-AP-REMOVE ''),
     (''WPS_EVENT_ER_ENROLLEE_ADD'', ''WPS-ER-ENROLLEE-ADD ''),
     (''WPS_EVENT_ER_ENROLLEE_REMOVE'', ''WPS-ER-ENROLLEE-REMOVE ''),
     (''WPS_EVENT_ER_AP_SETTINGS'', ''WPS-ER-AP-SETTINGS ''),
     (''WPS_EVENT_ER_SET_SEL_REG'', ''WPS-ER-AP-SET-SEL-REG '')]"

text \<open>Device Provisioning Protocol.\<close>

definition dpp_messages :: "(string \<times> string) list" where
  "dpp_messages = [
     (''DPP_EVENT_AUTH_SUCCESS'', ''DPP-AUTH-SUCCESS ''),
     (''DPP_EVENT_AUTH_INIT_FAILED'', ''DPP-AUTH-INIT-FAILED ''),
     (''DPP_EVENT_NOT_COMPATIBLE'', ''DPP-NOT-COMPATIBLE ''),
     (''DPP_EVENT_RESPONSE_PENDING'', ''DPP-RESPONSE-PENDING ''),
     (''DPP_EVENT_SCAN_PEER_QR_CODE'', ''DPP-SCAN-PEER-QR-CODE ''),
     (''DPP_EVENT_AUTH_DIRECTION'', ''DPP-AUTH-DIRECTION ''),
     (''DPP_EVENT_CONF_RECEIVED'', ''DPP-CONF-RECEIVED ''),
     (''DPP_EVENT_CONF_SENT'', ''DPP-CONF-SENT ''),
     (''DPP_EVENT_CONF_FAILED'', ''DPP-CONF-FAILED ''),
     (''DPP_EVENT_CONN_STATUS_RESULT'', ''DPP-CONN-STATUS-RESULT ''),
     (''DPP_EVENT_CONFOBJ_AKM'', ''DPP-CONFOBJ-AKM ''),
     (''DPP_EVENT_CONFOBJ_SSID'', ''DPP-CONFOBJ-SSID ''),
     (''DPP_EVENT_CONFOBJ_SSID_CHARSET'', ''DPP-CONFOBJ-SSID-CHARSET ''),
     (''DPP_EVENT_CONFOBJ_PASS'', ''DPP-CONFOBJ-PASS ''),
     (''DPP_EVENT_CONFOBJ_PSK'', ''DPP-CONFOBJ-PSK ''),
     (''DPP_EVENT_CONNECTOR'', ''DPP-CONNECTOR ''),
     (''DPP_EVENT_C_SIGN_KEY'', ''DPP-C-SIGN-KEY ''),
     (''DPP_EVENT_PP_KEY'', ''DPP-PP-KEY ''),
     (''DPP_EVENT_NET_ACCESS_KEY'', ''DPP-NET-ACCESS-KEY ''),
     (''DPP_EVENT_SERVER_NAME'', ''DPP-SERVER-NAME ''),
     (''DPP_EVENT_CERTBAG'', ''DPP-CERTBAG ''),
     (''DPP_EVENT_CACERT'', ''DPP-CACERT ''),
     (''DPP_EVENT_MISSING_CONNECTOR'', ''DPP-MISSING-CONNECTOR ''),
     (''DPP_EVENT_NETWORK_ID'', ''DPP-NETWORK-ID ''),
     (''DPP_EVENT_CONFIGURATOR_ID'', ''DPP-CONFIGURATOR-ID ''),
     (''DPP_EVENT_RX'', ''DPP-RX ''),
     (''DPP_EVENT_TX'', ''DPP-TX ''),
     (''DPP_EVENT_TX_STATUS'', ''DPP-TX-STATUS ''),
     (''DPP_EVENT_FAIL'', ''DPP-FAIL ''),
     (''DPP_EVENT_PKEX_T_LIMIT'', ''DPP-PKEX-T-LIMIT ''),
     (''DPP_EVENT_INTRO'', ''DPP-INTRO ''),
     (''DPP_EVENT_CONF_REQ_RX'', ''DPP-CONF-REQ-RX ''),
     (''DPP_EVENT_CHIRP_STOPPED'', ''DPP-CHIRP-STOPPED ''),
     (''DPP_EVENT_MUD_URL'', ''DPP-MUD-URL ''),
     (''DPP_EVENT_BAND_SUPPORT'', ''DPP-BAND-SUPPORT ''),
     (''DPP_EVENT_CSR'', ''DPP-CSR ''),
     (''DPP_EVENT_CHIRP_RX'', ''DPP-CHIRP-RX '')]"

text \<open>Mesh and admission control.\<close>

definition mesh_messages :: "(string \<times> string) list" where
  "mesh_messages = [
     (''MESH_GROUP_STARTED'', ''MESH-GROUP-STARTED ''),
     (''MESH_GROUP_REMOVED'', ''MESH-GROUP-REMOVED ''),
     (''MESH_PEER_CONNECTED'', ''MESH-PEER-CONNECTED ''),
     (''MESH_PEER_DISCONNECTED'', ''MESH-PEER-DISCONNECTED ''),
     (''MESH_SAE_AUTH_FAILURE'', ''MESH-SAE-AUTH-FAILURE ''),
     (''MESH_SAE_AUTH_BLOCKED'', ''MESH-SAE-AUTH-BLOCKED ''),
     (''WMM_AC_EVENT_TSPEC_ADDED'', ''TSPEC-ADDED ''),
     (''WMM_AC_EVENT_TSPEC_REMOVED'', ''TSPEC-REMOVED ''),
     (''WMM_AC_EVENT_TSPEC_REQ_FAILED'', ''TSPEC-REQ-FAILED '')]"

text \<open>Wi-Fi Direct.\<close>

definition p2p_messages :: "(string \<times> string) list" where
  "p2p_messages = [
     (''P2P_EVENT_DEVICE_FOUND'', ''P2P-DEVICE-FOUND ''),
     (''P2P_EVENT_DEVICE_LOST'', ''P2P-DEVICE-LOST ''),
     (''P2P_EVENT_GO_NEG_REQUEST'', ''P2P-GO-NEG-REQUEST ''),
     (''P2P_EVENT_GO_NEG_SUCCESS'', ''P2P-GO-NEG-SUCCESS ''),
     (''P2P_EVENT_GO_NEG_FAILURE'', ''P2P-GO-NEG-FAILURE ''),
     (''P2P_EVENT_GROUP_FORMATION_SUCCESS'', ''P2P-GROUP-FORMATION-SUCCESS ''),
     (''P2P_EVENT_GROUP_FORMATION_FAILURE'', ''P2P-GROUP-FORMATION-FAILURE ''),
     (''P2P_EVENT_GROUP_STARTED'', ''P2P-GROUP-STARTED ''),
     (''P2P_EVENT_GROUP_REMOVED'', ''P2P-GROUP-REMOVED ''),
     (''P2P_EVENT_CROSS_CONNECT_ENABLE'', ''P2P-CROSS-CONNECT-ENABLE ''),
     (''P2P_EVENT_CROSS_CONNECT_DISABLE'', ''P2P-CROSS-CONNECT-DISABLE ''),
     (''P2P_EVENT_PROV_DISC_SHOW_PIN'', ''P2P-PROV-DISC-SHOW-PIN ''),
     (''P2P_EVENT_PROV_DISC_ENTER_PIN'', ''P2P-PROV-DISC-ENTER-PIN ''),
     (''P2P_EVENT_PROV_DISC_PBC_REQ'', ''P2P-PROV-DISC-PBC-REQ ''),
     (''P2P_EVENT_PROV_DISC_PBC_RESP'', ''P2P-PROV-DISC-PBC-RESP ''),
     (''P2P_EVENT_PROV_DISC_FAILURE'', ''P2P-PROV-DISC-FAILURE''),
     (''P2P_EVENT_SERV_DISC_REQ'', ''P2P-SERV-DISC-REQ ''),
     (''P2P_EVENT_SERV_DISC_RESP'', ''P2P-SERV-DISC-RESP ''),
     (''P2P_EVENT_SERV_ASP_RESP'', ''P2P-SERV-ASP-RESP ''),
     (''P2P_EVENT_INVITATION_RECEIVED'', ''P2P-INVITATION-RECEIVED ''),
     (''P2P_EVENT_INVITATION_RESULT'', ''P2P-INVITATION-RESULT ''),
     (''P2P_EVENT_INVITATION_ACCEPTED'', ''P2P-INVITATION-ACCEPTED ''),
     (''P2P_EVENT_FIND_STOPPED'', ''P2P-FIND-STOPPED ''),
     (''P2P_EVENT_PERSISTENT_PSK_FAIL'', ''P2P-PERSISTENT-PSK-FAIL id=''),
     (''P2P_EVENT_PRESENCE_RESPONSE'', ''P2P-PRESENCE-RESPONSE ''),
     (''P2P_EVENT_NFC_BOTH_GO'', ''P2P-NFC-BOTH-GO ''),
     (''P2P_EVENT_NFC_PEER_CLIENT'', ''P2P-NFC-PEER-CLIENT ''),
     (''P2P_EVENT_NFC_WHILE_CLIENT'', ''P2P-NFC-WHILE-CLIENT ''),
     (''P2P_EVENT_FALLBACK_TO_GO_NEG'', ''P2P-FALLBACK-TO-GO-NEG ''),
     (''P2P_EVENT_FALLBACK_TO_GO_NEG_ENABLED'', ''P2P-FALLBACK-TO-GO-NEG-ENABLED ''),
     (''ESS_DISASSOC_IMMINENT'', ''ESS-DISASSOC-IMMINENT ''),
     (''P2P_EVENT_REMOVE_AND_REFORM_GROUP'', ''P2P-REMOVE-AND-REFORM-GROUP ''),
     (''P2P_EVENT_P2PS_PROVISION_START'', ''P2PS-PROV-START ''),
     (''P2P_EVENT_P2PS_PROVISION_DONE'', ''P2PS-PROV-DONE '')]"

text \<open>Interworking, credentials, queries, Hotspot 2.0 and radio work.\<close>

definition interworking_messages :: "(string \<times> string) list" where
  "interworking_messages = [
     (''INTERWORKING_AP'', ''INTERWORKING-AP ''),
     (''INTERWORKING_EXCLUDED'', ''INTERWORKING-BLACKLISTED ''),
     (''INTERWORKING_NO_MATCH'', ''INTERWORKING-NO-MATCH ''),
     (''INTERWORKING_ALREADY_CONNECTED'', ''INTERWORKING-ALREADY-CONNECTED ''),
     (''INTERWORKING_SELECTED'', ''INTERWORKING-SELECTED ''),
     (''CRED_ADDED'', ''CRED-ADDED ''),
     (''CRED_MODIFIED'', ''CRED-MODIFIED ''),
     (''CRED_REMOVED'', ''CRED-REMOVED ''),
     (''GAS_RESPONSE_INFO'', ''GAS-RESPONSE-INFO ''),
     (''GAS_QUERY_START'', ''GAS-QUERY-START ''),
     (''GAS_QUERY_DONE'', ''GAS-QUERY-DONE ''),
     (''ANQP_QUERY_DONE'', ''ANQP-QUERY-DONE ''),
     (''RX_ANQP'', ''RX-ANQP ''),
     (''RX_HS20_ANQP'', ''RX-HS20-ANQP ''),
     (''RX_HS20_ANQP_ICON'', ''RX-HS20-ANQP-ICON ''),
     (''RX_HS20_ICON'', ''RX-HS20-ICON ''),
     (''RX_MBO_ANQP'', ''RX-MBO-ANQP ''),
     (''RX_VENUE_URL'', ''RX-VENUE-URL ''),
     (''HS20_SUBSCRIPTION_REMEDIATION'', ''HS20-SUBSCRIPTION-REMEDIATION ''),
     (''HS20_DEAUTH_IMMINENT_NOTICE'', ''HS20-DEAUTH-IMMINENT-NOTICE ''),
     (''HS20_T_C_ACCEPTANCE'', ''HS20-T-C-ACCEPTANCE ''),
     (''EXT_RADIO_WORK_START'', ''EXT-RADIO-WORK-START ''),
     (''EXT_RADIO_WORK_TIMEOUT'', ''EXT-RADIO-WORK-TIMEOUT ''),
     (''RRM_EVENT_NEIGHBOR_REP_RXED'', ''RRM-NEIGHBOR-REP-RECEIVED ''),
     (''RRM_EVENT_NEIGHBOR_REP_FAILED'', ''RRM-NEIGHBOR-REP-REQUEST-FAILED '')]"

text \<open>An access point (hostapd).\<close>

definition access_point_messages :: "(string \<times> string) list" where
  "access_point_messages = [
     (''WPS_EVENT_PIN_NEEDED'', ''WPS-PIN-NEEDED ''),
     (''WPS_EVENT_NEW_AP_SETTINGS'', ''WPS-NEW-AP-SETTINGS ''),
     (''WPS_EVENT_REG_SUCCESS'', ''WPS-REG-SUCCESS ''),
     (''WPS_EVENT_AP_SETUP_LOCKED'', ''WPS-AP-SETUP-LOCKED ''),
     (''WPS_EVENT_AP_SETUP_UNLOCKED'', ''WPS-AP-SETUP-UNLOCKED ''),
     (''WPS_EVENT_AP_PIN_ENABLED'', ''WPS-AP-PIN-ENABLED ''),
     (''WPS_EVENT_AP_PIN_DISABLED'', ''WPS-AP-PIN-DISABLED ''),
     (''WPS_EVENT_PIN_ACTIVE'', ''WPS-PIN-ACTIVE ''),
     (''WPS_EVENT_CANCEL'', ''WPS-CANCEL ''),
     (''AP_STA_CONNECTED'', ''AP-STA-CONNECTED ''),
     (''AP_STA_DISCONNECTED'', ''AP-STA-DISCONNECTED ''),
     (''AP_STA_POSSIBLE_PSK_MISMATCH'', ''AP-STA-POSSIBLE-PSK-MISMATCH ''),
     (''AP_STA_POLL_OK'', ''AP-STA-POLL-OK ''),
     (''AP_REJECTED_MAX_STA'', ''AP-REJECTED-MAX-STA ''),
     (''AP_REJECTED_BLOCKED_STA'', ''AP-REJECTED-BLOCKED-STA ''),
     (''HS20_T_C_FILTERING_ADD'', ''HS20-T-C-FILTERING-ADD ''),
     (''HS20_T_C_FILTERING_REMOVE'', ''HS20-T-C-FILTERING-REMOVE ''),
     (''AP_EVENT_ENABLED'', ''AP-ENABLED ''),
     (''AP_EVENT_DISABLED'', ''AP-DISABLED ''),
     (''INTERFACE_ENABLED'', ''INTERFACE-ENABLED ''),
     (''INTERFACE_DISABLED'', ''INTERFACE-DISABLED ''),
     (''ACS_EVENT_STARTED'', ''ACS-STARTED ''),
     (''ACS_EVENT_COMPLETED'', ''ACS-COMPLETED ''),
     (''ACS_EVENT_FAILED'', ''ACS-FAILED ''),
     (''DFS_EVENT_RADAR_DETECTED'', ''DFS-RADAR-DETECTED ''),
     (''DFS_EVENT_NEW_CHANNEL'', ''DFS-NEW-CHANNEL ''),
     (''DFS_EVENT_CAC_START'', ''DFS-CAC-START ''),
     (''DFS_EVENT_CAC_COMPLETED'', ''DFS-CAC-COMPLETED ''),
     (''DFS_EVENT_NOP_FINISHED'', ''DFS-NOP-FINISHED ''),
     (''DFS_EVENT_PRE_CAC_EXPIRED'', ''DFS-PRE-CAC-EXPIRED ''),
     (''AP_CSA_FINISHED'', ''AP-CSA-FINISHED ''),
     (''P2P_EVENT_LISTEN_OFFLOAD_STOP'', ''P2P-LISTEN-OFFLOAD-STOPPED ''),
     (''P2P_LISTEN_OFFLOAD_STOP_REASON'', ''P2P-LISTEN-OFFLOAD-STOP-REASON '')]"

text \<open>Transition management, reports, caches and frames.\<close>

definition management_messages :: "(string \<times> string) list" where
  "management_messages = [
     (''BSS_TM_RESP'', ''BSS-TM-RESP ''),
     (''COLOC_INTF_REQ'', ''COLOC-INTF-REQ ''),
     (''COLOC_INTF_REPORT'', ''COLOC-INTF-REPORT ''),
     (''MBO_CELL_PREFERENCE'', ''MBO-CELL-PREFERENCE ''),
     (''MBO_TRANSITION_REASON'', ''MBO-TRANSITION-REASON ''),
     (''BEACON_REQ_TX_STATUS'', ''BEACON-REQ-TX-STATUS ''),
     (''BEACON_RESP_RX'', ''BEACON-RESP-RX ''),
     (''PMKSA_CACHE_ADDED'', ''PMKSA-CACHE-ADDED ''),
     (''PMKSA_CACHE_REMOVED'', ''PMKSA-CACHE-REMOVED ''),
     (''FILS_HLP_RX'', ''FILS-HLP-RX ''),
     (''RX_PROBE_REQUEST'', ''RX-PROBE-REQUEST ''),
     (''STA_OPMODE_MAX_BW_CHANGED'', ''STA-OPMODE-MAX-BW-CHANGED ''),
     (''STA_OPMODE_SMPS_MODE_CHANGED'', ''STA-OPMODE-SMPS-MODE-CHANGED ''),
     (''STA_OPMODE_N_SS_CHANGED'', ''STA-OPMODE-N_SS-CHANGED ''),
     (''WDS_STA_INTERFACE_ADDED'', ''WDS-STA-INTERFACE-ADDED ''),
     (''WDS_STA_INTERFACE_REMOVED'', ''WDS-STA-INTERFACE-REMOVED ''),
     (''TRANSITION_DISABLE'', ''TRANSITION-DISABLE ''),
     (''OCV_FAILURE'', ''OCV-FAILURE ''),
     (''AP_MGMT_FRAME_RECEIVED'', ''AP-MGMT-FRAME-RECEIVED ''),
     (''PASN_AUTH_STATUS'', ''PASN-AUTH-STATUS '')]"

definition announced_messages :: "(string \<times> string) list" where
  "announced_messages = control_messages @ wps_messages @ dpp_messages @ mesh_messages @
     p2p_messages @ interworking_messages @ access_point_messages @ management_messages"

subsection \<open>What the monitor makes of them\<close>

text \<open>The messages that the monitor acts on, by the names of their macros.\<close>

definition event_of_macro :: "string \<Rightarrow> WpaEventType" where
  "event_of_macro name =
     (if name = ''WPA_EVENT_CONNECTED'' then Connected
      else if name = ''WPA_EVENT_DISCONNECTED'' then Disconnected
      else if name = ''WPA_EVENT_SIGNAL_CHANGE'' then SignalChange
      else if name = ''WPA_EVENT_TERMINATING'' then Terminating
      else Other)"

definition watched :: "string list" where
  "watched = [WPA_EVENT_CONNECTED, WPA_EVENT_DISCONNECTED, WPA_EVENT_SIGNAL_CHANGE,
     WPA_EVENT_TERMINATING]"

text \<open>No text that follows can make one of them start with the other.\<close>

definition separate :: "string \<Rightarrow> string \<Rightarrow> bool" where
  "separate a b \<longleftrightarrow> \<not> prefix a b \<and> \<not> prefix b a"

lemma separate_follow: "separate a b \<Longrightarrow> \<not> prefix a (b @ rest)"
  unfolding separate_def by (metis prefixI prefix_same_cases)

text \<open>A message is one of the four, or separate from each of them.\<close>

fun told_apart :: "string \<times> string \<Rightarrow> bool" where
  "told_apart (name, text) =
     (case event_of_macro name of
        Connected \<Rightarrow> text = WPA_EVENT_CONNECTED
      | Disconnected \<Rightarrow> text = WPA_EVENT_DISCONNECTED
      | SignalChange \<Rightarrow> text = WPA_EVENT_SIGNAL_CHANGE
      | Terminating \<Rightarrow> text = WPA_EVENT_TERMINATING
      | Other \<Rightarrow> list_all (\<lambda>w. separate w text) watched)"

lemma all_told_apart:
  "list_all told_apart control_messages" "list_all told_apart wps_messages"
  "list_all told_apart dpp_messages" "list_all told_apart mesh_messages"
  "list_all told_apart p2p_messages" "list_all told_apart interworking_messages"
  "list_all told_apart access_point_messages" "list_all told_apart management_messages"
  by code_simp+

lemma watched_apart:
  "separate WPA_EVENT_CONNECTED WPA_EVENT_DISCONNECTED"
  "separate WPA_EVENT_CONNECTED WPA_EVENT_SIGNAL_CHANGE"
  "separate WPA_EVENT_CONNECTED WPA_EVENT_TERMINATING"
  "separate WPA_EVENT_DISCONNECTED WPA_EVENT_SIGNAL_CHANGE"
  "separate WPA_EVENT_DISCONNECTED WPA_EVENT_TERMINATING"
  "separate WPA_EVENT_SIGNAL_CHANGE WPA_EVENT_TERMINATING"
  by code_simp+

lemma told_apart_type:
  assumes "told_apart (name, text)"
  shows "ev_type (parseEvent (with_priority n (text @ rest)) iface) = event_of_macro name"
  using assms watched_apart[THEN separate_follow, of rest]
  by (auto simp: parseEvent_def Let_def stripPriority_with_priority watched_def separate_follow
      split: WpaEventType.splits)

text \<open>C21: of all messages that the control interface announces, with any priority in front and
  whatever follows, the monitor acts on the four that it knows and takes every other one, however
  alike its name, for none of them.\<close>

theorem announced_messages_classified:
  assumes "(name, text) \<in> set announced_messages"
  shows "ev_type (parseEvent (with_priority n (text @ rest)) iface) = event_of_macro name"
proof -
  have "list_all told_apart announced_messages"
    using all_told_apart by (simp add: announced_messages_def)
  with assms have "told_apart (name, text)" by (auto simp: list_all_iff)
  then show ?thesis by (rule told_apart_type)
qed

theorem announced_messages_classified_witness:
  "ev_type (parseEvent (with_priority 3 (''CTRL-EVENT-SSID-REENABLED '' @ ''id=0'')) ''wlan0'') = Other"
proof -
  have "(''WPA_EVENT_REENABLED'', ''CTRL-EVENT-SSID-REENABLED '') \<in> set announced_messages"
    by (simp add: announced_messages_def control_messages_def)
  from announced_messages_classified[OF this, of 3 "''id=0''" "''wlan0''"] show ?thesis
    by (simp add: event_of_macro_def)
qed

text \<open>A message of the global control interface has the interface in front; the monitor knows none
  of those.\<close>

lemma global_messages_ignored:
  "ev_type (parseEvent (''IFNAME='' @ rest) iface) = Other"
  by (simp add: parseEvent_def Let_def stripPriority_def wpa_event_names)

subsection \<open>Scan entries and vendor elements\<close>

definition BIT :: "nat \<Rightarrow> u32" where
  "BIT x = push_bit x 1"

definition WPA_BSS_MASK_ALL :: u32 where
  "WPA_BSS_MASK_ALL = 0xFFFDFFFF"

definition bss_masks :: "(string \<times> u32) list" where
  "bss_masks = [
     (''WPA_BSS_MASK_ID'', BIT 0),
     (''WPA_BSS_MASK_BSSID'', BIT 1),
     (''WPA_BSS_MASK_FREQ'', BIT 2),
     (''WPA_BSS_MASK_BEACON_INT'', BIT 3),
     (''WPA_BSS_MASK_CAPABILITIES'', BIT 4),
     (''WPA_BSS_MASK_QUAL'', BIT 5),
     (''WPA_BSS_MASK_NOISE'', BIT 6),
     (''WPA_BSS_MASK_LEVEL'', BIT 7),
     (''WPA_BSS_MASK_TSF'', BIT 8),
     (''WPA_BSS_MASK_AGE'', BIT 9),
     (''WPA_BSS_MASK_IE'', BIT 10),
     (''WPA_BSS_MASK_FLAGS'', BIT 11),
     (''WPA_BSS_MASK_SSID'', BIT 12),
     (''WPA_BSS_MASK_WPS_SCAN'', BIT 13),
     (''WPA_BSS_MASK_P2P_SCAN'', BIT 14),
     (''WPA_BSS_MASK_INTERNETW'', BIT 15),
     (''WPA_BSS_MASK_WIFI_DISPLAY'', BIT 16),
     (''WPA_BSS_MASK_DELIM'', BIT 17),
     (''WPA_BSS_MASK_MESH_SCAN'', BIT 18),
     (''WPA_BSS_MASK_SNR'', BIT 19),
     (''WPA_BSS_MASK_EST_THROUGHPUT'', BIT 20),
     (''WPA_BSS_MASK_FST'', BIT 21),
     (''WPA_BSS_MASK_UPDATE_IDX'', BIT 22),
     (''WPA_BSS_MASK_BEACON_IE'', BIT 23),
     (''WPA_BSS_MASK_FILS_INDICATION'', BIT 24)]"

text \<open>\<^verbatim>\<open>WPA_BSS_MASK_ALL\<close> is every bit but that of the delimiter, and the masks are single bits.\<close>

lemma bss_mask_all: "WPA_BSS_MASK_ALL = NOT (BIT 17)"
  by (simp add: WPA_BSS_MASK_ALL_def BIT_def push_bit_eq_mult)

lemma bss_masks_bits: "map snd bss_masks = map BIT [0..<25]"
  by (simp add: bss_masks_def upt_rec eval_nat_numeral)

datatype wpa_vendor_elem_frame = VENDOR_ELEM_PROBE_REQ_P2P
  | VENDOR_ELEM_PROBE_RESP_P2P
  | VENDOR_ELEM_PROBE_RESP_P2P_GO
  | VENDOR_ELEM_BEACON_P2P_GO
  | VENDOR_ELEM_P2P_PD_REQ
  | VENDOR_ELEM_P2P_PD_RESP
  | VENDOR_ELEM_P2P_GO_NEG_REQ
  | VENDOR_ELEM_P2P_GO_NEG_RESP
  | VENDOR_ELEM_P2P_GO_NEG_CONF
  | VENDOR_ELEM_P2P_INV_REQ
  | VENDOR_ELEM_P2P_INV_RESP
  | VENDOR_ELEM_P2P_ASSOC_REQ
  | VENDOR_ELEM_P2P_ASSOC_RESP
  | VENDOR_ELEM_ASSOC_REQ
  | VENDOR_ELEM_PROBE_REQ
  | NUM_VENDOR_ELEM_FRAMES

fun vendor_elem_code :: "wpa_vendor_elem_frame \<Rightarrow> nat" where
  "vendor_elem_code VENDOR_ELEM_PROBE_REQ_P2P = 0"
| "vendor_elem_code VENDOR_ELEM_PROBE_RESP_P2P = 1"
| "vendor_elem_code VENDOR_ELEM_PROBE_RESP_P2P_GO = 2"
| "vendor_elem_code VENDOR_ELEM_BEACON_P2P_GO = 3"
| "vendor_elem_code VENDOR_ELEM_P2P_PD_REQ = 4"
| "vendor_elem_code VENDOR_ELEM_P2P_PD_RESP = 5"
| "vendor_elem_code VENDOR_ELEM_P2P_GO_NEG_REQ = 6"
| "vendor_elem_code VENDOR_ELEM_P2P_GO_NEG_RESP = 7"
| "vendor_elem_code VENDOR_ELEM_P2P_GO_NEG_CONF = 8"
| "vendor_elem_code VENDOR_ELEM_P2P_INV_REQ = 9"
| "vendor_elem_code VENDOR_ELEM_P2P_INV_RESP = 10"
| "vendor_elem_code VENDOR_ELEM_P2P_ASSOC_REQ = 11"
| "vendor_elem_code VENDOR_ELEM_P2P_ASSOC_RESP = 12"
| "vendor_elem_code VENDOR_ELEM_ASSOC_REQ = 13"
| "vendor_elem_code VENDOR_ELEM_PROBE_REQ = 14"
| "vendor_elem_code NUM_VENDOR_ELEM_FRAMES = 15"

lemma vendor_elem_code_inj: "vendor_elem_code f = vendor_elem_code g \<longleftrightarrow> f = g"
  by (cases f; cases g) simp_all

end
