(* ===== verification/Wpa_Ctrl_Variants.thy ===== *)
theory Wpa_Ctrl_Variants
  imports Wpa_Ctrl
begin

text \<open>
  The variants of \<^verbatim>\<open>wpa/wpa_ctrl.c\<close> that \<^verbatim>\<open>wpa/build_config.h\<close> leaves out: UDP sockets
  (\<^verbatim>\<open>CONFIG_CTRL_IFACE_UDP\<close>, with \<^verbatim>\<open>_IPV6\<close> and \<^verbatim>\<open>_REMOTE\<close>), named pipes of Windows
  (\<^verbatim>\<open>CONFIG_CTRL_IFACE_NAMED_PIPE\<close>), and the parts for Android. They share the sending and
  waiting loops of theory Wpa_Ctrl. Pointers that may be null are options; freeing null is no call.
\<close>

subsection \<open>UDP\<close>

text \<open>The options of the preprocessor that choose among the UDP variants.\<close>

record udp_options =
  udp_ipv6 :: bool
  udp_with_remote :: bool

record udp_ctrl =
  udp_s :: int
  udp_local :: sockaddr_in
  udp_dest :: sockaddr_in
  udp_cookie :: "string option"
  udp_remote_ifname :: "string option"
  udp_remote_ip :: "string option"

definition WPA_CTRL_IFACE_PORT :: u16 where "WPA_CTRL_IFACE_PORT = 9877"

text \<open>The text that a buffer holds for C: up to its first NUL.\<close>

definition text_of :: "string \<Rightarrow> string" where
  "text_of b = takeWhile (\<lambda>c. c \<noteq> CHR 0x00) b"

definition os_strdup :: "env \<Rightarrow> string \<Rightarrow> string option os" where
  "os_strdup env s = do {
     a \<leftarrow> perform env (Alt (StrDup s));
     return (if rc a = 0 then None else Some s) }"

definition free_text :: "env \<Rightarrow> string option \<Rightarrow> unit os" where
  "free_text env p =
     (if p = None then return () else do { _ \<leftarrow> perform env (Ctl FreeMem); return () })"

text \<open>\<^verbatim>\<open>atoi\<close>; the code has no defined result when the number is no \<^verbatim>\<open>int\<close>.\<close>

definition atoi :: "string \<Rightarrow> int" where
  "atoi s = (let (neg, t) = sign_split (dropWhile is_space s); n = int (digits_value 10 0 t)
             in if neg then - n else n)"

text \<open>\<^verbatim>\<open>name\<close> up to the first \<open>c\<close>, and what follows it.\<close>

definition split_at :: "char \<Rightarrow> string \<Rightarrow> string \<times> string option" where
  "split_at c s =
     (takeWhile (\<lambda>x. x \<noteq> c) s,
      case dropWhile (\<lambda>x. x \<noteq> c) s of [] \<Rightarrow> None | _ # t \<Rightarrow> Some t)"

definition udp_own_address :: "udp_options \<Rightarrow> sockaddr_in" where
  "udp_own_address opt =
     \<lparr>sin_host = if udp_with_remote opt then AnyHost else LoopbackHost, sin_port = 0, sin_scope = 0\<rparr>"

definition udp_default_dest :: sockaddr_in where
  "udp_default_dest = \<lparr>sin_host = LoopbackHost, sin_port = WPA_CTRL_IFACE_PORT, sin_scope = 0\<rparr>"

text \<open>The remote supplicant that a path names: its address, when there is one, and the copy of the
  host's name.\<close>

definition udp_remote :: "env \<Rightarrow> bool \<Rightarrow> string option \<Rightarrow> (sockaddr_in option \<times> string option) os" where
  "udp_remote env ipv6 ctrl_path =
     (case ctrl_path of
        None \<Rightarrow> do { ip \<leftarrow> os_strdup env ''localhost''; return (Some udp_default_dest, ip) }
      | Some path \<Rightarrow> do {
          dup \<leftarrow> os_strdup env path;
          (case dup of
             None \<Rightarrow> return (None, None)
           | Some name0 \<Rightarrow>
               let (name1, port) = split_at (if ipv6 then CHR '','' else CHR '':'') name0;
                   port_id = (case port of Some t \<Rightarrow> word_of_int (atoi t) | None \<Rightarrow> WPA_CTRL_IFACE_PORT);
                   (name, scope) = (if ipv6 then split_at (CHR ''%'') name1 else (name1, None))
               in do {
                 scope_id \<leftarrow> (case scope of
                     None \<Rightarrow> return 0
                   | Some t \<Rightarrow> do { a \<leftarrow> perform env (Alt (ScopeOf t)); return (word_of_int (rc a)) });
                 h \<leftarrow> perform env (Alt (HostByName ipv6 name));
                 ip \<leftarrow> os_strdup env name;
                 _ \<leftarrow> perform env (Ctl FreeMem);
                 return (if rc h = 0 then None
                   else Some \<lparr>sin_host = HostAddr (content h), sin_port = port_id,
                     sin_scope = scope_id\<rparr>, ip) }) })"

definition udp_target ::
  "env \<Rightarrow> udp_options \<Rightarrow> string option \<Rightarrow> (sockaddr_in option \<times> string option) os" where
  "udp_target env opt ctrl_path =
     (if udp_with_remote opt then udp_remote env (udp_ipv6 opt) ctrl_path
      else return (Some udp_default_dest, None))"

text \<open>The command with the cookie in front, in memory of its own, as it is sent.\<close>

definition udp_command :: "string \<Rightarrow> string \<Rightarrow> string" where
  "udp_command cookie cmd =
     fst (os_strlcpy cookie (length cookie + 1 + length cmd)) @ '' '' @ cmd"

definition udp_request ::
  "env \<Rightarrow> nat \<Rightarrow> udp_ctrl \<Rightarrow> string \<Rightarrow> nat \<Rightarrow> bool \<Rightarrow> (int \<times> string \<times> string list) option os" where
  "udp_request env fuel ctrl cmd reply_len cb = do {
     let full_cmd = (case udp_cookie ctrl of None \<Rightarrow> cmd | Some c \<Rightarrow> udp_command c cmd);
     room \<leftarrow> (case udp_cookie ctrl of
         None \<Rightarrow> return True
       | Some c \<Rightarrow> do { a \<leftarrow> perform env (Alt (Malloc (length full_cmd))); return (rc a \<noteq> 0) });
     (if \<not> room then return (Some (- 1, [], []))
      else do {
        sent \<leftarrow> retry_send env (udp_s ctrl) full_cmd fuel (0, 0);
        (case sent of
           None \<Rightarrow> return None
         | Some b \<Rightarrow> do {
             _ \<leftarrow> free_text env (udp_cookie ctrl);
             (if b then wait_reply env (udp_s ctrl) reply_len cb fuel []
              else return (Some (- 1, [], []))) }) }) }"

text \<open>One of the two requests at the end of \<^verbatim>\<open>wpa_ctrl_open\<close>: the copy of its reply, when it
  succeeded, and what is then in \<^verbatim>\<open>len\<close>. The second one starts with what the first one left there.\<close>

definition udp_ask ::
  "env \<Rightarrow> nat \<Rightarrow> udp_ctrl \<Rightarrow> string \<Rightarrow> nat \<Rightarrow> (string option \<times> nat) option os" where
  "udp_ask env fuel ctrl cmd len = do {
     r \<leftarrow> udp_request env fuel ctrl cmd len False;
     (case r of
        None \<Rightarrow> return None
      | Some (ret, buf, _) \<Rightarrow>
          if ret = 0 then do {
            t \<leftarrow> os_strdup env (text_of buf);
            return (Some (t, length buf)) }
          else return (Some (None, len))) }"

definition udp_greet :: "env \<Rightarrow> nat \<Rightarrow> udp_ctrl \<Rightarrow> udp_ctrl option os" where
  "udp_greet env fuel ctrl = do {
     r \<leftarrow> udp_ask env fuel ctrl ''GET_COOKIE'' 127;
     (case r of
        None \<Rightarrow> return None
      | Some (cookie, len) \<Rightarrow> do {
          r2 \<leftarrow> udp_ask env fuel (ctrl\<lparr>udp_cookie := cookie\<rparr>) ''IFNAME'' len;
          return (case r2 of
              None \<Rightarrow> None
            | Some (ifname, _) \<Rightarrow> Some (ctrl\<lparr>udp_cookie := cookie, udp_remote_ifname := ifname\<rparr>)) }) }"

text \<open>\<open>Some None\<close> is the null pointer; None: a request is still waiting.\<close>

definition udp_connect ::
  "env \<Rightarrow> nat \<Rightarrow> int \<Rightarrow> sockaddr_in \<Rightarrow> sockaddr_in option \<times> string option \<Rightarrow> udp_ctrl option option os" where
  "udp_connect env fuel s own target =
     (case target of
        (None, ip) \<Rightarrow> do {
          _ \<leftarrow> perform env (Sock (CloseFd s));
          _ \<leftarrow> free_text env ip;
          _ \<leftarrow> perform env (Ctl FreeMem);
          return (Some None) }
      | (Some dest, ip) \<Rightarrow> do {
          c \<leftarrow> perform env (Alt (ConnectInet s dest));
          (if rc c < 0 then do {
             _ \<leftarrow> perform env (Sock (CloseFd s));
             _ \<leftarrow> free_text env ip;
             _ \<leftarrow> perform env (Ctl FreeMem);
             return (Some None) }
           else do {
             r \<leftarrow> udp_greet env fuel \<lparr>udp_s = s, udp_local = own, udp_dest = dest, udp_cookie = None,
               udp_remote_ifname = None, udp_remote_ip = ip\<rparr>;
             return (map_option Some r) }) })"

definition udp_open :: "env \<Rightarrow> udp_options \<Rightarrow> nat \<Rightarrow> string option \<Rightarrow> udp_ctrl option option os" where
  "udp_open env opt fuel ctrl_path = do {
     m \<leftarrow> perform env (Ctl Zalloc);
     (if rc m = 0 then return (Some None)
      else do {
        s \<leftarrow> perform env (Alt (InetSocket (udp_ipv6 opt)));
        (if rc s < 0 then do { _ \<leftarrow> perform env (Ctl FreeMem); return (Some None) }
         else do {
           b \<leftarrow> perform env (Alt (BindInet (rc s) (udp_own_address opt)));
           (if rc b < 0 then do {
              _ \<leftarrow> perform env (Sock (CloseFd (rc s)));
              _ \<leftarrow> perform env (Ctl FreeMem);
              return (Some None) }
            else do {
              target \<leftarrow> udp_target env opt ctrl_path;
              udp_connect env fuel (rc s) (udp_own_address opt) target }) }) }) }"

text \<open>The C library prints \<^verbatim>\<open>(null)\<close> for a null pointer.\<close>

definition udp_get_remote_ifname :: "udp_ctrl \<Rightarrow> string" where
  "udp_get_remote_ifname ctrl =
     (let show_ptr = (\<lambda>p. case p of None \<Rightarrow> ''(null)'' | Some t \<Rightarrow> t)
      in take 99 (show_ptr (udp_remote_ip ctrl) @ ''/'' @ show_ptr (udp_remote_ifname ctrl)))"

definition udp_close :: "env \<Rightarrow> udp_ctrl \<Rightarrow> unit os" where
  "udp_close env ctrl = do {
     _ \<leftarrow> perform env (Sock (CloseFd (udp_s ctrl)));
     _ \<leftarrow> free_text env (udp_cookie ctrl);
     _ \<leftarrow> free_text env (udp_remote_ifname ctrl);
     _ \<leftarrow> free_text env (udp_remote_ip ctrl);
     _ \<leftarrow> perform env (Ctl FreeMem);
     return () }"

subsection \<open>Named pipes\<close>

definition INVALID_HANDLE_VALUE :: int where "INVALID_HANDLE_VALUE = - 1"

definition pipe_name :: "string option \<Rightarrow> string" where
  "pipe_name ctrl_path =
     [CHR 0x5C, CHR 0x5C, CHR ''.'', CHR 0x5C] @ ''pipe'' @ [CHR 0x5C] @ ''WpaSupplicant'' @
     (case ctrl_path of None \<Rightarrow> [] | Some p \<Rightarrow> ''-'' @ p)"

text \<open>The tries that are left; the error is that of the last one.\<close>

fun pipe_try :: "env \<Rightarrow> string \<Rightarrow> nat \<Rightarrow> int os" where
  "pipe_try env name 0 = return INVALID_HANDLE_VALUE"
| "pipe_try env name (Suc n) = do {
     a \<leftarrow> perform env (Alt (CreatePipe name));
     (if rc a \<noteq> INVALID_HANDLE_VALUE \<or> err a \<noteq> EBUSY then return (rc a)
      else do {
        _ \<leftarrow> perform env (Alt (WaitPipe name 1000));
        pipe_try env name n }) }"

definition pipe_open :: "env \<Rightarrow> string option \<Rightarrow> int option os" where
  "pipe_open env ctrl_path = do {
     m \<leftarrow> perform env (Ctl Zalloc);
     (if rc m = 0 then return None
      else if os_snprintf_error 256 (int (length (pipe_name ctrl_path))) then do {
        _ \<leftarrow> perform env (Ctl FreeMem);
        return None }
      else do {
        pipe \<leftarrow> pipe_try env (pipe_name ctrl_path) 10;
        (if pipe = INVALID_HANDLE_VALUE then do {
           _ \<leftarrow> perform env (Ctl FreeMem);
           return None }
         else do {
           a \<leftarrow> perform env (Alt (SetPipeMessages pipe));
           (if rc a = 0 then do {
              _ \<leftarrow> perform env (Alt (ClosePipe pipe));
              _ \<leftarrow> perform env (Ctl FreeMem);
              return None }
            else return (Some pipe)) }) }) }"

definition pipe_close :: "env \<Rightarrow> int \<Rightarrow> unit os" where
  "pipe_close env pipe = do {
     _ \<leftarrow> perform env (Alt (ClosePipe pipe));
     _ \<leftarrow> perform env (Ctl FreeMem);
     return () }"

text \<open>The reply, or None for the result -1.\<close>

definition pipe_recv :: "env \<Rightarrow> int \<Rightarrow> nat \<Rightarrow> string option os" where
  "pipe_recv env pipe reply_len = do {
     a \<leftarrow> perform env (Alt (ReadPipe pipe reply_len));
     return (if rc a = 0 then None else Some (content a)) }"

definition pipe_request :: "env \<Rightarrow> int \<Rightarrow> string \<Rightarrow> nat \<Rightarrow> string option os" where
  "pipe_request env pipe cmd reply_len = do {
     w \<leftarrow> perform env (Alt (WritePipe pipe cmd));
     (if rc w = 0 then return None else pipe_recv env pipe reply_len) }"

text \<open>\<open>content\<close> is what is left to read.\<close>

definition pipe_pending :: "env \<Rightarrow> int \<Rightarrow> int os" where
  "pipe_pending env pipe = do {
     a \<leftarrow> perform env (Alt (PeekPipe pipe));
     return (if rc a = 0 then - 1 else if content a \<noteq> [] then 1 else 0) }"

definition pipe_get_fd :: "int \<Rightarrow> int" where
  "pipe_get_fd pipe = - 1"

subsection \<open>Android\<close>

text \<open>What Android does after the socket is bound: the owner of the client's file (the group alone
  first), then names of its reserved namespace, cut to 20 characters. The first option is None when
  the code goes on as elsewhere, and the second the pointer that it returns.\<close>

definition android_connect :: "env \<Rightarrow> int \<Rightarrow> string \<Rightarrow> string \<Rightarrow> wpa_ctrl option option os" where
  "android_connect env s ctrl_path local = do {
     _ \<leftarrow> perform env (Alt (ChangeOwner local False));
     _ \<leftarrow> perform env (Alt (ChangeOwner local True));
     (if \<not> prefix ''@android:'' ctrl_path \<and> prefix ''/'' ctrl_path then return None
      else do {
        c \<leftarrow> perform env (Alt (ReservedConnect s
            (if prefix ''@android:'' ctrl_path then drop 9 ctrl_path
             else take 20 (''wpa_'' @ ctrl_path))));
        (if rc c < 0 then do {
           _ \<leftarrow> perform env (Sock (CloseFd s));
           _ \<leftarrow> perform env (File (Unlink local));
           _ \<leftarrow> perform env (Ctl FreeMem);
           return (Some None) }
         else return (Some (Some \<lparr>ctl_s = s, ctl_local = local, ctl_dest = []\<rparr>))) }) }"

lemma android_connect_balanced:
  "held env h (calls (android_connect env s path p) h) {Memory, Socket s, SocketFile p} =
     (case outcome (android_connect env s path p) h of
        Some None \<Rightarrow> {} | Some (Some c) \<Rightarrow> connection c | None \<Rightarrow> {Memory, Socket s, SocketFile p})"
  by (auto simp: android_connect_def run_simps extends_rules connection_def)


text \<open>The loop over the entries of the client directory, \<open>n\<close> of them at most; whether it saw the end.\<close>

fun unlink_entries :: "env \<Rightarrow> string \<Rightarrow> nat \<Rightarrow> nat \<Rightarrow> bool os" where
  "unlink_entries env dir maxcopy 0 = return False"
| "unlink_entries env dir maxcopy (Suc n) = do {
     e \<leftarrow> perform env (Alt NextEntry);
     (if rc e = 0 then return True
      else do {
        let (name, len) = os_strlcpy (content e) maxcopy;
        _ \<leftarrow> (if len < maxcopy then do { _ \<leftarrow> perform env (File (Unlink (dir @ name))); return () }
             else return ());
        unlink_entries env dir maxcopy n }) }"

definition PATH_MAX :: nat where "PATH_MAX = 4096"

definition wpa_ctrl_cleanup :: "env \<Rightarrow> nat \<Rightarrow> bool os" where
  "wpa_ctrl_cleanup env n = do {
     d \<leftarrow> perform env (Alt (OpenDir CLIENT_DIR));
     (if rc d = 0 then return True
      else let dir = CLIENT_DIR @ ''/'' in
        if length dir \<ge> PATH_MAX then do { _ \<leftarrow> perform env (Alt CloseDir); return True }
        else do {
          seen \<leftarrow> unlink_entries env dir (PATH_MAX - length dir) n;
          _ \<leftarrow> perform env (Alt CloseDir);
          return seen }) }"

subsection \<open>Lemmas\<close>

lemma extends_os_strdup [extends_rules]: "extends (os_strdup env s)"
  unfolding os_strdup_def by (intro extends_rules)

lemma extends_free_text [extends_rules]: "extends (free_text env p)"
  unfolding free_text_def by (intro extends_rules)

lemma extends_udp_remote [extends_rules]: "extends (udp_remote env v6 path)"
  unfolding udp_remote_def Let_def by (intro extends_rules)

lemma extends_udp_target [extends_rules]: "extends (udp_target env opt path)"
  unfolding udp_target_def by (intro extends_rules)

lemma extends_udp_request [extends_rules]: "extends (udp_request env fuel c cmd len cb)"
  unfolding udp_request_def Let_def by (intro extends_rules)

lemma extends_udp_ask [extends_rules]: "extends (udp_ask env fuel c cmd len)"
  unfolding udp_ask_def by (intro extends_rules)

lemma extends_udp_greet [extends_rules]: "extends (udp_greet env fuel c)"
  unfolding udp_greet_def Let_def by (intro extends_rules)

lemma extends_udp_connect [extends_rules]: "extends (udp_connect env fuel s own t)"
  unfolding udp_connect_def by (intro extends_rules)

lemma extends_udp_open [extends_rules]: "extends (udp_open env opt fuel path)"
  unfolding udp_open_def by (intro extends_rules)

lemma extends_udp_close [extends_rules]: "extends (udp_close env c)"
  unfolding udp_close_def by (intro extends_rules)

lemma extends_pipe_try [extends_rules]: "extends (pipe_try env name n)"
  by (induction n) (auto intro!: extends_rules)

lemma extends_pipe_open [extends_rules]: "extends (pipe_open env path)"
  unfolding pipe_open_def by (intro extends_rules)

lemma extends_pipe_close [extends_rules]: "extends (pipe_close env pipe)"
  unfolding pipe_close_def by (intro extends_rules)

lemma extends_unlink_entries [extends_rules]: "extends (unlink_entries env dir k n)"
proof (induction n)
  case (Suc n)
  then show ?case unfolding unlink_entries.simps Let_def by (intro extends_rules)
qed simp

text \<open>The room for the command with its cookie is exactly what it takes.\<close>

lemma udp_command_whole: "udp_command cookie cmd = cookie @ '' '' @ cmd"
  by (simp add: udp_command_def os_strlcpy_spec)

subsection \<open>What the variants hold\<close>

text \<open>The number of blocks of memory, and the open handles: what calls took less what they gave back.\<close>

type_synonym books = "int \<times> int set"

fun book_step :: "call \<times> answer \<Rightarrow> books \<Rightarrow> books" where
  "book_step (Ctl Zalloc, a) (n, H) = (if rc a = 0 then n else n + 1, H)"
| "book_step (Alt (StrDup t), a) (n, H) = (if rc a = 0 then n else n + 1, H)"
| "book_step (Alt (Malloc k), a) (n, H) = (if rc a = 0 then n else n + 1, H)"
| "book_step (Ctl FreeMem, a) (n, H) = (n - 1, H)"
| "book_step (Alt (InetSocket v6), a) (n, H) = (n, if rc a < 0 then H else insert (rc a) H)"
| "book_step (Sock (CloseFd s), a) (n, H) = (n, H - {s})"
| "book_step (Alt (CreatePipe name), a) (n, H) =
     (n, if rc a = INVALID_HANDLE_VALUE then H else insert (rc a) H)"
| "book_step (Alt (ClosePipe s), a) (n, H) = (n, H - {s})"
| "book_step _ b = b"

definition booked :: "env \<Rightarrow> call list \<Rightarrow> call list \<Rightarrow> books \<Rightarrow> books" where
  "booked env h cs b = fold book_step (exchanges env h cs) b"

lemma booked_simps [simp]:
  "booked env h [] b = b"
  "booked env h (c # cs) b = booked env (h @ [c]) cs (book_step (c, env h c) b)"
  "booked env h (cs @ ds) b = booked env (h @ cs) ds (booked env h cs b)"
  by (simp_all add: booked_def exchanges_append)

lemma book_step_other [simp]:
  "book_step (Ctl (CtlSend s p), a) b = b" "book_step (Ctl (CtlRecv s k), a) b = b"
  "book_step (Ctl GetTimeOfDay, a) b = b" "book_step (Ctl (SleepFor k), a) b = b"
  "book_step (Ctl (SelectRead s k), a) b = b"
  by (cases b; simp)+

abbreviation blocks :: "string option \<Rightarrow> int" where
  "blocks p \<equiv> (if p = None then 0 else 1)"

lemma booked_strdup [simp]:
  "booked env h (calls (os_strdup env t) h) (n, H) = (n + blocks (outcome (os_strdup env t) h), H)"
  by (simp add: os_strdup_def run_simps extends_rules)

lemma booked_free_text [simp]:
  "booked env h (calls (free_text env p) h') (n, H) = (n - blocks p, H)"
  by (simp add: free_text_def run_simps extends_rules)

lemma booked_retry_send [simp]: "booked env h (calls (retry_send env s cmd n t) h') b = b"
  by (induction n arbitrary: t h h')
    (simp_all add: run_simps extends_rules os_get_reltime_def)

lemma booked_wait_reply [simp]: "booked env h (calls (wait_reply env s len cb n msgs) h') b = b"
  by (induction n arbitrary: msgs h h') (simp_all add: run_simps extends_rules)

lemma booked_udp_request:
  "outcome (udp_request env fuel c cmd len cb) h \<noteq> None \<Longrightarrow>
     booked env h (calls (udp_request env fuel c cmd len cb) h) (n, H) = (n, H)"
  by (cases "udp_cookie c")
    (auto simp: udp_request_def run_simps extends_rules Let_def split: option.splits if_splits)

text \<open>Every request of UDP gives back what it took; opening fails with everything given back or holds
  exactly what closing gives back.\<close>

definition udp_holds :: "udp_ctrl \<Rightarrow> books" where
  "udp_holds c = (1 + blocks (udp_cookie c) + blocks (udp_remote_ifname c) + blocks (udp_remote_ip c),
     {udp_s c})"

lemma booked_udp_ask:
  "outcome (udp_ask env fuel c cmd len) h = Some (t, k) \<Longrightarrow>
     booked env h (calls (udp_ask env fuel c cmd len) h) (n, H) = (n + blocks t, H)"
  using booked_udp_request[of env fuel c cmd len False h n H]
  by (auto simp: udp_ask_def run_simps extends_rules split: option.splits if_splits; metis)

lemma booked_udp_greet:
  assumes "outcome (udp_greet env fuel c) h = Some c'"
  shows "booked env h (calls (udp_greet env fuel c) h) (n, H) =
      (n + blocks (udp_cookie c') + blocks (udp_remote_ifname c'), H)"
    and "udp_s c' = udp_s c \<and> udp_remote_ip c' = udp_remote_ip c"
proof -
  obtain cookie len where one: "outcome (udp_ask env fuel c ''GET_COOKIE'' 127) h = Some (cookie, len)"
    using assms by (auto simp: udp_greet_def run_simps extends_rules split: option.splits)
  let ?h = "h @ calls (udp_ask env fuel c ''GET_COOKIE'' 127) h"
  obtain ifname k where two:
    "outcome (udp_ask env fuel (c\<lparr>udp_cookie := cookie\<rparr>) ''IFNAME'' len) ?h = Some (ifname, k)"
    using assms one by (auto simp: udp_greet_def run_simps extends_rules split: option.splits)
  then have "c' = c\<lparr>udp_cookie := cookie, udp_remote_ifname := ifname\<rparr>"
    using assms one by (simp add: udp_greet_def run_simps extends_rules)
  then show "udp_s c' = udp_s c \<and> udp_remote_ip c' = udp_remote_ip c"
    and "booked env h (calls (udp_greet env fuel c) h) (n, H) =
      (n + blocks (udp_cookie c') + blocks (udp_remote_ifname c'), H)"
    using one two by (simp_all add: udp_greet_def run_simps extends_rules booked_udp_ask)
qed

lemma booked_udp_target:
  "booked env h (calls (udp_target env opt path) h) (n, H) =
     (n + blocks (snd (outcome (udp_target env opt path) h)), H)"
  by (auto simp: udp_target_def udp_remote_def run_simps extends_rules Let_def
      split: option.split prod.split)

lemma booked_udp_connect:
  assumes "outcome (udp_connect env fuel s own (dest, ip)) h = Some r"
  shows "booked env h (calls (udp_connect env fuel s own (dest, ip)) h) (1 + blocks ip, {s}) =
    (case r of None \<Rightarrow> (0, {}) | Some c \<Rightarrow> udp_holds c)"
proof (cases dest)
  case (Some d)
  let ?c = "\<lparr>udp_s = s, udp_local = own, udp_dest = d, udp_cookie = None, udp_remote_ifname = None,
    udp_remote_ip = ip\<rparr>"
  let ?h = "h @ [Alt (ConnectInet s d)]"
  show ?thesis
  proof (cases "rc (env h (Alt (ConnectInet s d))) < 0")
    case False
    then obtain c where c: "outcome (udp_greet env fuel ?c) ?h = Some c" "r = Some c"
      using assms by (auto simp: udp_connect_def Some run_simps extends_rules)
    then show ?thesis
      using False booked_udp_greet[OF c(1)]
      by (simp add: udp_connect_def Some run_simps extends_rules udp_holds_def)
  qed (use assms in \<open>auto simp: udp_connect_def Some run_simps extends_rules\<close>)
qed (use assms in \<open>auto simp: udp_connect_def run_simps extends_rules\<close>)

theorem udp_open_close_balanced:
  assumes "outcome (udp_open env opt fuel path) h = Some r"
  shows "booked env h (calls (udp_open env opt fuel path) h) (0, {}) =
      (case r of None \<Rightarrow> (0, {}) | Some c \<Rightarrow> udp_holds c)"
    and "booked env h' (calls (udp_close env c) h'') (udp_holds c) = (0, {})"
proof -
  show "booked env h' (calls (udp_close env c) h'') (udp_holds c) = (0, {})"
    by (simp add: udp_close_def udp_holds_def run_simps extends_rules)
  let ?s = "rc (env (h @ [Ctl Zalloc]) (Alt (InetSocket (udp_ipv6 opt))))"
  let ?h = "h @ [Ctl Zalloc, Alt (InetSocket (udp_ipv6 opt)), Alt (BindInet ?s (udp_own_address opt))]"
  obtain dest ip where t: "outcome (udp_target env opt path) ?h = (dest, ip)"
    by (cases "outcome (udp_target env opt path) ?h")
  show "booked env h (calls (udp_open env opt fuel path) h) (0, {}) =
      (case r of None \<Rightarrow> (0, {}) | Some c \<Rightarrow> udp_holds c)"
  proof (cases "rc (env h (Ctl Zalloc)) = 0 \<or> ?s < 0 \<or>
      rc (env (h @ [Ctl Zalloc, Alt (InetSocket (udp_ipv6 opt))]) (Alt (BindInet ?s (udp_own_address opt)))) < 0")
    case False
    then show ?thesis
      using assms t booked_udp_target[of env ?h opt path 1 "{?s}"]
        booked_udp_connect[of env fuel ?s "udp_own_address opt" dest ip "?h @ calls (udp_target env opt path) ?h" r]
      by (simp add: udp_open_def run_simps extends_rules)
  qed (use assms in \<open>auto simp: udp_open_def run_simps extends_rules split: if_splits\<close>)
qed

text \<open>A pipe is tried ten times at most; opening fails with everything given back or holds its memory
  and its handle, which closing gives back.\<close>

lemma pipe_tries:
  "length (filter (\<lambda>c. c = Alt (CreatePipe name)) (calls (pipe_try env name n) h)) \<le> n"
  by (induction n arbitrary: h) (simp_all add: run_simps extends_rules)

lemma booked_pipe_try:
  "booked env h (calls (pipe_try env name n) h) (k, {}) =
     (k, {outcome (pipe_try env name n) h} - {INVALID_HANDLE_VALUE})"
  by (induction n arbitrary: h) (auto simp: run_simps extends_rules)

theorem pipe_open_close_balanced:
  "booked env h (calls (pipe_open env path) h) (0, {}) =
     (case outcome (pipe_open env path) h of None \<Rightarrow> (0, {}) | Some p \<Rightarrow> (1, {p}))"
  "booked env h' (calls (pipe_close env p) h'') (1, {p}) = (0, {})"
proof -
  show "booked env h' (calls (pipe_close env p) h'') (1, {p}) = (0, {})"
    by (simp add: pipe_close_def run_simps extends_rules)
  let ?h = "h @ [Ctl Zalloc]" and ?tries = "pipe_try env (pipe_name path) 10"
  show "booked env h (calls (pipe_open env path) h) (0, {}) =
      (case outcome (pipe_open env path) h of None \<Rightarrow> (0, {}) | Some p \<Rightarrow> (1, {p}))"
    using booked_pipe_try[of env ?h "pipe_name path" 10 1]
    by (auto simp: pipe_open_def run_simps extends_rules)
qed

subsection \<open>What the variants get wrong\<close>

text \<open>The second request of \<^verbatim>\<open>wpa_ctrl_open\<close> reads no more than the first one's reply was long, so the
  name of the interface is cut to that length: with an empty reply nothing is left of it.\<close>

lemma wait_reply_length:
  assumes "\<And>h k. rc (env h (Ctl (CtlRecv s k))) \<le> int k"
    and "outcome (wait_reply env s len cb n msgs) h = Some (ret, buf, ms)"
  shows "length buf \<le> len"
  using assms(2)
proof (induction n arbitrary: msgs h)
  case (Suc n)
  let ?a = "env (h @ [Ctl (SelectRead s 10)]) (Ctl (CtlRecv s len))"
  have "length (received ?a) \<le> len"
    using assms(1)[of "h @ [Ctl (SelectRead s 10)]" len] by (simp add: received_def min.coboundedI2 nat_le_iff)
  with Suc show ?case
    by (auto simp: run_simps extends_rules split: if_splits)
qed simp

lemma udp_ask_length:
  assumes "\<And>h k. rc (env h (Ctl (CtlRecv (udp_s c) k))) \<le> int k"
    and "outcome (udp_ask env fuel c cmd len) h = Some (t, k)"
  shows "k \<le> len" and "t = Some x \<Longrightarrow> length x \<le> len"
proof -
  obtain ret buf ms where r: "outcome (udp_request env fuel c cmd len False) h = Some (ret, buf, ms)"
    using assms(2) by (auto simp: udp_ask_def run_simps extends_rules split: option.splits)
  then have buf: "length buf \<le> len"
    using wait_reply_length[OF assms(1)]
    by (auto simp: udp_request_def run_simps extends_rules Let_def split: option.splits if_splits)
  then have "length (text_of buf) \<le> len"
    using length_takeWhile_le[of "\<lambda>c. c \<noteq> CHR 0x00" buf] by (simp add: text_of_def)
  with buf assms(2) r show "k \<le> len" and "t = Some x \<Longrightarrow> length x \<le> len"
    by (auto simp: udp_ask_def run_simps extends_rules os_strdup_def split: if_splits)
qed

theorem ifname_cut_to_cookie:
  assumes "\<And>h k. rc (env h (Ctl (CtlRecv (udp_s c) k))) \<le> int k"
    and "outcome (udp_greet env fuel c) h = Some c'"
    and "outcome (udp_request env fuel c ''GET_COOKIE'' 127 False) h = Some (0, answered, ms)"
    and "udp_remote_ifname c' = Some name"
  shows "length name \<le> length answered"
proof -
  obtain cookie where one:
    "outcome (udp_ask env fuel c ''GET_COOKIE'' 127) h = Some (cookie, length answered)"
    using assms(3) by (simp add: udp_ask_def run_simps extends_rules)
  let ?h = "h @ calls (udp_ask env fuel c ''GET_COOKIE'' 127) h"
  let ?c = "c\<lparr>udp_cookie := cookie\<rparr>"
  obtain k where "outcome (udp_ask env fuel ?c ''IFNAME'' (length answered)) ?h = Some (Some name, k)"
    using assms(2,4) one by (auto simp: udp_greet_def run_simps extends_rules split: option.splits)
  then show ?thesis
    using udp_ask_length(2)[of env ?c fuel "''IFNAME''" "length answered" ?h] assms(1) by simp
qed

text \<open>The clean-up removes every entry of the directory, whoever made it, and the directory is
  \<^verbatim>\<open>/tmp\<close> unless the build says otherwise.\<close>

fun entries_seen :: "env \<Rightarrow> call list \<Rightarrow> call list \<Rightarrow> string list" where
  "entries_seen env h [] = []"
| "entries_seen env h (c # cs) =
     (case c of Alt NextEntry \<Rightarrow> (if rc (env h c) = 0 then [] else [content (env h c)]) | _ \<Rightarrow> []) @
     entries_seen env (h @ [c]) cs"

lemma entries_seen_append:
  "entries_seen env h (cs @ ds) = entries_seen env h cs @ entries_seen env (h @ cs) ds"
  by (induction cs arbitrary: h) simp_all

fun unlinked :: "call \<Rightarrow> string option" where
  "unlinked (File (Unlink p)) = Some p"
| "unlinked _ = None"

lemma unlink_entries_all:
  "view unlinked (calls (unlink_entries env dir k n) h) =
     map (\<lambda>e. dir @ e) (filter (\<lambda>e. length e < k) (entries_seen env h (calls (unlink_entries env dir k n) h)))"
  by (induction n arbitrary: h) (simp_all add: run_simps extends_rules Let_def os_strlcpy_spec)

theorem cleanup_unlinks_all:
  "view unlinked (calls (wpa_ctrl_cleanup env n) h) =
     map (\<lambda>e. ''/tmp/'' @ e)
       (filter (\<lambda>e. length e < 4091) (entries_seen env h (calls (wpa_ctrl_cleanup env n) h)))"
  by (simp add: wpa_ctrl_cleanup_def run_simps extends_rules Let_def CLIENT_DIR_def PATH_MAX_def
      unlink_entries_all entries_seen_append)

end
