(* ===== verification/Fota_Consumer.thy ===== *)
theory Fota_Consumer
  imports Mock_Consumer
begin

text \<open>
  \<^verbatim>\<open>tests/fota_consumer.cpp\<close>: the repository's demonstration of a consumer, which registers for a
  class, downloads a file over HTTP from a socket of MPTCP, and listens to the notifications of
  its class beside that. Its \<^verbatim>\<open>sendMsg\<close> and \<^verbatim>\<open>recvMsg\<close> are those of the other consumer. What it
  prints is not modelled, nor the thread that prints the throughput and only reads the counter.
\<close>

subsection \<open>Arguments\<close>

record fota_args =
  fota_server :: string
  fota_port :: u16
  fota_path :: string
  fota_socket :: string
  fota_class :: string
  fota_out :: string
  fota_sha :: string

definition default_fota_args :: fota_args where
  "default_fota_args =
     \<lparr>fota_server = ''172.16.1.1'', fota_port = 8080, fota_path = ''/firmware.img'',
      fota_socket = kSocketPath, fota_class = ''multipath'',
      fota_out = ''/tmp/firmware_downloaded.img'', fota_sha = []\<rparr>"

text \<open>None: \<^verbatim>\<open>std::stoi\<close> throws.\<close>

fun parse_fota_args :: "fota_args \<Rightarrow> string list \<Rightarrow> fota_args option" where
  "parse_fota_args a [] = Some a"
| "parse_fota_args a [v] = Some a"
| "parse_fota_args a (v # w # vs) =
     (if v = ''--server'' then parse_fota_args (a\<lparr>fota_server := w\<rparr>) vs
      else if v = ''--port'' then
        (case stoi w of
           None \<Rightarrow> None
         | Some n \<Rightarrow> parse_fota_args (a\<lparr>fota_port := word_of_int n\<rparr>) vs)
      else if v = ''--path'' then parse_fota_args (a\<lparr>fota_path := w\<rparr>) vs
      else if v = ''--socket'' then parse_fota_args (a\<lparr>fota_socket := w\<rparr>) vs
      else if v = ''--class'' then parse_fota_args (a\<lparr>fota_class := w\<rparr>) vs
      else if v = ''--out'' then parse_fota_args (a\<lparr>fota_out := w\<rparr>) vs
      else if v = ''--expected-sha256'' then parse_fota_args (a\<lparr>fota_sha := w\<rparr>) vs
      else parse_fota_args a (w # vs))"

subsection \<open>The connection to the daemon\<close>

text \<open>The descriptor, negative without a connection, and the handle.\<close>

type_synonym ctl_conn = "int \<times> u64"

definition registerWithDaemon :: "env \<Rightarrow> string \<Rightarrow> string \<Rightarrow> ctl_conn os" where
  "registerWithDaemon env socket classId = do {
     s \<leftarrow> perform env (Sock SocketUnix);
     (if rc s < 0 then return (rc s, 0)
      else do {
        c \<leftarrow> perform env (Ctl (ConnectUnix (rc s) (take 107 (c_str socket))));
        (if rc c < 0 then do {
           _ \<leftarrow> perform env (Sock (CloseFd (rc s)));
           return (- 1, 0) }
         else do {
           p \<leftarrow> perform env (Ctl GetPid);
           r \<leftarrow> register_on env classId (rc p) (rc s);
           (case r of
              None \<Rightarrow> do {
                _ \<leftarrow> perform env (Sock (CloseFd (rc s)));
                return (- 1, 0) }
            | Some ack \<Rightarrow> return (rc s, msg_handle ack)) }) }) }"

definition unregisterFromDaemon :: "env \<Rightarrow> ctl_conn \<Rightarrow> unit os" where
  "unregisterFromDaemon env c =
     (if fst c < 0 then return ()
      else do {
        _ \<leftarrow> trySendMsg env (fst c) (unregister_request (snd c));
        _ \<leftarrow> perform env (Sock (CloseFd (fst c)));
        return () })"

subsection \<open>HTTP\<close>

definition openMptcpSocket :: "env \<Rightarrow> string \<Rightarrow> u16 \<Rightarrow> int os" where
  "openMptcpSocket env server port = do {
     m \<leftarrow> perform env (App MptcpSocket);
     fd \<leftarrow> (if rc m < 0 then do { t \<leftarrow> perform env (App TcpSocket); return (rc t) } else return (rc m));
     (if fd < 0 then return (- 1)
      else do {
        p \<leftarrow> perform env (App (ParseIp server));
        (if rc p \<noteq> 1 then do { _ \<leftarrow> perform env (Sock (CloseFd fd)); return (- 1) }
         else do {
           c \<leftarrow> perform env (App (ConnectIp fd server port));
           (if rc c < 0 then do { _ \<leftarrow> perform env (Sock (CloseFd fd)); return (- 1) }
            else return fd) }) }) }"

definition crlf :: string where "crlf = [CHR 0x0D, CHR 0x0A]"

definition http_request :: "string \<Rightarrow> string \<Rightarrow> string" where
  "http_request host path =
     ''GET '' @ path @ '' HTTP/1.1'' @ crlf @ ''Host: '' @ host @ crlf @ ''Connection: close'' @ crlf @
     ''User-Agent: fota_consumer/1.0'' @ crlf @ crlf"

definition sendHttpGet :: "env \<Rightarrow> int \<Rightarrow> string \<Rightarrow> string \<Rightarrow> bool os" where
  "sendHttpGet env fd host path = send_loop env fd (http_request host path)"

text \<open>\<^verbatim>\<open>string_view::find\<close>: the first place of a text.\<close>

fun find_sub :: "string \<Rightarrow> string \<Rightarrow> nat option" where
  "find_sub t [] = (if t = [] then Some 0 else None)"
| "find_sub t (c # s) = (if prefix t (c # s) then Some 0 else map_option Suc (find_sub t s))"

text \<open>An exception of \<^verbatim>\<open>std::stoi\<close> or \<^verbatim>\<open>std::stoull\<close>, no complete header yet, or where the body
  begins, the announced length (0 without one) and the status.\<close>

datatype http_header = HeaderThrows | HeaderPartial | Header nat nat int

definition content_length :: "string \<Rightarrow> nat \<Rightarrow> nat option" where
  "content_length s hdrEnd =
     (case find_sub ''Content-Length:'' s of
        None \<Rightarrow> Some 0
      | Some i \<Rightarrow>
          if i < hdrEnd then
            let v = dropWhile (\<lambda>c. c = CHR '' '' \<or> c = CHR 0x09) (drop (i + 15) s)
            in if v = [] then Some 0
               else (case stoul 64 (take 20 v) 10 of Inl e \<Rightarrow> None | Inr n \<Rightarrow> Some n)
          else Some 0)"

definition parseHttpHeader :: "string \<Rightarrow> http_header" where
  "parseHttpHeader s =
     (case find_sub crlf s of
        None \<Rightarrow> HeaderPartial
      | Some eol \<Rightarrow>
          let line = take eol s
          in (case find_sub '' '' line of
                None \<Rightarrow> HeaderPartial
              | Some sp \<Rightarrow>
                  (case stoi (take 3 (drop (sp + 1) line)) of
                     None \<Rightarrow> HeaderThrows
                   | Some status \<Rightarrow>
                       (case find_sub (crlf @ crlf) s of
                          None \<Rightarrow> HeaderPartial
                        | Some hdrEnd \<Rightarrow>
                            (case content_length s hdrEnd of
                               None \<Rightarrow> HeaderThrows
                             | Some n \<Rightarrow> Header (hdrEnd + 4) n status)))))"

text \<open>The loop over the header, with at most \<open>n\<close> pieces: the connection is lost, the program is
  aborted by an exception, or the header is there with what was read.\<close>

datatype header_end = HeaderLost | HeaderAborts | HeaderRead string nat nat int

fun read_header :: "env \<Rightarrow> nat \<Rightarrow> int \<Rightarrow> string \<Rightarrow> header_end option os" where
  "read_header env 0 fd buf = return None"
| "read_header env (Suc n) fd buf = do {
     a \<leftarrow> perform env (Sock (SockRecv fd 4096));
     (if rc a \<le> 0 then return (Some HeaderLost)
      else let buf' = buf @ take (nat (rc a)) (content a)
           in (case parseHttpHeader buf' of
                 HeaderThrows \<Rightarrow> return (Some HeaderAborts)
               | HeaderPartial \<Rightarrow> read_header env n fd buf'
               | Header pos len status \<Rightarrow> return (Some (HeaderRead buf' pos len status)))) }"

subsection \<open>The download\<close>

text \<open>Writing all of a piece, in at most \<open>n\<close> calls; whether it succeeded.\<close>

fun write_all :: "env \<Rightarrow> nat \<Rightarrow> int \<Rightarrow> string \<Rightarrow> bool option os" where
  "write_all env 0 fd p = return (if p = [] then Some True else None)"
| "write_all env (Suc n) fd p =
     (if p = [] then return (Some True)
      else do {
        a \<leftarrow> perform env (App (WriteFd fd p));
        (if rc a < 0 then
           if err a = EINTR then write_all env n fd p else return (Some False)
         else write_all env n fd (drop (nat (rc a)) p)) })"

text \<open>What one notification adds to the number of disruptions.\<close>

definition disruption :: "ApiMsg option \<Rightarrow> nat" where
  "disruption r =
     (case r of
        None \<Rightarrow> 0
      | Some evt \<Rightarrow>
          if msg_type evt = MsgType_code PathEvent \<and>
             (msg_state evt = PathState_code PathDegraded \<or> msg_state evt = PathState_code PathDown)
          then 1 else 0)"

text \<open>One piece of the body from the socket into the file: its length, or None when the download ends
  there.\<close>

definition copy_piece :: "env \<Rightarrow> nat \<Rightarrow> int \<Rightarrow> int \<Rightarrow> nat option option os" where
  "copy_piece env k data out = do {
     a \<leftarrow> perform env (Sock (SockRecv data 131072));
     (if rc a \<le> 0 then return (Some None)
      else do {
        w \<leftarrow> write_all env k out (take (nat (rc a)) (content a));
        return (case w of
            None \<Rightarrow> None
          | Some ok_write \<Rightarrow>
              Some (if ok_write then Some (length (take (nat (rc a)) (content a))) else None)) }) }"

text \<open>The descriptors of one wait: whether the download is done, the bytes received so far, and the
  disruptions.\<close>

fun handle_ready ::
  "env \<Rightarrow> nat \<Rightarrow> int \<Rightarrow> int \<Rightarrow> int \<Rightarrow> int list \<Rightarrow> nat \<Rightarrow> nat \<Rightarrow> (bool \<times> nat \<times> nat) option os" where
  "handle_ready env k data ctl out [] rcvd drops = return (Some (False, rcvd, drops))"
| "handle_ready env k data ctl out (fd # fds) rcvd drops =
     (if fd = data then do {
        piece \<leftarrow> copy_piece env k data out;
        (case piece of
           None \<Rightarrow> return None
         | Some None \<Rightarrow> return (Some (True, rcvd, drops))
         | Some (Some m) \<Rightarrow> handle_ready env k data ctl out fds (rcvd + m) drops) }
      else if fd = ctl then do {
        r \<leftarrow> recvMsg env ctl;
        handle_ready env k data ctl out fds rcvd (drops + disruption r) }
      else handle_ready env k data ctl out fds rcvd drops)"

fun download_loop ::
  "env \<Rightarrow> nat \<Rightarrow> nat \<Rightarrow> int \<Rightarrow> int \<Rightarrow> int \<Rightarrow> int \<Rightarrow> nat \<Rightarrow> nat \<Rightarrow> nat \<Rightarrow> (nat \<times> nat) option os" where
  "download_loop env 0 k epfd data ctl out contentLength rcvd drops = return None"
| "download_loop env (Suc n) k epfd data ctl out contentLength rcvd drops =
     (if contentLength \<noteq> 0 \<and> contentLength \<le> rcvd then return (Some (rcvd, drops))
      else do {
        w \<leftarrow> perform env (Sock (EpollWait epfd));
        (if rc w = 0 then return (Some (rcvd, drops))
         else if rc w < 0 then
           if err w = EINTR then
             download_loop env n k epfd data ctl out contentLength rcvd drops
           else return (Some (rcvd, drops))
         else do {
           r \<leftarrow> handle_ready env k data ctl out (take (nat (rc w)) (map fst (ready w))) rcvd drops;
           (case r of
              None \<Rightarrow> return None
            | Some (finished, rcvd', drops') \<Rightarrow>
                if finished then return (Some (rcvd', drops'))
                else download_loop env n k epfd data ctl out contentLength rcvd' drops') }) })"

subsection \<open>The program\<close>

text \<open>\<^verbatim>\<open>sha256hex\<close>: the digest is the function \<open>sha\<close> of OpenSSL on what is read, in \<open>n\<close> pieces at most.\<close>

fun read_file :: "env \<Rightarrow> nat \<Rightarrow> int \<Rightarrow> string \<Rightarrow> string option os" where
  "read_file env 0 fd got = return None"
| "read_file env (Suc n) fd got = do {
     a \<leftarrow> perform env (App (ReadFd fd 65536));
     (if rc a \<le> 0 then return (Some got)
      else read_file env n fd (got @ take (nat (rc a)) (content a))) }"

definition sha256hex :: "env \<Rightarrow> (string \<Rightarrow> string) \<Rightarrow> nat \<Rightarrow> string \<Rightarrow> string option os" where
  "sha256hex env sha n path = do {
     o' \<leftarrow> perform env (App (OpenIn path));
     (if rc o' < 0 then return (Some [])
      else do {
        b \<leftarrow> read_file env n (rc o') [];
        _ \<leftarrow> perform env (Sock (CloseFd (rc o')));
        return (map_option sha b) }) }"

text \<open>How the program ends: with a status, or by an exception.\<close>

datatype fota_end = Exit nat | Aborted

text \<open>An exit after closing the descriptors, and the end of the registration.\<close>

definition leave :: "env \<Rightarrow> int list \<Rightarrow> ctl_conn \<Rightarrow> nat \<Rightarrow> fota_end option os" where
  "leave env fds ctl status = do {
     _ \<leftarrow> for_do (\<lambda>fd. do { _ \<leftarrow> perform env (Sock (CloseFd fd)); return () }) fds;
     _ \<leftarrow> unregisterFromDaemon env ctl;
     return (Some (Exit status)) }"

text \<open>After \<^verbatim>\<open>download_done\<close>; \<open>sha\<close> is None in a build without OpenSSL.\<close>

definition finish ::
  "env \<Rightarrow> (string \<Rightarrow> string) option \<Rightarrow> nat \<Rightarrow> ctl_conn \<Rightarrow> fota_args \<Rightarrow> nat \<Rightarrow> nat \<Rightarrow> fota_end option os" where
  "finish env sha k ctl args contentLength rcvd = do {
     actual \<leftarrow> (case sha of
         None \<Rightarrow> return (Some (fota_sha args))
       | Some digest \<Rightarrow>
           if fota_sha args = [] then return (Some []) else sha256hex env digest k (fota_out args));
     (case actual of
        None \<Rightarrow> return None
      | Some a \<Rightarrow>
          if a \<noteq> fota_sha args then leave env [] ctl 1
          else leave env [] ctl (if contentLength > 0 \<and> rcvd < contentLength then 1 else 0)) }"

definition download_body ::
  "env \<Rightarrow> (string \<Rightarrow> string) option \<Rightarrow> nat \<Rightarrow> nat \<Rightarrow> int \<Rightarrow> ctl_conn \<Rightarrow> fota_args \<Rightarrow> int \<Rightarrow> string \<Rightarrow> nat \<Rightarrow>
     fota_end option os" where
  "download_body env sha n k data ctl args out buffered contentLength = do {
     w \<leftarrow> write_all env k out buffered;
     (case w of
        None \<Rightarrow> return None
      | Some ok_write \<Rightarrow>
          if \<not> ok_write then leave env [data, out] ctl 1
          else do {
            ep \<leftarrow> perform env (Sock EpollCreate);
            _ \<leftarrow> perform env (Sock (EpollAdd (rc ep) data));
            _ \<leftarrow> (if fst ctl < 0 then return ()
                 else do { _ \<leftarrow> perform env (Sock (EpollAdd (rc ep) (fst ctl))); return () });
            r \<leftarrow> download_loop env n k (rc ep) data (fst ctl) out contentLength (length buffered) 0;
            (case r of
               None \<Rightarrow> return None
             | Some (rcvd, drops) \<Rightarrow> do {
                 _ \<leftarrow> for_do (\<lambda>fd. do { _ \<leftarrow> perform env (Sock (CloseFd fd)); return () })
                        [rc ep, data, out];
                 finish env sha k ctl args contentLength rcvd }) }) }"

definition download ::
  "env \<Rightarrow> (string \<Rightarrow> string) option \<Rightarrow> nat \<Rightarrow> nat \<Rightarrow> int \<Rightarrow> ctl_conn \<Rightarrow> fota_args \<Rightarrow> fota_end option os" where
  "download env sha n k data ctl args = do {
     gone \<leftarrow> sendHttpGet env data (fota_server args) (fota_path args);
     (if \<not> gone then leave env [data] ctl 1
      else do {
        h \<leftarrow> read_header env n data [];
        (case h of
           None \<Rightarrow> return None
         | Some HeaderLost \<Rightarrow> leave env [data] ctl 1
         | Some HeaderAborts \<Rightarrow> return (Some Aborted)
         | Some (HeaderRead buf pos contentLength status) \<Rightarrow>
             if status \<noteq> 200 then leave env [data] ctl 1
             else do {
               f \<leftarrow> perform env (App (OpenOut (fota_out args)));
               (if rc f < 0 then leave env [data] ctl 1
                else download_body env sha n k data ctl args (rc f) (drop pos buf) contentLength) }) }) }"

definition fota_consumer ::
  "env \<Rightarrow> (string \<Rightarrow> string) option \<Rightarrow> nat \<Rightarrow> nat \<Rightarrow> fota_args \<Rightarrow> fota_end option os" where
  "fota_consumer env sha n k args = do {
     ctl \<leftarrow> registerWithDaemon env (fota_socket args) (fota_class args);
     _ \<leftarrow> (if fst ctl < 0 then return ()
          else do {
            f \<leftarrow> perform env (Ctl (FcntlGetFl (fst ctl)));
            _ \<leftarrow> perform env (Ctl (FcntlSetFl (fst ctl) (or (rc f) 2048)));
            return () });
     data \<leftarrow> openMptcpSocket env (fota_server args) (fota_port args);
     (if data < 0 then leave env [] ctl 1 else download env sha n k data ctl args) }"

subsection \<open>Lemmas\<close>

lemma extends_registerWithDaemon [extends_rules]: "extends (registerWithDaemon env s c)"
  unfolding registerWithDaemon_def by (intro extends_rules)

lemma extends_unregisterFromDaemon [extends_rules]: "extends (unregisterFromDaemon env c)"
  unfolding unregisterFromDaemon_def by (intro extends_rules)

lemma extends_openMptcpSocket [extends_rules]: "extends (openMptcpSocket env s p)"
  unfolding openMptcpSocket_def by (intro extends_rules)

lemma extends_sendHttpGet [extends_rules]: "extends (sendHttpGet env fd s p)"
  unfolding sendHttpGet_def by (intro extends_rules)

lemma extends_http_header [extends_rules]:
  "extends p \<Longrightarrow> extends q \<Longrightarrow> (\<And>a b c. extends (f a b c)) \<Longrightarrow>
     extends (case x of HeaderThrows \<Rightarrow> p | HeaderPartial \<Rightarrow> q | Header a b c \<Rightarrow> f a b c)"
  by (cases x) simp_all

lemma extends_header_end [extends_rules]:
  "extends p \<Longrightarrow> extends q \<Longrightarrow> (\<And>a b c d. extends (f a b c d)) \<Longrightarrow>
     extends (case x of HeaderLost \<Rightarrow> p | HeaderAborts \<Rightarrow> q | HeaderRead a b c d \<Rightarrow> f a b c d)"
  by (cases x) simp_all

lemma extends_read_header [extends_rules]: "extends (read_header env n fd buf)"
  by (induction n arbitrary: buf) (auto simp: Let_def intro!: extends_rules)

lemma extends_write_all [extends_rules]: "extends (write_all env n fd p)"
  by (induction n arbitrary: p) (auto intro!: extends_rules)

lemma extends_copy_piece [extends_rules]: "extends (copy_piece env k data out)"
  unfolding copy_piece_def by (intro extends_rules)

lemma extends_handle_ready [extends_rules]: "extends (handle_ready env k data ctl out fds r d)"
  by (induction fds arbitrary: r d) (auto intro!: extends_rules)

lemma extends_download_loop [extends_rules]: "extends (download_loop env n k ep data ctl out cl r d)"
  by (induction n arbitrary: r d) (auto intro!: extends_rules)

lemma extends_read_file [extends_rules]: "extends (read_file env n fd got)"
  by (induction n arbitrary: got) (auto intro!: extends_rules)

lemma extends_sha256hex [extends_rules]: "extends (sha256hex env sha n path)"
  unfolding sha256hex_def by (intro extends_rules)

lemma extends_leave [extends_rules]: "extends (leave env fds ctl st)"
  unfolding leave_def by (intro extends_rules)

lemma extends_finish [extends_rules]: "extends (finish env sha k ctl args cl r)"
  unfolding finish_def by (intro extends_rules)

lemma extends_download_body [extends_rules]: "extends (download_body env sha n k data ctl args out b cl)"
  unfolding download_body_def by (intro extends_rules)

subsection \<open>What is written\<close>

text \<open>The bytes that a descriptor delivered, and those that a file took; a \<^verbatim>\<open>write\<close> takes no more than
  it is given.\<close>

fun delivered :: "int \<Rightarrow> call \<times> answer \<Rightarrow> string" where
  "delivered fd (Sock (SockRecv f k), a) = (if f = fd then take (nat (rc a)) (content a) else [])"
| "delivered fd _ = []"

fun taken :: "int \<Rightarrow> call \<times> answer \<Rightarrow> string" where
  "taken fd (App (WriteFd f p), a) = (if f = fd then take (nat (rc a)) p else [])"
| "taken fd _ = []"

definition data_of :: "env \<Rightarrow> int \<Rightarrow> call list \<Rightarrow> call list \<Rightarrow> string" where
  "data_of env fd h cs = concat (map (delivered fd) (exchanges env h cs))"

definition file_of :: "env \<Rightarrow> int \<Rightarrow> call list \<Rightarrow> call list \<Rightarrow> string" where
  "file_of env fd h cs = concat (map (taken fd) (exchanges env h cs))"

lemma data_of_simps [simp]:
  "data_of env fd h [] = []"
  "data_of env fd h (c # cs) = delivered fd (c, env h c) @ data_of env fd (h @ [c]) cs"
  "data_of env fd h (cs @ ds) = data_of env fd h cs @ data_of env fd (h @ cs) ds"
  by (simp_all add: data_of_def exchanges_append)

lemma file_of_simps [simp]:
  "file_of env fd h [] = []"
  "file_of env fd h (c # cs) = taken fd (c, env h c) @ file_of env fd (h @ [c]) cs"
  "file_of env fd h (cs @ ds) = file_of env fd h cs @ file_of env fd (h @ cs) ds"
  by (simp_all add: file_of_def exchanges_append)

definition write_contract :: "env \<Rightarrow> bool" where
  "write_contract env \<longleftrightarrow> (\<forall>h fd p. rc (env h (App (WriteFd fd p))) \<le> int (length p))"

text \<open>Calls that neither read the data nor write the file.\<close>

fun byte_step :: "int \<Rightarrow> int \<Rightarrow> call \<Rightarrow> nat \<Rightarrow> nat" where
  "byte_step data out (Sock (SockRecv f k)) n = (if f = data then Suc n else n)"
| "byte_step data out (App (WriteFd f p)) n = (if f = out then Suc n else n)"
| "byte_step data out _ n = n"

lemma fold_byte_step_mono: "n \<le> fold (byte_step data out) cs n"
proof (induction cs arbitrary: n)
  case (Cons c cs)
  have "n \<le> byte_step data out c n"
    by (cases "(data, out, c, n)" rule: byte_step.cases) simp_all
  also have "\<dots> \<le> fold (byte_step data out) (c # cs) n" using Cons by simp
  finally show ?case .
qed simp

lemma no_bytes: "fold (byte_step data out) cs 0 = 0 \<Longrightarrow> data_of env data h cs = [] \<and> file_of env out h cs = []"
proof (induction cs arbitrary: h)
  case (Cons c cs)
  have "byte_step data out c 0 = 0"
    using Cons.prems fold_byte_step_mono[of "byte_step data out c 0" data out cs] by simp
  moreover from this have "delivered data (c, env h c) = [] \<and> taken out (c, env h c) = []"
    by (cases "(data, out, c, 0 :: nat)" rule: byte_step.cases) (auto split: if_splits)
  ultimately show ?case using Cons by simp
qed simp

lemma silent_bytes:
  "silent (byte_step data out) p \<Longrightarrow> data_of env data h (calls p h) = [] \<and> file_of env out h (calls p h) = []"
  using silentD(2)[of "byte_step data out" p h 0] by (rule no_bytes)

lemma silent_send_bytes [silent_rules]: "silent (byte_step data out) (send_loop env fd p)"
proof (induction env fd p rule: send_loop.induct)
  case (1 env fd p)
  then show ?case
    by (subst send_loop.simps) (auto intro!: silent_return silent_bind silent_perform)
qed

lemma silent_recv_bytes [silent_rules]:
  assumes "fd \<noteq> data"
  shows "silent (byte_step data out) (recvMsg env fd)"
proof -
  have "silent (byte_step data out) (recv_loop env fd rem got)" for rem got
    using assms
  proof (induction env fd rem got rule: recv_loop.induct)
    case (1 env fd rem got)
    then show ?case
      by (subst recv_loop.simps)
        (auto simp: Let_def intro!: silent_return silent_bind silent_perform)
  qed
  then show ?thesis unfolding recvMsg_def by (intro silent_rules)
qed

lemma recv_other_bytes:
  "fd \<noteq> data \<Longrightarrow> data_of env data h (calls (recvMsg env fd) h) = [] \<and>
     file_of env out h (calls (recvMsg env fd) h) = []"
  by (rule silent_bytes) (rule silent_recv_bytes)

lemma silent_leave [silent_rules]: "silent (byte_step data out) (leave env fds ctl st)"
  unfolding leave_def unregisterFromDaemon_def trySendMsg_def by (intro silent_rules) simp_all

lemma silent_read_file [silent_rules]: "silent (byte_step data out) (read_file env n fd got)"
  by (induction n arbitrary: got) (auto intro!: silent_rules)

lemma silent_finish [silent_rules]: "silent (byte_step data out) (finish env sha k ctl args cl r)"
  unfolding finish_def sha256hex_def by (intro silent_rules) simp_all

text \<open>A piece is written as far as the calls succeed, all of it at success.\<close>

lemma write_all_bytes:
  assumes "write_contract env"
  shows "prefix (file_of env fd h (calls (write_all env n fd p) h)) p \<and>
    (outcome (write_all env n fd p) h = Some True \<longrightarrow> file_of env fd h (calls (write_all env n fd p) h) = p) \<and>
    data_of env data h (calls (write_all env n fd p) h) = []"
proof (induction n arbitrary: h p)
  case (Suc n)
  let ?a = "env h (App (WriteFd fd p))" and ?h = "h @ [App (WriteFd fd p)]"
  let ?q = "drop (nat (rc ?a)) p"
  consider "p = []" | "p \<noteq> []" "rc ?a < 0" | "p \<noteq> []" "rc ?a \<ge> 0" by fastforce
  then show ?case
  proof cases
    case 1
    then show ?thesis by simp
  next
    case 2
    then show ?thesis using Suc[of ?h p] by (simp add: run_simps extends_rules)
  next
    case 3
    let ?w = "file_of env fd ?h (calls (write_all env n fd ?q) ?h)"
    have "prefix (take (nat (rc ?a)) p @ ?w) (take (nat (rc ?a)) p @ ?q)"
      using Suc[of ?h ?q] by (simp only: same_prefix_prefix)
    moreover have "outcome (write_all env n fd ?q) ?h = Some True \<Longrightarrow> take (nat (rc ?a)) p @ ?w = p"
      using Suc[of ?h ?q] by simp
    ultimately show ?thesis
      using 3 Suc[of ?h ?q] by (simp add: run_simps extends_rules)
  qed
qed simp

lemma copy_piece_bytes:
  assumes "write_contract env" and "outcome (copy_piece env k data out) h = Some x"
  shows "prefix (file_of env out h (calls (copy_piece env k data out) h))
      (data_of env data h (calls (copy_piece env k data out) h))"
    and "x = Some m \<Longrightarrow> file_of env out h (calls (copy_piece env k data out) h) =
        data_of env data h (calls (copy_piece env k data out) h) \<and>
      m = length (data_of env data h (calls (copy_piece env k data out) h))"
proof -
  let ?a = "env h (Sock (SockRecv data 131072))" and ?h = "h @ [Sock (SockRecv data 131072)]"
  note w = write_all_bytes[OF assms(1), where fd = out and n = k and p = "take (nat (rc ?a)) (content ?a)"
      and h = ?h and data = data]
  show "prefix (file_of env out h (calls (copy_piece env k data out) h))
      (data_of env data h (calls (copy_piece env k data out) h))"
    using w by (simp add: copy_piece_def run_simps extends_rules)
  show "x = Some m \<Longrightarrow> file_of env out h (calls (copy_piece env k data out) h) =
        data_of env data h (calls (copy_piece env k data out) h) \<and>
      m = length (data_of env data h (calls (copy_piece env k data out) h))"
    using w assms(2)
    by (auto simp: copy_piece_def run_simps extends_rules split: if_splits option.splits)
qed

text \<open>What one wait adds to the file, the counter and the bytes read; and the whole loop.\<close>

definition copied :: "string \<Rightarrow> string \<Rightarrow> nat \<Rightarrow> nat \<Rightarrow> bool" where
  "copied file_bytes data_bytes r r' \<longleftrightarrow>
     prefix file_bytes data_bytes \<and> r' \<le> r + length file_bytes"

lemma copied_append: "copied xs ys (r + length p) r' \<Longrightarrow> copied (p @ xs) (p @ ys) r r'"
  by (simp add: copied_def)

lemma handle_ready_bytes:
  assumes "write_contract env" and "ctl \<noteq> data"
    and "outcome (handle_ready env k data ctl out fds r d) h = Some (fin, r', d')"
  shows "copied (file_of env out h (calls (handle_ready env k data ctl out fds r d) h))
      (data_of env data h (calls (handle_ready env k data ctl out fds r d) h)) r r'"
    and "\<not> fin \<Longrightarrow> file_of env out h (calls (handle_ready env k data ctl out fds r d) h) =
      data_of env data h (calls (handle_ready env k data ctl out fds r d) h) \<and>
      r' = r + length (data_of env data h (calls (handle_ready env k data ctl out fds r d) h))"
proof -
  have "copied (file_of env out h (calls (handle_ready env k data ctl out fds r d) h))
      (data_of env data h (calls (handle_ready env k data ctl out fds r d) h)) r r' \<and>
    (\<not> fin \<longrightarrow> file_of env out h (calls (handle_ready env k data ctl out fds r d) h) =
      data_of env data h (calls (handle_ready env k data ctl out fds r d) h) \<and>
      r' = r + length (data_of env data h (calls (handle_ready env k data ctl out fds r d) h)))"
    using assms(3)
  proof (induction fds arbitrary: r d h)
    case Nil
    then show ?case by (simp add: copied_def)
  next
    case (Cons fd fds)
    consider (read) "fd = data" | (note_in) "fd = ctl" "fd \<noteq> data" | (skip) "fd \<noteq> ctl" "fd \<noteq> data"
      by blast
    then show ?case
    proof cases
      case read
      let ?piece = "copy_piece env k data out"
      obtain x where x: "outcome ?piece h = Some x"
        using Cons.prems read by (auto simp: run_simps extends_rules split: option.splits)
      note bytes = copy_piece_bytes[OF assms(1) x]
      show ?thesis
      proof (cases x)
        case None
        then show ?thesis
          using Cons.prems read x bytes(1) by (simp add: run_simps extends_rules copied_def)
      next
        case (Some m)
        then have "outcome (handle_ready env k data ctl out fds (r + m) d) (h @ calls ?piece h) =
            Some (fin, r', d')"
          using Cons.prems read x by (simp add: run_simps extends_rules)
        from Cons.IH[OF this] show ?thesis
          using bytes(2)[OF Some] read x Some copied_append[of _ _ r "data_of env data h (calls ?piece h)" r']
          by (simp add: run_simps extends_rules)
      qed
    next
      case note_in
      then show ?thesis
        using Cons.prems assms(2) recv_other_bytes[OF assms(2), of env h out]
          Cons.IH[of r "d + disruption (outcome (recvMsg env ctl) h)" "h @ calls (recvMsg env ctl) h"]
        by (simp add: run_simps extends_rules)
    next
      case skip
      then show ?thesis using Cons by simp
    qed
  qed
  then show "copied (file_of env out h (calls (handle_ready env k data ctl out fds r d) h))
      (data_of env data h (calls (handle_ready env k data ctl out fds r d) h)) r r'"
    and "\<not> fin \<Longrightarrow> file_of env out h (calls (handle_ready env k data ctl out fds r d) h) =
      data_of env data h (calls (handle_ready env k data ctl out fds r d) h) \<and>
      r' = r + length (data_of env data h (calls (handle_ready env k data ctl out fds r d) h))"
    by blast+
qed

lemma download_loop_bytes:
  assumes "write_contract env" and "ctl \<noteq> data"
    and "outcome (download_loop env n k ep data ctl out cl r d) h = Some (r', d')"
  shows "copied (file_of env out h (calls (download_loop env n k ep data ctl out cl r d) h))
    (data_of env data h (calls (download_loop env n k ep data ctl out cl r d) h)) r r'"
  using assms(3)
proof (induction n arbitrary: r d h)
  case (Suc n)
  let ?w = "env h (Sock (EpollWait ep))" and ?h = "h @ [Sock (EpollWait ep)]"
  let ?fds = "take (nat (rc ?w)) (map fst (ready ?w))"
  let ?round = "handle_ready env k data ctl out ?fds r d"
  show ?case
  proof (cases "(cl \<noteq> 0 \<and> cl \<le> r) \<or> rc ?w = 0 \<or> rc ?w < 0")
    case True
    then show ?thesis
      using Suc.prems Suc.IH[of r d ?h]
      by (auto simp: run_simps extends_rules copied_def split: if_splits)
  next
    case False
    then obtain fin r1 d1 where round: "outcome ?round ?h = Some (fin, r1, d1)"
      using Suc.prems by (auto simp: run_simps extends_rules split: option.splits)
    note bytes = handle_ready_bytes[OF assms(1,2) round]
    show ?thesis
    proof (cases fin)
      case True
      then show ?thesis using False Suc.prems round bytes(1) by (auto simp: run_simps extends_rules)
    next
      case goes_on: False
      then have "outcome (download_loop env n k ep data ctl out cl r1 d1) (?h @ calls ?round ?h) = Some (r', d')"
        using False Suc.prems round by (auto simp: run_simps extends_rules)
      from Suc.IH[OF this] show ?thesis
        using False round goes_on bytes(2)[OF goes_on] copied_append[of _ _ r _ r']
        by (auto simp: run_simps extends_rules)
    qed
  qed
qed simp

lemma read_header_bytes:
  "outcome (read_header env n fd buf) h = Some (HeaderRead buf' pos cl st) \<Longrightarrow>
     buf' = buf @ data_of env fd h (calls (read_header env n fd buf) h) \<and>
     parseHttpHeader buf' = Header pos cl st \<and>
     file_of env out h (calls (read_header env n fd buf) h) = []"
proof (induction n arbitrary: buf h)
  case (Suc n)
  let ?a = "env h (Sock (SockRecv fd 4096))" and ?h = "h @ [Sock (SockRecv fd 4096)]"
  let ?buf = "buf @ take (nat (rc ?a)) (content ?a)"
  have pos: "\<not> rc ?a \<le> 0" using Suc.prems by (auto simp: run_simps extends_rules Let_def)
  show ?case
  proof (cases "parseHttpHeader ?buf")
    case HeaderPartial
    then show ?thesis
      using Suc.prems Suc.IH[of ?buf ?h] pos
      by (auto simp: run_simps extends_rules Let_def)
  qed (use Suc.prems pos in \<open>simp_all add: run_simps extends_rules Let_def\<close>)
qed simp

lemma finish_status:
  "outcome (finish env sha k ctl args cl r) h = Some (Exit 0) \<Longrightarrow> cl = 0 \<or> cl \<le> r"
  by (auto simp: finish_def leave_def run_simps extends_rules split: option.splits if_splits)

lemma download_body_bytes:
  assumes "write_contract env" and "fst ctl \<noteq> data"
    and "outcome (download_body env sha n k data ctl args out b cl) h = Some (Exit 0)"
  shows "prefix (file_of env out h (calls (download_body env sha n k data ctl args out b cl) h))
      (b @ data_of env data h (calls (download_body env sha n k data ctl args out b cl) h)) \<and>
    cl \<le> length (file_of env out h (calls (download_body env sha n k data ctl args out b cl) h))"
proof -
  let ?w = "write_all env k out b" and ?h1 = "h @ calls (write_all env k out b) h"
  let ?ep = "rc (env ?h1 (Sock EpollCreate))"
  let ?h2 = "?h1 @ [Sock EpollCreate, Sock (EpollAdd ?ep data)] @
    (if fst ctl < 0 then [] else [Sock (EpollAdd ?ep (fst ctl))])"
  let ?loop = "download_loop env n k ?ep data (fst ctl) out cl (length b) 0"
  have written: "outcome ?w h = Some True"
    using assms(3) by (auto simp: download_body_def leave_def run_simps extends_rules
        split: option.splits if_splits)
  obtain r d where loop: "outcome ?loop ?h2 = Some (r, d)"
    using assms(3) written
    by (auto simp: download_body_def run_simps extends_rules split: option.splits if_splits)
  have w: "file_of env out h (calls ?w h) = b" "data_of env data h (calls ?w h) = []"
    using write_all_bytes[OF assms(1), of out h k b data] written by simp_all
  have "copied (file_of env out ?h2 (calls ?loop ?h2)) (data_of env data ?h2 (calls ?loop ?h2)) (length b) r"
    using assms(1,2) loop by (rule download_loop_bytes)
  moreover have "cl = 0 \<or> cl \<le> r"
    using assms(3) written loop finish_status
    by (auto simp: download_body_def run_simps extends_rules split: if_splits)
  moreover have "file_of env out h (calls (download_body env sha n k data ctl args out b cl) h) =
      b @ file_of env out ?h2 (calls ?loop ?h2)"
    and "data_of env data h (calls (download_body env sha n k data ctl args out b cl) h) =
      data_of env data ?h2 (calls ?loop ?h2)"
    using written loop w silent_bytes[OF silent_finish]
    by (cases "fst ctl < 0"; simp add: download_body_def run_simps extends_rules)+
  ultimately show ?thesis by (auto simp: copied_def)
qed

text \<open>The descriptor that opening a file gave, and that nothing else is written to.\<close>

definition opened_file :: "env \<Rightarrow> call list \<Rightarrow> call list \<Rightarrow> string \<Rightarrow> int \<Rightarrow> bool" where
  "opened_file env h cs path fd \<longleftrightarrow>
     (\<exists>pre post. cs = pre @ App (OpenOut path) # post \<and>
        rc (env (h @ pre) (App (OpenOut path))) = fd \<and> fd \<ge> 0)"

fun only_to :: "int \<Rightarrow> call \<Rightarrow> bool \<Rightarrow> bool" where
  "only_to out (App (WriteFd fd p)) b \<longleftrightarrow> b \<and> fd = out"
| "only_to out _ b \<longleftrightarrow> b"

definition writes_only :: "int \<Rightarrow> call list \<Rightarrow> bool" where
  "writes_only out cs \<longleftrightarrow> (\<forall>fd p. App (WriteFd fd p) \<in> set cs \<longrightarrow> fd = out)"

lemma fold_only_to: "fold (only_to out) cs b \<longleftrightarrow> b \<and> writes_only out cs"
proof (induction cs arbitrary: b)
  case (Cons c cs)
  then show ?case
    by (cases "(out, c, b)" rule: only_to.cases) (auto simp: writes_only_def)
qed (simp add: writes_only_def)

lemma writes_only_simps [simp]:
  "writes_only out (cs @ ds) \<longleftrightarrow> writes_only out cs \<and> writes_only out ds"
  "writes_only out (App (OpenOut path) # cs) \<longleftrightarrow> writes_only out cs"
  by (auto simp: writes_only_def)

lemma silent_only_to: "silent (only_to out) p \<Longrightarrow> writes_only out (calls p h)"
  using silentD(2)[of "only_to out" p h True] by (simp add: fold_only_to)

lemma silent_send_only [silent_rules]: "silent (only_to out) (send_loop env fd p)"
proof (induction env fd p rule: send_loop.induct)
  case (1 env fd p)
  then show ?case
    by (subst send_loop.simps) (auto intro!: silent_return silent_bind silent_perform)
qed

lemma silent_recv_only [silent_rules]: "silent (only_to out) (recvMsg env fd)"
proof -
  have "silent (only_to out) (recv_loop env fd rem got)" for rem got
  proof (induction env fd rem got rule: recv_loop.induct)
    case (1 env fd rem got)
    then show ?case
      by (subst recv_loop.simps)
        (auto simp: Let_def intro!: silent_return silent_bind silent_perform)
  qed
  then show ?thesis unfolding recvMsg_def by (intro silent_rules)
qed

lemma silent_leave_only [silent_rules]: "silent (only_to out) (leave env fds ctl st)"
  unfolding leave_def unregisterFromDaemon_def trySendMsg_def by (intro silent_rules) simp_all

lemma silent_read_file_only [silent_rules]: "silent (only_to out) (read_file env n fd got)"
  by (induction n arbitrary: got) (auto intro!: silent_rules)

lemma silent_finish_only [silent_rules]: "silent (only_to out) (finish env sha k ctl args cl r)"
  unfolding finish_def sha256hex_def by (intro silent_rules) simp_all

lemma silent_read_header_only [silent_rules]: "silent (only_to out) (read_header env n fd buf)"
  by (induction n arbitrary: buf)
    (auto simp: Let_def intro!: silent_rules split: http_header.split)

lemma silent_write_all_only [silent_rules]: "silent (only_to out) (write_all env n out p)"
  by (induction n arbitrary: p) (auto intro!: silent_rules)

lemma silent_handle_ready_only [silent_rules]:
  "silent (only_to out) (handle_ready env k data ctl out fds r d)"
  by (induction fds arbitrary: r d) (auto simp: copy_piece_def intro!: silent_rules)

lemma silent_download_loop_only [silent_rules]:
  "silent (only_to out) (download_loop env n k ep data ctl out cl r d)"
  by (induction n arbitrary: r d) (auto intro!: silent_rules split: prod.split)

lemma silent_download_body_only [silent_rules]:
  "silent (only_to out) (download_body env sha n k data ctl args out b cl)"
  unfolding download_body_def by (intro silent_rules) (auto intro!: silent_rules split: prod.split)

subsection \<open>Properties\<close>

text \<open>C28: when the program calls a download a success, the file that it opened for it holds a first
  part of the body, in its order, and nothing was written to any other descriptor. Of an answer
  that announced its length it holds at least so many bytes, in whatever pieces the kernel delivers
  and takes them and whatever notifications come in between; without an announced length the
  part may be any, and the lemma \<open>unknown_length_hides_failure\<close> shows an empty one. The kernel takes
  at most the bytes it is given, and the control connection is not the one of the download.\<close>

theorem download_writes_body:
  assumes "write_contract env" and "fst ctl \<noteq> data"
    and "outcome (download env sha n k data ctl args) h = Some (Exit 0)"
  shows "\<exists>header body pos len out.
    opened_file env h (calls (download env sha n k data ctl args) h) (fota_out args) out \<and>
    writes_only out (calls (download env sha n k data ctl args) h) \<and>
    data_of env data h (calls (download env sha n k data ctl args) h) = header @ body \<and>
    parseHttpHeader header = Header pos len 200 \<and>
    prefix (file_of env out h (calls (download env sha n k data ctl args) h)) (drop pos header @ body) \<and>
    len \<le> length (file_of env out h (calls (download env sha n k data ctl args) h))"
proof -
  let ?get = "sendHttpGet env data (fota_server args) (fota_path args)"
  let ?h1 = "h @ calls ?get h"
  let ?read = "read_header env n data []"
  let ?h2 = "?h1 @ calls ?read ?h1"
  let ?open = "App (OpenOut (fota_out args))"
  let ?out = "rc (env ?h2 ?open)" and ?h3 = "?h2 @ [?open]"
  have gone: "outcome ?get h"
    using assms(3) by (auto simp: download_def leave_def run_simps extends_rules split: if_splits)
  obtain header pos len status where read: "outcome ?read ?h1 = Some (HeaderRead header pos len status)"
    using assms(3) gone
    by (auto simp: download_def leave_def run_simps extends_rules split: option.splits header_end.splits)
  let ?body = "download_body env sha n k data ctl args ?out (drop pos header) len"
  have ok: "status = 200" "?out \<ge> 0" and body: "outcome ?body ?h3 = Some (Exit 0)"
    using assms(3) gone read
    by (auto simp: download_def leave_def run_simps extends_rules split: if_splits)
  have run: "calls (download env sha n k data ctl args) h =
      (calls ?get h @ calls ?read ?h1) @ ?open # calls ?body ?h3"
    using gone read ok by (simp add: download_def run_simps extends_rules)
  then have opened: "opened_file env h (calls (download env sha n k data ctl args) h) (fota_out args) ?out"
    using ok(2) unfolding opened_file_def by (metis append_assoc)
  have "silent (only_to ?out) ?get"
    unfolding sendHttpGet_def by (intro silent_rules)
  then have only: "writes_only ?out (calls (download env sha n k data ctl args) h)"
    unfolding run
    by (simp add: silent_only_to silent_read_header_only silent_download_body_only)
  have "silent (byte_step data ?out) ?get"
    unfolding sendHttpGet_def by (intro silent_rules)
  from silent_bytes[OF this] have sent: "data_of env data h (calls ?get h) = []"
    "file_of env ?out h (calls ?get h) = []" by simp_all
  note header = read_header_bytes[OF read, of ?out]
  have "data_of env data h (calls (download env sha n k data ctl args) h) =
      header @ data_of env data ?h3 (calls ?body ?h3)"
    and "file_of env ?out h (calls (download env sha n k data ctl args) h) =
      file_of env ?out ?h3 (calls ?body ?h3)"
    using sent header by (simp_all add: run)
  moreover note download_body_bytes[OF assms(1,2) body]
  ultimately show ?thesis
    using header ok(1) opened only by metis
qed

text \<open>A server that sends its header with the first bytes of the body, or the body in a piece of its
  own; the file takes everything, or nothing.\<close>

definition web_server :: "string \<Rightarrow> string \<Rightarrow> bool \<Rightarrow> env" where
  "web_server first next_piece writes h c =
     (case c of
        Sock (SockSend fd p) \<Rightarrow> reply (int (length p)) EAGAIN
      | Sock (SockRecv fd k) \<Rightarrow>
          let bytes = (if k = 4096 then first else next_piece)
          in (reply (int (length bytes)) EAGAIN)\<lparr>content := bytes\<rparr>
      | Sock (EpollWait ep) \<Rightarrow> (reply 1 EAGAIN)\<lparr>ready := [(7, [EPOLLIN])]\<rparr>
      | App (WriteFd fd p) \<Rightarrow> reply (if writes then int (length p) else - 1) (EOTHER 28)
      | _ \<Rightarrow> reply 3 EAGAIN)"

lemma web_server_contract: "write_contract (web_server a b w)"
  by (simp add: write_contract_def web_server_def)

lemma web_server_request: "outcome (sendHttpGet (web_server a b w) 7 host path) h"
  "calls (sendHttpGet (web_server a b w) 7 host path) h = [Sock (SockSend 7 (http_request host path))]"
  by (simp_all add: sendHttpGet_def send_loop_once web_server_def http_request_def)

definition sized_answer :: string where
  "sized_answer = ''HTTP/1.1 200 OK'' @ crlf @ ''Content-Length: 2'' @ crlf @ crlf @ ''hi''"

definition unsized_answer :: string where
  "unsized_answer = ''HTTP/1.1 200 OK'' @ crlf @ crlf"

lemma answers_found:
  "find_sub crlf sized_answer = Some 15" "find_sub (crlf @ crlf) sized_answer = Some 34"
  "find_sub ''Content-Length:'' sized_answer = Some 17"
  "find_sub '' '' (take 15 sized_answer) = Some 8" "take 3 (drop 9 (take 15 sized_answer)) = ''200''"
  "take 20 (dropWhile (\<lambda>c. c = CHR '' '' \<or> c = CHR 0x09) (drop 32 sized_answer)) = ''2'' @ crlf @ crlf @ ''hi''"
  "find_sub crlf unsized_answer = Some 15" "find_sub (crlf @ crlf) unsized_answer = Some 15"
  "find_sub ''Content-Length:'' unsized_answer = None"
  "find_sub '' '' (take 15 unsized_answer) = Some 8" "take 3 (drop 9 (take 15 unsized_answer)) = ''200''"
  by code_simp+

lemma answers_numbers: "stoi ''200'' = Some 200" "stoul 64 (''2'' @ crlf @ crlf @ ''hi'') 10 = Inr 2"
  by (simp_all add: stoi_def stoul_def sign_split_def base_split_def is_digit_def digit_val_def
      is_space_def crlf_def Let_def)

lemma answers_parsed:
  "parseHttpHeader sized_answer = Header 38 2 200" "drop 38 sized_answer = ''hi''" "sized_answer \<noteq> []"
  "parseHttpHeader unsized_answer = Header 19 0 200" "drop 19 unsized_answer = []" "unsized_answer \<noteq> []"
proof -
  have "dropWhile (\<lambda>c. c = CHR '' '' \<or> c = CHR 0x09) (drop 32 sized_answer) \<noteq> []"
    by code_simp
  then show "parseHttpHeader sized_answer = Header 38 2 200"
    using answers_found(1-6) answers_numbers
    by (simp add: parseHttpHeader_def content_length_def Let_def)
  show "parseHttpHeader unsized_answer = Header 19 0 200"
    using answers_found(7-11) answers_numbers(1)
    by (simp add: parseHttpHeader_def content_length_def Let_def)
  show "drop 38 sized_answer = ''hi''" "sized_answer \<noteq> []" "drop 19 unsized_answer = []" "unsized_answer \<noteq> []"
    by code_simp+
qed

lemma web_server_header:
  assumes "parseHttpHeader first = Header pos len st" and "first \<noteq> []"
  shows "outcome (read_header (web_server first b w) (Suc n) 7 []) h = Some (HeaderRead first pos len st)"
    and "calls (read_header (web_server first b w) (Suc n) 7 []) h = [Sock (SockRecv 7 4096)]"
  using assms by (simp_all add: run_simps extends_rules Let_def web_server_def)

text \<open>The call, with one round for each loop and no connection to the daemon.\<close>

abbreviation fetch :: "env \<Rightarrow> fota_end option os" where
  "fetch env \<equiv> download env None (Suc 0) (Suc 0) 7 (- 1, 0) default_fota_args"

lemma fetch_run:
  assumes "env = web_server first b w" and "parseHttpHeader first = Header pos len 200" and "first \<noteq> []"
  shows "\<exists>h'. outcome (fetch env) [] =
      outcome (download_body env None (Suc 0) (Suc 0) 7 (- 1, 0) default_fota_args 3 (drop pos first) len) h' \<and>
    file_of env 3 [] (calls (fetch env) []) =
      file_of env 3 h' (calls (download_body env None (Suc 0) (Suc 0) 7 (- 1, 0) default_fota_args 3 (drop pos first) len) h')"
proof -
  have "rc (env h (App (OpenOut p))) = 3" for h p
    by (simp add: assms(1) web_server_def)
  then show ?thesis
    using web_server_header[OF assms(2,3)] web_server_request
    by (simp add: download_def run_simps extends_rules assms(1) del: read_header.simps) blast
qed

theorem download_writes_body_witness:
  "\<exists>header body pos len out.
     opened_file (web_server sized_answer [] True) [] (calls (fetch (web_server sized_answer [] True)) [])
       (fota_out default_fota_args) out \<and>
     data_of (web_server sized_answer [] True) 7 [] (calls (fetch (web_server sized_answer [] True)) []) = header @ body \<and>
     parseHttpHeader header = Header pos len 200 \<and>
     prefix (file_of (web_server sized_answer [] True) out [] (calls (fetch (web_server sized_answer [] True)) []))
       (drop pos header @ body) \<and>
     len \<le> length (file_of (web_server sized_answer [] True) out [] (calls (fetch (web_server sized_answer [] True)) []))"
proof -
  let ?env = "web_server sized_answer [] True"
  have "outcome (download_body ?env None (Suc 0) (Suc 0) 7 (- 1, 0) default_fota_args 3 ''hi'' 2) h =
      Some (Exit 0)" for h
    by (simp add: download_body_def finish_def leave_def unregisterFromDaemon_def run_simps extends_rules)
      (simp add: web_server_def)
  then have "outcome (fetch ?env) [] = Some (Exit 0)"
    using fetch_run[OF refl answers_parsed(1,3), of "[]" True] answers_parsed(2) by auto
  from download_writes_body[OF web_server_contract _ this] show ?thesis by simp blast
qed

text \<open>Without an announced length a failed write is no failure: the program ends with success and has
  written nothing of what it read.\<close>

lemma unknown_length_hides_failure:
  "outcome (fetch (web_server unsized_answer ''hi'' False)) [] = Some (Exit 0)"
  "file_of (web_server unsized_answer ''hi'' False) 3 []
     (calls (fetch (web_server unsized_answer ''hi'' False)) []) = []"
proof -
  let ?env = "web_server unsized_answer ''hi'' False"
  have piece: "outcome (copy_piece ?env (Suc 0) 7 3) h = Some None"
    "calls (copy_piece ?env (Suc 0) 7 3) h = [Sock (SockRecv 7 131072), App (WriteFd 3 ''hi'')]" for h
    by (simp_all add: copy_piece_def run_simps extends_rules) (simp_all add: web_server_def)
  have wait: "rc (?env h (Sock (EpollWait ep))) = 1" "ready (?env h (Sock (EpollWait ep))) = [(7, [EPOLLIN])]"
    "rc (?env h (App (WriteFd 3 ''hi''))) = - 1" for h ep
    by (simp_all add: web_server_def)
  have "outcome (download_body ?env None (Suc 0) (Suc 0) 7 (- 1, 0) default_fota_args 3 [] 0) h = Some (Exit 0) \<and>
    file_of ?env 3 h (calls (download_body ?env None (Suc 0) (Suc 0) 7 (- 1, 0) default_fota_args 3 [] 0) h) = []" for h
    by (simp add: download_body_def finish_def leave_def unregisterFromDaemon_def run_simps extends_rules
        wait piece)
  then show "outcome (fetch ?env) [] = Some (Exit 0)" and "file_of ?env 3 [] (calls (fetch ?env) []) = []"
    using fetch_run[OF refl answers_parsed(4,6), of "''hi''" False] answers_parsed(5) by auto
qed

text \<open>When the daemon goes away, its connection is readable for ever; while nothing comes from the server
  the loop turns without end, and the time-out of ten seconds never passes.\<close>

theorem lost_daemon_turns_for_ever:
  assumes "\<And>h. rc (env h (Sock (EpollWait ep))) = 1"
    and "\<And>h. map fst (ready (env h (Sock (EpollWait ep)))) = [ctl]"
    and "\<And>h k. rc (env h (Sock (SockRecv ctl k))) \<le> 0"
    and "ctl \<noteq> data" and "cl = 0 \<or> r < cl"
  shows "outcome (download_loop env n k ep data ctl out cl r d) h = None"
proof -
  have "outcome (recvMsg env ctl) h = None" for h
    using assms(3) by (simp add: recvMsg_def run_simps extends_rules recv_loop_run Let_def)
  then show ?thesis
    using assms(1,2,4,5)
    by (induction n arbitrary: h d) (auto simp: run_simps extends_rules disruption_def)
qed

end
