(* ===== verification/Logger.thy ===== *)
theory Logger
  imports Api_Wire
begin

text \<open>
  \<^verbatim>\<open>common/logger.hpp\<close>: each message goes to the standard error output, as a line with a tag for
  its priority, and to the system's log. The text arrives formatted; the other theories leave the
  calls out, since nothing in the daemon reads a log. Here is what a reader of the lines can rely on.
\<close>

subsection \<open>Priorities\<close>

definition LOG_ERR :: int where "LOG_ERR = 3"
definition LOG_WARNING :: int where "LOG_WARNING = 4"
definition LOG_INFO :: int where "LOG_INFO = 6"
definition LOG_DEBUG :: int where "LOG_DEBUG = 7"

lemmas log_priorities = LOG_ERR_def LOG_WARNING_def LOG_INFO_def LOG_DEBUG_def

definition priorityTag :: "int \<Rightarrow> string" where
  "priorityTag priority =
     (if priority = LOG_DEBUG then ''DBG''
      else if priority = LOG_INFO then ''INF''
      else if priority = LOG_WARNING then ''WRN''
      else if priority = LOG_ERR then ''ERR''
      else ''   '')"

subsection \<open>Sinks\<close>

text \<open>\<open>Openlog\<close> takes the identity, the options and the facility.\<close>

datatype sink_call = Stderr string | Syslog int string | LineBuffered
  | Openlog string int int | Closelog

definition line_feed :: char where
  "line_feed = CHR 0x0A"

text \<open>\<^verbatim>\<open>%s\<close> stops at the first null byte of the text.\<close>

definition stderr_line :: "int \<Rightarrow> string \<Rightarrow> string" where
  "stderr_line priority msg = ''['' @ priorityTag priority @ ''] '' @ c_str msg @ [line_feed]"

definition log_sinks :: "int \<Rightarrow> string \<Rightarrow> sink_call list" where
  "log_sinks priority msg = [Stderr (stderr_line priority msg), Syslog priority (c_str msg)]"

definition log_debug :: "string \<Rightarrow> sink_call list" where "log_debug msg = log_sinks LOG_DEBUG msg"
definition log_info :: "string \<Rightarrow> sink_call list" where "log_info msg = log_sinks LOG_INFO msg"
definition log_warn :: "string \<Rightarrow> sink_call list" where "log_warn msg = log_sinks LOG_WARNING msg"
definition log_error :: "string \<Rightarrow> sink_call list" where "log_error msg = log_sinks LOG_ERR msg"

text \<open>\<^verbatim>\<open>LOG_PID | LOG_NDELAY\<close> is 1 and 8, \<^verbatim>\<open>LOG_DAEMON\<close> is 24.\<close>

definition open_log :: "string \<Rightarrow> sink_call list" where
  "open_log ident = [LineBuffered, Openlog ident 9 24]"

definition close_log :: "sink_call list" where
  "close_log = [Closelog]"

subsection \<open>Reading the lines back\<close>

lemma priorityTag_length [simp]: "length (priorityTag p) = 3"
  by (simp add: priorityTag_def)

lemma priorityTag_inj:
  "p \<in> {LOG_ERR, LOG_WARNING, LOG_INFO, LOG_DEBUG} \<Longrightarrow>
   q \<in> {LOG_ERR, LOG_WARNING, LOG_INFO, LOG_DEBUG} \<Longrightarrow> priorityTag p = priorityTag q \<longleftrightarrow> p = q"
  by (auto simp: priorityTag_def log_priorities)

text \<open>A line tells the priority, for the four that are used, and the text up to its first null
  byte.\<close>

theorem stderr_line_inj:
  assumes "p \<in> {LOG_ERR, LOG_WARNING, LOG_INFO, LOG_DEBUG}"
    and "q \<in> {LOG_ERR, LOG_WARNING, LOG_INFO, LOG_DEBUG}"
  shows "stderr_line p m = stderr_line q n \<longleftrightarrow> p = q \<and> c_str m = c_str n"
  using priorityTag_inj[OF assms] by (auto simp: stderr_line_def)

text \<open>Lines of the output: one for each message, when its text has no line feed of its own.\<close>

definition line_count :: "string \<Rightarrow> nat" where
  "line_count s = length (filter (\<lambda>c. c = line_feed) s)"

lemma line_count_stderr_line: "line_count (stderr_line p m) = Suc (line_count (c_str m))"
  by (simp add: line_count_def stderr_line_def priorityTag_def line_feed_def)

text \<open>The server's warning about a registration with an unknown class has the class id in it, as
  the client wrote it.\<close>

definition unknown_class_text :: "string \<Rightarrow> int \<Rightarrow> string" where
  "unknown_class_text classId fd =
     ''[API] Register: unknown classId='' @ [CHR 0x27] @ classId @ [CHR 0x27] @ '' from fd='' @
     int_text fd"

text \<open>A client can so write a line of its own, here an error that the daemon never reported.\<close>

theorem client_forges_line:
  "\<exists>m a b. wf_msg m \<and>
     stderr_line LOG_WARNING (unknown_class_text (get_text (msg_classId m)) 9) =
       a @ [line_feed] @ stderr_line LOG_ERR b"
proof (intro exI conjI)
  let ?m = "zero_msg\<lparr>msg_classId := put_text ([line_feed] @ ''[ERR] routing lost'')\<rparr>"
  show "wf_msg ?m" by (simp add: wf_msg_def zero_msg_def)
  show "stderr_line LOG_WARNING (unknown_class_text (get_text (msg_classId ?m)) 9) =
      (''[WRN] [API] Register: unknown classId='' @ [CHR 0x27]) @ [line_feed] @
        stderr_line LOG_ERR (''routing lost'' @ [CHR 0x27] @ '' from fd=9'')"
    by code_simp
qed

end
