(* ===== verification/Spec2Isabelle.thy ===== *)
theory Spec2Isabelle
  imports Daemon_Run Thread_Points Backoff_Wait Notice_Stream Cached_State Wpa_Events Wpa_Ctrl_Variants
    Fota_Consumer Logger
begin

text \<open>
  A verification library of \<^verbatim>\<open>wifi-offload-manager\<close>, the daemon under
  \<^verbatim>\<open>src/wifi-offload-manager/src\<close> (paths below are relative to it). The daemon reads a list of path
  classes, steers the traffic of each class into a routing table of its own, follows the WiFi path
  of each class through wpa_supplicant, and tells registered consumers how the path is.

  \<^bold>\<open>The program and its parts.\<close> \<^verbatim>\<open>main.cpp\<close> loads the configuration (\<^verbatim>\<open>config/\<close>); sets up cgroups,
  firewall rules and routing rules (\<^verbatim>\<open>routing/\<close>) and MPTCP endpoints (\<^verbatim>\<open>mptcp/\<close>), each phase with the
  clean-up of the earlier ones when it fails; gives each class a state machine (\<^verbatim>\<open>fsm/\<close>) and a
  monitor with a thread (\<^verbatim>\<open>wpa/\<close>); starts the consumer API (\<^verbatim>\<open>api/\<close>), which has a thread too; and
  waits for signals. A line of the supplicant becomes an event of the monitor; the event moves the
  machine; the machine's callbacks set or remove the default route of the class and notify the
  consumers. The parts share \<^verbatim>\<open>common/\<close>.

  \<^bold>\<open>How programs are modelled.\<close> Code that calls the operating system is a program of the state
  monad over the list of calls made so far (theory Prelude). Its environment, an argument of every
  definition, is a function from the history and a call to the answer, so a statement over all
  environments is one over everything the kernel, libmnl, libiptc, the supplicant and other threads
  may do. \<open>outcome\<close> is the result of a program, \<open>calls\<close> its calls. Errors are values: a \<open>status\<close>
  (\<^verbatim>\<open>std::expected<void, E>\<close>), an option where only failure matters. Machine integers are words where
  their width matters. What a property needs of the outside is a named hypothesis on the environment
  with a witness for a concrete one: \<open>recv_contract\<close>, \<open>write_contract\<close> (what recv and write promise), \<open>takes_all\<close>
  (messages go out whole), \<open>files_open\<close>, \<open>rule_kernel\<close> and \<open>sane_table\<close> (a kernel that keeps a set
  of rules, a firewall table, and answers from it), \<open>netcls_files\<close> (the class id files of the
  kernel's net_cls controller), \<open>stable_ifaces\<close>, \<open>clock_runs\<close>, \<open>requests_return\<close>, \<open>atomic_flag\<close>, \<open>stopped_from\<close>.
\<close>

text \<open>
  \<^bold>\<open>Theories, and the code they model.\<close>

  \<^item> Prelude: programs, their loops (\<^verbatim>\<open>return\<close> at the first error, or visit all), machines driven by
    events; the contracts of loop bodies and of invariants as locales, with the lemma collections.
  \<^item> Net_Types: \<^verbatim>\<open>common/types.hpp\<close>, \<^verbatim>\<open>common/error.hpp\<close>. Syscalls: the calls and their answers.
  \<^item> Number_Text: the numeric conversions of the standard library that the code uses, with round
    trips, and the contract of a fixed-width field.
  \<^item> Config_Loader: \<^verbatim>\<open>config/config_loader.cpp\<close>. What loads is valid; what is valid can be written
    and loads again. The JSON library is a record of functions and a parser, both parameters.
  \<^item> Path_Fsm: \<^verbatim>\<open>fsm/path_state_fsm.cpp\<close>. The machine follows the table of its header; the routes
    that can be there are through the active interface, whichever of the requests fail; what a terminating supplicant leaves behind.
  \<^item> Wpa_Monitor: parsing and dispatch of \<^verbatim>\<open>wpa/wpa_monitor.cpp\<close>. Wpa_Events: the messages that
    \<^verbatim>\<open>wpa/wpa_ctrl.h\<close> announces, and which of them the monitor acts on. Wpa_Ctrl: \<^verbatim>\<open>wpa/wpa_ctrl.c\<close>
    with \<^verbatim>\<open>wpa/os.h\<close>; what opening takes, closing gives back; a request finds its reply among other
    messages; sending gives up. Wpa_Ctrl_Variants: the parts of \<^verbatim>\<open>wpa/wpa_ctrl.c\<close> that the build
    leaves out, for UDP, named pipes and Android, with the same balance of what they take.
    Wpa_Loop: the poll loop and the reconnect loop, with the contracts of a callback.
    Monitor_Thread: that thread with the callback of \<^verbatim>\<open>main.cpp\<close>; it refines the daemon of line
    events, returns after a stop and holds nothing then.
  \<^item> Api_Wire, Api_Server: messages, their bytes, and the handlers of
    \<^verbatim>\<open>api/consumer_api_server.cpp\<close>. Api_Correct: the effect of each handler as a function, the
    registry as a map, invariants over all sequences of input, answers and notifications.
    Api_Lifecycle: start, event loop, stop. Api_Threads: the threads that share the registry, as a
    step relation over descriptors that the kernel gives out again. Cached_State: the fields of a
    class's state, written by one thread and read by another without a lock.
  \<^item> Ip_Rules, Iptables_Rules, Iptables_Correct, Routing_Setup: \<^verbatim>\<open>routing/routing_policy_manager.cpp\<close>:
    netlink rules and routes; firewall entries byte for byte where the code computes sizes; what
    the entries do to a packet, and where that is less than the documented policy; cgroups and
    their ids as the kernel shows them; clean-up.
  \<^item> Mptcp_Manager: \<^verbatim>\<open>mptcp/mptcp_manager.cpp\<close>. Logger: \<^verbatim>\<open>common/logger.hpp\<close>.
  \<^item> Daemon: the callbacks of \<^verbatim>\<open>main.cpp\<close> and the daemon as a machine driven by lines, requests and
    hang-ups. Daemon_Run: \<^verbatim>\<open>main\<close> from the arguments to the exit status. Threads: the main thread,
    the monitors and the watchdog as a step relation, with what waits for what. Thread_Points: the
    detailed thread of a monitor moves through the points of that relation. Backoff_Wait: its wait
    on the condition variable, and the stop that can be missed.
  \<^item> Mock_Consumer: \<^verbatim>\<open>../tests/mock_consumer.cpp\<close>, the other end of the API's protocol, composed
    with the server. Notice_Stream: the daemon and that consumer end to end, from the lines of the
    supplicants to the notifications that the consumer takes. Fota_Consumer:
    \<^verbatim>\<open>../tests/fota_consumer.cpp\<close>, a download over HTTP beside the notifications; what a successful one
    has written, and to which file.

  A record has the fields of the struct or class it models, a datatype the enumerators; where two
  enumerations share a name, one gets a prefix. Functions keep their names; a long one is split at
  its early returns, and the parts are named after what they do.
\<close>

text \<open>
  \<^bold>\<open>Bounds.\<close> Loops that may run for ever have a bound on their rounds and say when it was not
  enough; a property either holds for every bound or says which one suffices.

  \<^item> \<open>retry_send\<close>: seven rounds suffice once the clock runs (\<open>sending_gives_up\<close>); more change
    nothing. \<open>recv_replies\<close> and \<open>nl_exchange\<close> read until the netlink answer ends; the bound is the
    argument \<open>fuel\<close>, and a kernel that never ends an answer makes the code wait for ever.
  \<^item> A monitor's thread has a bound on connections (\<open>k\<close>) and one on events of a connection (\<open>n\<close>).
    The rounds up to the stop suffice (\<open>stopped_thread_returns\<close>); without a stop no bound does, as
    the thread is to run on.
  \<^item> \<open>handleAccept\<close>, \<open>runLoop\<close> and \<open>receive_events\<close>: bounds on connections, waits and messages;
    \<open>download\<close>: on pieces of the header, waits, and writes of a piece.
  \<^item> \<open>main_daemon\<close> runs on the signals that come before the first test of the shutdown flag, the
    monitors' events before the server's start, and the events after it, and returns None when
    they end first.
  \<^item> \<^verbatim>\<open>unsigned long\<close> has \<open>bits\<close> bits: 32 on the target image, 64 elsewhere. Handles are unique in the
    first \<open>2 ^ 64 - 2\<close> events.

  \<^bold>\<open>How the levels meet.\<close> Daemon takes lines as events, one at a time; Monitor_Thread shows that the
  thread with its connections, polls and retries reaches the same machine state on the lines that it
  receives. Threads and Api_Threads abstract what a step does and keep where each thread is; their
  steps are cut where the code takes or releases a mutex, joins, waits or reads an atomic. Of a
  monitor's thread Thread_Points shows that its readings of the flag, its waits and the lines that it
  takes are those of the steps. That the points of the main thread, the watchdog and the server's
  thread are those of the detailed programs is by reading, not by a theorem. In Api_Threads what
  counts is which connection a descriptor denotes. Daemon_Run leaves the monitors out of the shutdown;
  stopping and joining them is in Threads and Monitor_Thread.
\<close>

text \<open>
  \<^bold>\<open>Not modelled.\<close>

  \<^item> The calls of the logger in the other components: they change nothing that the daemon reads.
  \<^item> Class declarations in headers, beyond their fields and constants; copying, moving and the
    destruction of objects at the end of \<^verbatim>\<open>main\<close>, but for the thread objects in Threads; memory contents; exceptions of the allocator.
  \<^item> libiptc, libmnl, the JSON library and \<^verbatim>\<open>sd_notify\<close>: the first three are the environment or
    parameters, the last only tells systemd. In \<open>sane_table\<close> the targets of the output chain stand
    for the lists of both tables, of which a program opens one at a time.
  \<^item> What C++ leaves undefined of the unlocked accesses to the cached class states: Cached_State
    takes each read and write of a field as one step, Api_Server one handler or notification.
  \<^item> The tests; what the two consumers print, and the thread of the download that samples the
    throughput, which only reads a counter. OpenSSL's digest is a parameter.
\<close>

end
